(* ===== verification/Prelude.thy ===== *)
theory Prelude
  imports Main "HOL-Library.Word" "HOL-Library.AList" "HOL-Library.List_Lexorder"
    "HOL-Library.Char_ord"
begin

text \<open>
  Shared vocabulary of the vault-init development.  Go's machine types are named here
  (\<open>go_int\<close> is Go's 64-bit \<open>int\<close>, \<open>duration\<close> is \<open>time.Duration\<close>, an \<open>int64\<close>
  count of nanoseconds), Go strings are byte sequences and are modelled as \<open>string\<close>
  (a list of 8-bit \<open>char\<close>s), and a JSON object with string members is the list of its
  members in the order the encoder writes them.  The decimal-digit helpers and the queue
  helper \<open>pop\<close> are used by the library models and by the test environment; the
  \<open>named_theorems\<close> collections gather the evaluation rules the component proofs use.
\<close>

type_synonym go_int = "64 word"
type_synonym duration = "64 word"
type_synonym exit_code = int
type_synonym json_obj = "(string \<times> string) list"
type_synonym environ = "(string \<times> string) list"

named_theorems go_simps "evaluation rules of the Go standard-library models"
named_theorems rt_simps "rules for the recorded external calls of the program"

subsection \<open>Decimal digits\<close>

definition is_digit :: "char \<Rightarrow> bool" where
  "is_digit c \<longleftrightarrow> CHR ''0'' \<le> c \<and> c \<le> CHR ''9''"

definition digit_val :: "char \<Rightarrow> nat" where
  "digit_val c = of_char c - 48"

definition digit_char :: "nat \<Rightarrow> char" where
  "digit_char d = ''0123456789'' ! d"

text \<open>The value of a string of decimal digits, most significant first.\<close>

definition digits_value :: "string \<Rightarrow> nat" where
  "digits_value ds = foldl (\<lambda>n c. n * 10 + digit_val c) 0 ds"

subsection \<open>Queues of scripted replies\<close>

text \<open>
  \<open>pop d xs\<close> takes the next element of a queue, or the default \<open>d\<close> once the queue is
  exhausted; the test environment uses it for its scripted faults.
\<close>

definition pop :: "'a \<Rightarrow> 'a list \<Rightarrow> 'a \<times> 'a list" where
  "pop d xs = (case xs of [] \<Rightarrow> (d, []) | x # xs' \<Rightarrow> (x, xs'))"

lemma pop_Nil [simp]: "pop d [] = (d, [])"
  and pop_Cons [simp]: "pop d (x # xs) = (x, xs)"
  by (simp_all add: pop_def)

subsection \<open>Digit lemmas\<close>

lemma digit_char_cases:
  assumes "d < (10::nat)"
  shows "d \<in> {0, 1, 2, 3, 4, 5, 6, 7, 8, 9}"
  using assms by auto

lemma digit_val_digit_char [simp]: "d < 10 \<Longrightarrow> digit_val (digit_char d) = d"
  by (drule digit_char_cases) (auto simp: digit_val_def digit_char_def)

lemma is_digit_digit_char [simp]: "d < 10 \<Longrightarrow> is_digit (digit_char d)"
  by (drule digit_char_cases) (auto simp: is_digit_def digit_char_def less_eq_char_def)

lemma digit_char_not_sign [simp]:
  "d < 10 \<Longrightarrow> digit_char d \<noteq> CHR ''-''"
  "d < 10 \<Longrightarrow> digit_char d \<noteq> CHR ''+''"
  by (auto dest: digit_char_cases simp: digit_char_def)

lemma digit_val_less: "is_digit c \<Longrightarrow> digit_val c < 10"
  unfolding is_digit_def digit_val_def less_eq_char_def by simp arith

lemma of_char_digit_char: "d < 10 \<Longrightarrow> of_char (digit_char d) = (48 + d :: nat)"
  by (drule digit_char_cases) (auto simp: digit_char_def)

lemma digit_char_digit_val: "is_digit c \<Longrightarrow> digit_char (digit_val c) = c"
proof -
  assume d: "is_digit c"
  then have "(48::nat) \<le> of_char c" by (simp add: is_digit_def less_eq_char_def)
  then have "48 + digit_val c = of_char c" by (simp add: digit_val_def)
  moreover from d have "digit_val c < 10" by (rule digit_val_less)
  ultimately have "of_char (digit_char (digit_val c)) = (of_char c :: nat)"
    by (simp add: of_char_digit_char)
  then show ?thesis by (metis char_of_char)
qed

lemma digits_value_snoc [simp]:
  "digits_value (ds @ [c]) = digits_value ds * 10 + digit_val c"
  by (simp add: digits_value_def)

lemma digits_value_single [simp]: "digits_value [c] = digit_val c"
  by (simp add: digits_value_def)

lemma digits_value_Nil [simp]: "digits_value [] = 0"
  by (simp add: digits_value_def)

end
