(* ===== verification/GoStrconv.thy ===== *)
theory GoStrconv
  imports Prelude
begin

text \<open>
  The parts of Go's \<open>strconv\<close> package that vault-init calls: \<open>Itoa\<close> (labels of the
  recovery keys), \<open>Atoi\<close> (\<open>intFromEnv\<close>) with its fast path for short strings and
  the \<open>ParseInt\<close>/\<open>ParseUint\<close> slow path, and \<open>ParseBool\<close> (\<open>boolFromEnv\<close>).
  These are library code, modelled from the library's documented algorithm at base 10 and
  bit size 64.  The lemmas show that the fast path of \<open>Atoi\<close> agrees with \<open>ParseInt\<close>,
  that \<open>ParseInt\<close> refines the abstract reading of an optionally signed decimal numeral
  within the range of \<open>int64\<close>, and that \<open>Atoi\<close> reads back what \<open>Itoa\<close> writes.
\<close>

datatype num_error = ErrSyntax | ErrRange

subsection \<open>Itoa\<close>

fun nat_digits :: "nat \<Rightarrow> string" where
  "nat_digits n =
     (if n < 10 then [digit_char n] else nat_digits (n div 10) @ [digit_char (n mod 10)])"

declare nat_digits.simps [simp del]

text \<open>\<open>strconv.Itoa(i)\<close> is \<open>FormatInt(int64(i), 10)\<close>: a minus sign, then the digits.\<close>

definition go_itoa :: "go_int \<Rightarrow> string" where
  "go_itoa w =
     (let i = sint w in
      if i < 0 then CHR ''-'' # nat_digits (nat (- i)) else nat_digits (nat i))"

subsection \<open>ParseUint, ParseInt\<close>

definition max_uint64 :: nat where
  "max_uint64 = 2 ^ 64 - 1"

definition uint64_cutoff :: nat where
  "uint64_cutoff = max_uint64 div 10 + 1"

text \<open>
  The digit loop of \<open>ParseUint(s, 10, 64)\<close>.  Go computes \<open>n1 := n*10 + d\<close> in
  \<open>uint64\<close> and detects the wrap with \<open>n1 < n || n1 > maxVal\<close>; since
  \<open>n < cutoff\<close> bounds \<open>n*10\<close> below \<open>2^64\<close>, that test is \<open>n1 > maxVal\<close> here.
\<close>

fun parse_uint_loop :: "nat \<Rightarrow> string \<Rightarrow> num_error + nat" where
  "parse_uint_loop n [] = Inr n"
| "parse_uint_loop n (c # cs) =
     (if \<not> is_digit c then Inl ErrSyntax
      else if uint64_cutoff \<le> n then Inl ErrRange
      else (let n1 = n * 10 + digit_val c in
            if max_uint64 < n1 then Inl ErrRange else parse_uint_loop n1 cs))"

definition go_parse_uint :: "string \<Rightarrow> num_error + nat" where
  "go_parse_uint s = (if s = [] then Inl ErrSyntax else parse_uint_loop 0 s)"

text \<open>Picking off the leading sign, as \<open>ParseInt\<close> and \<open>Atoi\<close> do.\<close>

definition split_sign :: "string \<Rightarrow> bool \<times> string" where
  "split_sign s =
     (case s of
        [] \<Rightarrow> (False, [])
      | c # cs \<Rightarrow>
          if c = CHR ''+'' then (False, cs) else if c = CHR ''-'' then (True, cs) else (False, s))"

text \<open>
  \<open>ParseInt(s, 10, 0)\<close> on a 64-bit platform: a range error of \<open>ParseUint\<close> becomes
  the range error of \<open>ParseInt\<close>; \<open>n := int64(un); if neg { n = -n }\<close> is computed
  on the 64-bit word.
\<close>

definition go_parse_int :: "string \<Rightarrow> num_error + go_int" where
  "go_parse_int s =
     (if s = [] then Inl ErrSyntax
      else (case split_sign s of
        (neg, t) \<Rightarrow>
          (case go_parse_uint t of
             Inl e \<Rightarrow> Inl e
           | Inr un \<Rightarrow>
               if \<not> neg \<and> 2 ^ 63 \<le> un then Inl ErrRange
               else if neg \<and> 2 ^ 63 < un then Inl ErrRange
               else Inr (if neg then - word_of_nat un else word_of_nat un))))"

subsection \<open>Atoi\<close>

text \<open>
  The fast path of \<open>Atoi\<close> for strings of 1 to 18 bytes: the sign, then
  \<open>ch -= '0'; if ch > 9 { syntax error }; n = n*10 + int(ch)\<close> on Go's \<open>int\<close>.
\<close>

definition atoi_fast :: "string \<Rightarrow> num_error + go_int" where
  "atoi_fast s =
     (case split_sign s of
        (neg, t) \<Rightarrow>
          if t = [] then Inl ErrSyntax
          else if \<not> list_all is_digit t then Inl ErrSyntax
          else (let n = foldl (\<lambda>n c. n * 10 + word_of_nat (digit_val c)) (0::go_int) t in
                Inr (if neg then - n else n)))"

definition go_atoi :: "string \<Rightarrow> num_error + go_int" where
  "go_atoi s = (if 0 < length s \<and> length s < 19 then atoi_fast s else go_parse_int s)"

subsection \<open>ParseBool\<close>

definition go_parse_bool :: "string \<Rightarrow> num_error + bool" where
  "go_parse_bool s =
     (if s \<in> set [''1'', ''t'', ''T'', ''true'', ''TRUE'', ''True''] then Inr True
      else if s \<in> set [''0'', ''f'', ''F'', ''false'', ''FALSE'', ''False''] then Inr False
      else Inl ErrSyntax)"

subsection \<open>The abstract reading of a decimal numeral\<close>

definition decimal_int :: "string \<Rightarrow> int option" where
  "decimal_int s =
     (case split_sign s of
        (neg, t) \<Rightarrow>
          if t \<noteq> [] \<and> list_all is_digit t
          then Some (if neg then - int (digits_value t) else int (digits_value t))
          else None)"

definition int64_range :: "int \<Rightarrow> bool" where
  "int64_range i \<longleftrightarrow> - (2 ^ 63) \<le> i \<and> i < 2 ^ 63"

subsection \<open>Evaluation rules\<close>

lemmas digit_eval [go_simps] = is_digit_def digit_val_def digit_char_def less_eq_char_def
lemmas strconv_defs [go_simps] = go_atoi_def atoi_fast_def go_parse_int_def go_parse_uint_def
  split_sign_def uint64_cutoff_def max_uint64_def go_itoa_def nat_digits.simps go_parse_bool_def

subsection \<open>Decimal digits of Itoa\<close>

lemma nat_digits_not_Nil [simp]: "nat_digits n \<noteq> []"
  by (subst nat_digits.simps) simp

lemma nat_digits_all_digits [simp]: "list_all is_digit (nat_digits n)"
  by (induction n rule: nat_digits.induct) (subst nat_digits.simps, simp)

lemma digits_value_nat_digits [simp]: "digits_value (nat_digits n) = n"
  by (induction n rule: nat_digits.induct) (subst nat_digits.simps, simp)

lemma split_sign_digits:
  assumes "list_all is_digit t" and "t \<noteq> []"
  shows "split_sign t = (False, t)"
proof (cases t)
  case (Cons c cs)
  with assms have "is_digit c" by simp
  then have "c \<noteq> CHR ''+'' \<and> c \<noteq> CHR ''-''" by (auto simp: is_digit_def less_eq_char_def)
  with Cons show ?thesis by (simp add: split_sign_def)
qed (use assms in simp)

lemma split_sign_length: "split_sign s = (neg, t) \<Longrightarrow> length t \<le> length s"
  by (auto simp: split_sign_def split: list.splits if_splits)

subsection \<open>The digit loop of ParseUint\<close>

lemma foldl_digits_ge: "n * 10 ^ length t \<le> foldl (\<lambda>n c. n * 10 + digit_val c) n t"
proof (induction t arbitrary: n)
  case (Cons c t)
  have "n * 10 * 10 ^ length t \<le> (n * 10 + digit_val c) * 10 ^ length t" by simp
  also have "\<dots> \<le> foldl (\<lambda>n c. n * 10 + digit_val c) (n * 10 + digit_val c) t" by (rule Cons.IH)
  finally show ?case by (simp add: mult.assoc)
qed simp

lemma foldl_digits_less:
  "list_all is_digit t \<Longrightarrow> foldl (\<lambda>n c. n * 10 + digit_val c) n t < (n + 1) * 10 ^ length t"
proof (induction t arbitrary: n)
  case (Cons c t)
  then have "digit_val c \<le> 9" using digit_val_less by fastforce
  then have "digit_val c * 10 ^ length t \<le> 9 * 10 ^ length t" by simp
  then have "(n * 10 + digit_val c + 1) * 10 ^ length t \<le> (n + 1) * 10 ^ length (c # t)"
    by (simp add: algebra_simps)
  with Cons show ?case by (simp del: power_Suc) (meson less_le_trans)
qed simp

lemma parse_uint_loop_Inr:
  "parse_uint_loop n t = Inr m \<Longrightarrow> list_all is_digit t \<and> m = foldl (\<lambda>n c. n * 10 + digit_val c) n t"
  by (induction n t rule: parse_uint_loop.induct) (auto simp: Let_def split: if_splits)

lemma parse_uint_loop_ok:
  "list_all is_digit t \<Longrightarrow> foldl (\<lambda>n c. n * 10 + digit_val c) n t \<le> 2 ^ 63 \<Longrightarrow>
   parse_uint_loop n t = Inr (foldl (\<lambda>n c. n * 10 + digit_val c) n t)"
proof (induction t arbitrary: n)
  case (Cons c t)
  let ?n1 = "n * 10 + digit_val c"
  have "?n1 \<le> ?n1 * 10 ^ length t" by simp
  also have "\<dots> \<le> foldl (\<lambda>n c. n * 10 + digit_val c) ?n1 t" by (rule foldl_digits_ge)
  finally have n1: "?n1 \<le> 2 ^ 63" using Cons.prems(2) by simp
  then have "n < uint64_cutoff" "\<not> max_uint64 < ?n1"
    by (simp_all add: uint64_cutoff_def max_uint64_def)
  with Cons show ?case by (simp add: Let_def)
qed simp

lemma parse_uint_loop_syntax:
  "\<not> list_all is_digit t \<Longrightarrow> (n + 1) * 10 ^ length t \<le> 10 ^ 18 \<Longrightarrow>
   parse_uint_loop n t = Inl ErrSyntax"
proof (induction t arbitrary: n)
  case (Cons c t)
  show ?case
  proof (cases "is_digit c")
    case True
    then have d: "digit_val c \<le> 9" using digit_val_less by fastforce
    have step: "(n + 1) * 10 * 10 ^ length t \<le> 10 ^ 18"
      using Cons.prems(2) by (simp add: algebra_simps)
    have "(n + 1) * 10 \<le> (n + 1) * 10 * 10 ^ length t" by simp
    with step have "(n + 1) * 10 \<le> 10 ^ 18" by (rule le_trans [rotated])
    then have "n < uint64_cutoff" "\<not> max_uint64 < n * 10 + digit_val c"
      using d by (simp_all add: uint64_cutoff_def max_uint64_def)
    moreover have "n * 10 + digit_val c + 1 \<le> (n + 1) * 10" using d by simp
    then have "(n * 10 + digit_val c + 1) * 10 ^ length t \<le> (n + 1) * 10 * 10 ^ length t"
      by (rule mult_right_mono) simp
    with step have "(n * 10 + digit_val c + 1) * 10 ^ length t \<le> 10 ^ 18"
      by (rule le_trans [rotated])
    ultimately show ?thesis using True Cons by (simp add: Let_def)
  qed simp
qed simp

lemma go_parse_uint_Inr:
  "go_parse_uint t = Inr m \<Longrightarrow> t \<noteq> [] \<and> list_all is_digit t \<and> m = digits_value t"
  by (auto simp: go_parse_uint_def digits_value_def split: if_splits dest: parse_uint_loop_Inr)

lemma go_parse_uint_ok:
  "t \<noteq> [] \<Longrightarrow> list_all is_digit t \<Longrightarrow> digits_value t \<le> 2 ^ 63 \<Longrightarrow>
   go_parse_uint t = Inr (digits_value t)"
  using parse_uint_loop_ok [of t 0] by (simp add: go_parse_uint_def digits_value_def)

lemma digits_value_less: "list_all is_digit t \<Longrightarrow> digits_value t < 10 ^ length t"
  using foldl_digits_less [of t 0] by (simp add: digits_value_def)

lemma foldl_digits_word:
  "foldl (\<lambda>n c. n * 10 + word_of_nat (digit_val c)) (word_of_nat m :: 'a::len word) t =
   word_of_nat (foldl (\<lambda>n c. n * 10 + digit_val c) m t)"
proof (induction t arbitrary: m)
  case (Cons c t)
  show ?case using Cons.IH [of "m * 10 + digit_val c"] by simp
qed simp

lemma sint_word_of_int_range: "int64_range i \<Longrightarrow> sint (word_of_int i :: go_int) = i"
  by (simp add: int64_range_def sint_sbintrunc' signed_take_bit_int_eq_self)

subsection \<open>The fast path of Atoi is ParseInt\<close>

lemma atoi_fast_eq_parse_int:
  assumes "0 < length s" and "length s < 19"
  shows "atoi_fast s = go_parse_int s"
proof -
  obtain neg t where sp: "split_sign s = (neg, t)" by (cases "split_sign s")
  have lt: "length t \<le> 18" using split_sign_length [OF sp] assms(2) by simp
  have s_ne: "s \<noteq> []" using assms(1) by auto
  show ?thesis
  proof (cases "t \<noteq> [] \<and> list_all is_digit t")
    case True
    let ?v = "digits_value t"
    have "?v < 10 ^ length t" using True by (simp add: digits_value_less)
    also have "\<dots> \<le> 10 ^ 18" using lt by (rule power_increasing) simp
    finally have v: "?v < 10 ^ 18" .
    then have "go_parse_uint t = Inr ?v" using True by (simp add: go_parse_uint_ok)
    moreover have "foldl (\<lambda>n c. n * 10 + word_of_nat (digit_val c)) (0::go_int) t = word_of_nat ?v"
      using foldl_digits_word [of 0 t] by (simp add: digits_value_def)
    ultimately show ?thesis using True sp s_ne v by (simp add: atoi_fast_def go_parse_int_def)
  next
    case False
    have "go_parse_uint t = Inl ErrSyntax"
    proof (cases "t = []")
      case False
      have "(10::nat) ^ length t \<le> 10 ^ 18" using lt by (rule power_increasing) simp
      then have "(0 + 1) * 10 ^ length t \<le> (10::nat) ^ 18" by simp
      with False \<open>\<not> (t \<noteq> [] \<and> list_all is_digit t)\<close> show ?thesis
        by (simp add: go_parse_uint_def parse_uint_loop_syntax)
    qed (simp add: go_parse_uint_def)
    with False sp s_ne show ?thesis by (auto simp: atoi_fast_def go_parse_int_def)
  qed
qed

lemma go_atoi_eq_parse_int: "go_atoi s = go_parse_int s"
  by (simp add: go_atoi_def atoi_fast_eq_parse_int)

subsection \<open>ParseInt refines the reading of a decimal numeral\<close>

lemma go_parse_int_refines:
  "map_sum (\<lambda>_. ()) id (go_parse_int s) =
     (case decimal_int s of
        Some i \<Rightarrow> if int64_range i then Inr (word_of_int i) else Inl ()
      | None \<Rightarrow> Inl ())"
proof -
  obtain neg t where sp: "split_sign s = (neg, t)" by (cases "split_sign s")
  have len: "length t \<le> length s" by (rule split_sign_length [OF sp])
  consider (bad) "\<not> (t \<noteq> [] \<and> list_all is_digit t)"
    | (small) "t \<noteq> [] \<and> list_all is_digit t \<and> digits_value t \<le> 2 ^ 63"
    | (big) "t \<noteq> [] \<and> list_all is_digit t \<and> 2 ^ 63 < digits_value t"
    by fastforce
  then show ?thesis
  proof cases
    case bad
    then have "\<forall>m. go_parse_uint t \<noteq> Inr m" by (blast dest: go_parse_uint_Inr)
    with bad sp show ?thesis
      by (auto simp: go_parse_int_def decimal_int_def split: sum.splits)
  next
    case small
    then have ok: "go_parse_uint t = Inr (digits_value t)" by (simp add: go_parse_uint_ok)
    from small len have "s \<noteq> []" by auto
    with small ok sp show ?thesis
      by (auto simp: go_parse_int_def decimal_int_def int64_range_def)
  next
    case big
    then have "go_parse_uint t = Inr m \<Longrightarrow> m = digits_value t" for m
      by (blast dest: go_parse_uint_Inr)
    with big sp show ?thesis
      by (auto simp: go_parse_int_def decimal_int_def int64_range_def split: sum.splits)
  qed
qed

subsection \<open>Atoi reads back what Itoa writes\<close>

lemma decimal_int_itoa: "decimal_int (go_itoa w) = Some (sint w)"
proof (cases "sint w < 0")
  case True
  then show ?thesis by (simp add: go_itoa_def decimal_int_def split_sign_def)
next
  case False
  then show ?thesis
    by (simp add: go_itoa_def decimal_int_def split_sign_digits)
qed

lemma int64_range_sint: "int64_range (sint (w :: go_int))"
  using sint_ge [of w] sint_lt [of w] by (simp add: int64_range_def)

lemma word_of_int_sint: "word_of_int (sint w) = (w :: 'a::len word)"
  by (metis scast_eq scast_id)

lemma go_parse_int_itoa: "go_parse_int (go_itoa w) = Inr w"
proof -
  have "map_sum (\<lambda>_. ()) id (go_parse_int (go_itoa w)) = Inr w"
    by (simp add: go_parse_int_refines decimal_int_itoa int64_range_sint word_of_int_sint)
  then show ?thesis by (cases "go_parse_int (go_itoa w)") simp_all
qed

lemma go_itoa_not_Nil [simp]: "go_itoa w \<noteq> []"
  by (simp add: go_itoa_def Let_def)

text \<open>
  \<open>strconv.Atoi\<close> accepts exactly the optionally signed decimal numerals whose value
  lies in the range of \<open>int64\<close>, and returns that value; its fast path for short
  strings is invisible.
\<close>

theorem go_atoi_refines:
  "map_sum (\<lambda>_. ()) id (go_atoi s) =
     (case decimal_int s of
        Some i \<Rightarrow> if int64_range i then Inr (word_of_int i) else Inl ()
      | None \<Rightarrow> Inl ())"
  by (simp add: go_atoi_def atoi_fast_eq_parse_int go_parse_int_refines)

text \<open>\<open>Atoi\<close> reads back every \<open>int\<close> that \<open>Itoa\<close> writes.\<close>

theorem go_atoi_itoa: "go_atoi (go_itoa w) = Inr w"
  by (simp add: go_atoi_def atoi_fast_eq_parse_int go_parse_int_itoa)

end
