(* ===== verification/GoDuration.thy ===== *)
theory GoDuration
  imports GoStrconv
begin

text \<open>
  Go's \<open>time.ParseDuration\<close>, which \<open>durFromEnv\<close> calls on the value of
  \<open>CHECK_INTERVAL\<close>.  It is library code, modelled from the library's algorithm:
  an optional sign, the special case \<open>"0"\<close>, then a sequence of
  \<open>[0-9]*(\.[0-9]*)?unit\<close> groups whose values are added up in \<open>uint64\<close> with the
  library's overflow checks.  The sum \<open>d += v\<close> is taken modulo \<open>2^64\<close> as the library's
  \<open>uint64\<close> is.  The one place the model is not the library's arithmetic: the fraction
  \<open>f\<close> of a group contributes \<open>uint64(float64(f) * (float64(unit) / scale))\<close> in Go
  and \<open>f * unit div scale\<close> here, which is the same number whenever the float
  computation is exact (fractions of at most 9 digits, as in \<open>"1.5"\<close>).
\<close>

datatype dur_error = DurInvalid | DurMissingUnit | DurUnknownUnit string

text \<open>\<open>unitMap\<close>; the two spellings of the micro sign are UTF-8 byte sequences.\<close>

definition duration_units :: "(string \<times> nat) list" where
  "duration_units =
     [(''ns'', 1), (''us'', 1000), ([CHR 0xC2, CHR 0xB5, CHR ''s''], 1000),
      ([CHR 0xCE, CHR 0xBC, CHR ''s''], 1000), (''ms'', 1000000), (''s'', 1000000000),
      (''m'', 60000000000), (''h'', 3600000000000)]"

text \<open>\<open>leadingInt\<close>: the digits at the front of the string, \<open>None\<close> on overflow.\<close>

fun leading_int :: "nat \<Rightarrow> string \<Rightarrow> (nat \<times> string) option" where
  "leading_int x [] = Some (x, [])"
| "leading_int x (c # cs) =
     (if \<not> is_digit c then Some (x, c # cs)
      else if 2 ^ 63 div 10 < x then None
      else (let x' = x * 10 + digit_val c in
            if 2 ^ 63 < x' then None else leading_int x' cs))"

text \<open>
  \<open>leadingFraction\<close>: the digits after the point; once the value would overflow, the
  remaining digits are skipped.  The scale (a \<open>float64\<close> power of ten in Go) is the
  natural number \<open>10 ^ k\<close> for the \<open>k\<close> digits taken.
\<close>

fun leading_fraction :: "nat \<Rightarrow> nat \<Rightarrow> bool \<Rightarrow> string \<Rightarrow> nat \<times> nat \<times> string" where
  "leading_fraction x sc ovf [] = (x, sc, [])"
| "leading_fraction x sc ovf (c # cs) =
     (if \<not> is_digit c then (x, sc, c # cs)
      else if ovf then leading_fraction x sc True cs
      else if (2 ^ 63 - 1) div 10 < x then leading_fraction x sc True cs
      else (let y = x * 10 + digit_val c in
            if 2 ^ 63 < y then leading_fraction x sc True cs
            else leading_fraction y (sc * 10) False cs))"

text \<open>
  The optional \<open>(\.[0-9]*)?\<close> part of a group: the fraction, its scale, the rest of the
  string, and whether any digit followed the point (\<open>post\<close>).
\<close>

definition dur_frac :: "string \<Rightarrow> nat \<times> nat \<times> string \<times> bool" where
  "dur_frac s =
     (case s of
        c # cs \<Rightarrow>
          if c = CHR ''.''
          then (case leading_fraction 0 1 False cs of
                  (f, sc, r) \<Rightarrow> (f, sc, r, length r \<noteq> length cs))
          else (0, 1, s, False)
      | [] \<Rightarrow> (0, 1, [], False))"

definition is_unit_char :: "char \<Rightarrow> bool" where
  "is_unit_char c \<longleftrightarrow> c \<noteq> CHR ''.'' \<and> \<not> is_digit c"

lemma leading_int_length: "leading_int x s = Some (v, r) \<Longrightarrow> length r \<le> length s"
  by (induction x s rule: leading_int.induct) (auto simp: Let_def split: if_splits)

lemma leading_fraction_length_rest:
  "length (snd (snd (leading_fraction x sc ovf s))) \<le> length s"
  by (induction x sc ovf s rule: leading_fraction.induct) (auto simp: Let_def le_SucI)

lemma leading_fraction_length:
  "leading_fraction x sc ovf s = (f, sc', r) \<Longrightarrow> length r \<le> length s"
  using leading_fraction_length_rest [of x sc ovf s] by simp

lemma dur_frac_length: "dur_frac s = (f, sc, r, post) \<Longrightarrow> length r \<le> length s"
  by (auto simp: dur_frac_def split: list.splits if_splits prod.splits
      dest!: leading_fraction_length)

lemma dur_loop_measure:
  assumes "leading_int 0 s = Some (v, s1)" and "dur_frac s1 = (f, sc, s2, post)"
    and "takeWhile is_unit_char s2 \<noteq> []"
  shows "length (drop (length (takeWhile is_unit_char s2)) s2) < length s"
proof -
  have s2: "length s2 \<le> length s"
    using leading_int_length [OF assms(1)] dur_frac_length [OF assms(2)] by simp
  have u1: "1 \<le> length (takeWhile is_unit_char s2)" using assms(3) by (cases "takeWhile is_unit_char s2") auto
  have "length (takeWhile is_unit_char s2) \<le> length s2" by (rule length_takeWhile_le)
  with s2 u1 show ?thesis unfolding length_drop by linarith
qed

text \<open>
  The \<open>for s != ""\<close> loop of \<open>ParseDuration\<close>, accumulating \<open>d\<close>.  Each round
  consumes a non-empty unit, which is the termination measure.
\<close>

function dur_loop :: "nat \<Rightarrow> string \<Rightarrow> dur_error + nat" where
  "dur_loop d [] = Inr d"
| "dur_loop d (c # cs) =
     (if \<not> (c = CHR ''.'' \<or> is_digit c) then Inl DurInvalid
      else (case leading_int 0 (c # cs) of
        None \<Rightarrow> Inl DurInvalid
      | Some (v, s1) \<Rightarrow>
          (case dur_frac s1 of
            (f, scale, s2, post) \<Rightarrow>
              if \<not> (length s1 \<noteq> length (c # cs)) \<and> \<not> post then Inl DurInvalid
              else (let u = takeWhile is_unit_char s2 in
                if u = [] then Inl DurMissingUnit
                else (case map_of duration_units u of
                  None \<Rightarrow> Inl (DurUnknownUnit u)
                | Some unit \<Rightarrow>
                    if 2 ^ 63 div unit < v then Inl DurInvalid
                    else (let v' = v * unit + (if 0 < f then f * unit div scale else 0) in
                      if 0 < f \<and> 2 ^ 63 < v' then Inl DurInvalid
                      else (let d' = (d + v') mod 2 ^ 64 in
                        if 2 ^ 63 < d' then Inl DurInvalid
                        else dur_loop d' (drop (length u) s2))))))))"
  by pat_completeness auto
termination
  apply (relation "measure (\<lambda>(d, s). length s)")
   apply simp
  apply (simp only: in_measure split_conv)
  apply (metis dur_loop_measure)
  done

text \<open>
  The same loop as Go writes it, \<open>for s != "" { ... }\<close>, with nothing that makes it
  stop but the input running out: a \<open>partial_function\<close> whose \<open>None\<close> would be a loop
  that never returns.  \<open>dur_loop_go_returns\<close> shows that it always returns, with the
  value of \<open>dur_loop\<close>.
\<close>

partial_function (option) dur_loop_go :: "nat \<Rightarrow> string \<Rightarrow> (dur_error + nat) option" where
  "dur_loop_go d s =
     (case s of
        [] \<Rightarrow> Some (Inr d)
      | c # cs \<Rightarrow>
          if \<not> (c = CHR ''.'' \<or> is_digit c) then Some (Inl DurInvalid)
          else (case leading_int 0 s of
            None \<Rightarrow> Some (Inl DurInvalid)
          | Some (v, s1) \<Rightarrow>
              (case dur_frac s1 of
                (f, scale, s2, post) \<Rightarrow>
                  if \<not> (length s1 \<noteq> length s) \<and> \<not> post then Some (Inl DurInvalid)
                  else (let u = takeWhile is_unit_char s2 in
                    if u = [] then Some (Inl DurMissingUnit)
                    else (case map_of duration_units u of
                      None \<Rightarrow> Some (Inl (DurUnknownUnit u))
                    | Some unit \<Rightarrow>
                        if 2 ^ 63 div unit < v then Some (Inl DurInvalid)
                        else (let v' = v * unit + (if 0 < f then f * unit div scale else 0) in
                          if 0 < f \<and> 2 ^ 63 < v' then Some (Inl DurInvalid)
                          else (let d' = (d + v') mod 2 ^ 64 in
                            if 2 ^ 63 < d' then Some (Inl DurInvalid)
                            else dur_loop_go d' (drop (length u) s2))))))))"

definition go_parse_duration :: "string \<Rightarrow> dur_error + duration" where
  "go_parse_duration orig =
     (case split_sign orig of
        (neg, s) \<Rightarrow>
          if s = ''0'' then Inr 0
          else if s = [] then Inl DurInvalid
          else (case dur_loop 0 s of
            Inl e \<Rightarrow> Inl e
          | Inr d \<Rightarrow>
              if neg then Inr (- word_of_nat d)
              else if 2 ^ 63 - 1 < d then Inl DurInvalid
              else Inr (word_of_nat d)))"

lemmas duration_eval [go_simps] = duration_units_def dur_frac_def is_unit_char_def
  go_parse_duration_def

subsection \<open>A numeral followed by a unit\<close>

definition digit_free_head :: "string \<Rightarrow> bool" where
  "digit_free_head r \<longleftrightarrow> (case r of [] \<Rightarrow> True | c # _ \<Rightarrow> \<not> is_digit c)"

lemma leading_int_digits:
  "list_all is_digit t \<Longrightarrow> foldl (\<lambda>n c. n * 10 + digit_val c) x t \<le> 2 ^ 63 \<Longrightarrow>
   digit_free_head r \<Longrightarrow> leading_int x (t @ r) = Some (foldl (\<lambda>n c. n * 10 + digit_val c) x t, r)"
proof (induction t arbitrary: x)
  case Nil
  then show ?case by (cases r) (simp_all add: digit_free_head_def)
next
  case (Cons c t)
  let ?x1 = "x * 10 + digit_val c"
  have "?x1 \<le> ?x1 * 10 ^ length t" by simp
  also have "\<dots> \<le> foldl (\<lambda>n c. n * 10 + digit_val c) ?x1 t" by (rule foldl_digits_ge)
  finally have "?x1 \<le> 2 ^ 63" using Cons.prems(2) by simp
  then have "\<not> 2 ^ 63 div 10 < x" "\<not> 2 ^ 63 < ?x1" by simp_all
  with Cons show ?case by (simp add: Let_def)
qed

lemma duration_units_shape:
  "list_all (\<lambda>(u, unit). u \<noteq> [] \<and> list_all is_unit_char u \<and> 0 < unit) duration_units"
  by (simp add: duration_units_def is_unit_char_def is_digit_def less_eq_char_def)

lemma distinct_duration_units: "distinct (map fst duration_units)"
  by (simp add: duration_units_def)

lemma duration_unit_shape:
  assumes "(u, unit) \<in> set duration_units"
  shows "u \<noteq> [] \<and> list_all is_unit_char u \<and> map_of duration_units u = Some unit \<and> 0 < unit"
  using assms duration_units_shape map_of_is_SomeI [OF distinct_duration_units assms]
  by (auto simp: list_all_iff)

lemma unit_head_not_digit:
  "u \<noteq> [] \<Longrightarrow> list_all is_unit_char u \<Longrightarrow> digit_free_head u \<and> hd u \<noteq> CHR ''.''"
  by (cases u) (auto simp: digit_free_head_def is_unit_char_def)

lemma dur_numeral_prefix:
  assumes "v \<noteq> []" and "list_all is_unit_char v" and "n \<le> 2 ^ 63"
  obtains c cs where "nat_digits n = c # cs" and "is_digit c"
    and "leading_int 0 (c # cs @ v) = Some (n, v)" and "dur_frac v = (0, 1, v, False)"
    and "takeWhile is_unit_char v = v"
proof -
  have hd: "digit_free_head v" "hd v \<noteq> CHR ''.''" using assms(1,2) by (simp_all add: unit_head_not_digit)
  have "leading_int 0 (nat_digits n @ v) = Some (n, v)"
    using leading_int_digits [of "nat_digits n" 0 v] hd(1) assms(3)
    by (simp add: digits_value_def [symmetric])
  moreover obtain c cs where ds: "nat_digits n = c # cs" by (cases "nat_digits n") simp_all
  moreover have "is_digit c" using nat_digits_all_digits [of n] ds by simp
  moreover have "dur_frac v = (0, 1, v, False)"
    using assms(1) hd(2) by (cases v) (simp_all add: dur_frac_def)
  moreover have "takeWhile is_unit_char v = v" using assms(2) by (simp add: list_all_iff)
  ultimately show ?thesis using that by simp
qed

lemma dur_loop_numeral_unit:
  assumes "(u, unit) \<in> set duration_units" and "n * unit < 2 ^ 63"
  shows "dur_loop 0 (nat_digits n @ u) = Inr (n * unit)"
proof -
  from assms(1) have u: "u \<noteq> []" "list_all is_unit_char u" "map_of duration_units u = Some unit"
    and pos: "0 < unit"
    by (simp_all add: duration_unit_shape)
  have "n \<le> n * unit" using pos by simp
  with assms(2) have "n \<le> 2 ^ 63" by linarith
  then obtain c cs where ds: "nat_digits n = c # cs" and c: "is_digit c"
    and li: "leading_int 0 (c # cs @ u) = Some (n, u)" and df: "dur_frac u = (0, 1, u, False)"
    and tw: "takeWhile is_unit_char u = u"
    using dur_numeral_prefix [OF u(1,2)] by blast
  have "\<not> 2 ^ 63 div unit < n"
    using assms(2) pos by (simp add: not_less less_eq_div_iff_mult_less_eq)
  then show ?thesis
    unfolding ds append_Cons
    using c li df u assms(2) by (simp add: tw Let_def del: leading_int.simps)
qed

lemma dur_loop_numeral_unknown:
  assumes "v \<noteq> []" and "list_all is_unit_char v" and "map_of duration_units v = None"
    and "n \<le> 2 ^ 63"
  shows "dur_loop 0 (nat_digits n @ v) = Inl (DurUnknownUnit v)"
proof -
  obtain c cs where ds: "nat_digits n = c # cs" and c: "is_digit c"
    and li: "leading_int 0 (c # cs @ v) = Some (n, v)" and df: "dur_frac v = (0, 1, v, False)"
    and tw: "takeWhile is_unit_char v = v"
    using dur_numeral_prefix [OF assms(1,2,4)] by blast
  show ?thesis
    unfolding ds append_Cons
    using c li df assms(1,3) by (simp add: tw Let_def del: leading_int.simps)
qed

lemma split_sign_digit_head:
  "is_digit c \<Longrightarrow> split_sign (c # cs) = (False, c # cs)"
  by (auto simp: split_sign_def is_digit_def less_eq_char_def)

lemma go_parse_duration_numeral_unit:
  assumes "(u, unit) \<in> set duration_units" and "n * unit < 2 ^ 63"
  shows "go_parse_duration (nat_digits n @ u) = Inr (word_of_nat (n * unit))"
proof -
  obtain c cs where ds: "nat_digits n = c # cs" by (cases "nat_digits n") simp_all
  have c: "is_digit c" using nat_digits_all_digits [of n] ds by simp
  have "u \<noteq> []" using assms(1) by (simp add: duration_unit_shape)
  then have ne0: "c # cs @ u \<noteq> ''0''" by (cases cs) simp_all
  have dl: "dur_loop 0 (c # cs @ u) = Inr (n * unit)"
    using dur_loop_numeral_unit [OF assms] ds by simp
  show ?thesis
    using assms(2) c ne0 unfolding ds append_Cons
    by (auto simp: go_parse_duration_def split_sign_digit_head dl simp del: dur_loop.simps)
qed


lemma go_parse_duration_numeral_unknown:
  assumes "v \<noteq> []" and "list_all is_unit_char v" and "map_of duration_units v = None"
    and "n \<le> 2 ^ 63"
  shows "go_parse_duration (nat_digits n @ v) = Inl (DurUnknownUnit v)"
proof -
  obtain c cs where ds: "nat_digits n = c # cs" by (cases "nat_digits n") simp_all
  have c: "is_digit c" using nat_digits_all_digits [of n] ds by simp
  have ne0: "c # cs @ v \<noteq> ''0''" using assms(1) by (cases cs) simp_all
  have dl: "dur_loop 0 (c # cs @ v) = Inl (DurUnknownUnit v)"
    using dur_loop_numeral_unknown [OF assms] ds by simp
  show ?thesis
    using c ne0 unfolding ds append_Cons
    by (auto simp: go_parse_duration_def split_sign_digit_head dl simp del: dur_loop.simps)
qed

lemma units_s_unknown:
  "list_all (\<lambda>(u, k). u = ''m'' \<or> map_of duration_units (u @ ''s'') = None) duration_units"
  by (simp add: duration_units_def)

lemma unit_s_suffix:
  assumes "(u, k) \<in> set duration_units" and "u \<noteq> ''m''"
  shows "u @ ''s'' \<noteq> [] \<and> list_all is_unit_char (u @ ''s'') \<and> map_of duration_units (u @ ''s'') = None"
proof -
  have "list_all is_unit_char u" using assms(1) by (simp add: duration_unit_shape)
  moreover have "is_unit_char (CHR ''s'')" by (simp add: is_unit_char_def is_digit_def less_eq_char_def)
  moreover have "map_of duration_units (u @ ''s'') = None"
    using units_s_unknown assms by (fastforce simp: list_all_iff)
  ultimately show ?thesis by simp
qed

lemma millis_unit: "(''ms'', 1000000) \<in> set duration_units"
  by (simp add: duration_units_def)

subsection \<open>Termination and the sign of the result\<close>

text \<open>
  The loop of \<open>time.ParseDuration\<close>, which \<open>durFromEnv\<close> runs on the value of
  \<open>CHECK_INTERVAL\<close>, returns on every input: each round consumes at least one unit name.
\<close>

theorem dur_loop_go_returns: "dur_loop_go d s = Some (dur_loop d s)"
proof (induction d s rule: dur_loop.induct)
  case (1 d)
  then show ?case by (simp add: dur_loop_go.simps)
next
  case (2 d c cs)
  show ?case
    by (subst dur_loop_go.simps)
       (auto simp: Let_def "2.IH" split: option.splits prod.splits simp del: leading_int.simps)
qed

lemma dur_loop_step:
  assumes "dur_loop d (c # cs) = Inr r"
  shows "\<exists>d' t. d' \<le> 2 ^ 63 \<and> length t < length (c # cs) \<and> dur_loop d' t = Inr r"
proof -
  from assms obtain v s1 where li: "leading_int 0 (c # cs) = Some (v, s1)"
    by (auto split: if_splits option.splits simp del: leading_int.simps)
  obtain f sc s2 post where df: "dur_frac s1 = (f, sc, s2, post)" by (metis prod_cases4)
  let ?u = "takeWhile is_unit_char s2"
  from assms li df have u: "?u \<noteq> []"
    by (auto simp: Let_def split: if_splits simp del: leading_int.simps)
  from assms li df u obtain d' where "d' \<le> 2 ^ 63" "dur_loop d' (drop (length ?u) s2) = Inr r"
    by (auto simp: Let_def not_less split: if_splits option.splits simp del: leading_int.simps)
  moreover have "length (drop (length ?u) s2) < length (c # cs)"
    by (rule dur_loop_measure [OF li df u])
  ultimately show ?thesis by blast
qed

lemma dur_loop_result: "dur_loop d s = Inr r \<Longrightarrow> r = d \<or> r \<le> 2 ^ 63"
proof (induction "length s" arbitrary: d s rule: less_induct)
  case less
  show ?case
  proof (cases s)
    case Nil
    with less.prems show ?thesis by simp
  next
    case (Cons c cs)
    with less.prems obtain d' t where "d' \<le> 2 ^ 63" "length t < length s" "dur_loop d' t = Inr r"
      using dur_loop_step by blast
    with less.hyps show ?thesis by fastforce
  qed
qed

lemma dur_loop_bound: "dur_loop d s = Inr r \<Longrightarrow> d \<le> 2 ^ 63 \<Longrightarrow> r \<le> 2 ^ 63"
  using dur_loop_result by fastforce

lemma sint_neg_of_nat: "d \<le> 2 ^ 63 \<Longrightarrow> sint (- word_of_nat d :: go_int) = - int d"
proof -
  assume "d \<le> 2 ^ 63"
  then have "int64_range (- int d)" by (simp add: int64_range_def)
  then have "sint (word_of_int (- int d) :: go_int) = - int d" by (rule sint_word_of_int_range)
  then show ?thesis by simp
qed

lemma sint_of_nat_le: "d \<le> 2 ^ 63 - 1 \<Longrightarrow> sint (word_of_nat d :: go_int) = int d"
proof -
  assume "d \<le> 2 ^ 63 - 1"
  then have "int64_range (int d)" by (simp add: int64_range_def)
  then have "sint (word_of_int (int d) :: go_int) = int d" by (rule sint_word_of_int_range)
  then show ?thesis by simp
qed

lemma go_parse_duration_sign:
  assumes "go_parse_duration s = Inr w"
  shows "(fst (split_sign s) \<longrightarrow> sint w \<le> 0) \<and> (\<not> fst (split_sign s) \<longrightarrow> 0 \<le> sint w)"
proof -
  obtain neg t where st: "split_sign s = (neg, t)" by fastforce
  show ?thesis
  proof (cases "t = ''0''")
    case True
    with assms st show ?thesis by (simp add: go_parse_duration_def)
  next
    case False
    with assms st obtain d where dl: "dur_loop 0 t = Inr d"
      by (auto simp: go_parse_duration_def split: if_splits sum.splits)
    have "d \<le> 2 ^ 63" using dur_loop_bound [OF dl] by simp
    then show ?thesis
      using assms st False dl
      by (auto simp: go_parse_duration_def sint_neg_of_nat sint_of_nat_le not_less
          split: if_splits)
  qed
qed

end
