(* ===== verification/Config.thy ===== *)
theory Config
  imports GoDuration
begin

text \<open>
  Start-up configuration of vault-init (\<open>main\<close> lines 56--77 and the helpers
  \<open>intFromEnv\<close>, \<open>durFromEnv\<close>, \<open>boolFromEnv\<close> of \<open>src/main.go\<close>).  The process
  environment is the list of \<open>KEY=value\<close> entries; \<open>os.Getenv\<close> returns the first
  entry of a key and \<open>""\<close> for a missing one.  The package-level variables that
  \<open>main\<close> sets once (\<open>vaultAddr\<close>, the two secret ids, the three share counts) and
  its local \<open>checkInterval\<close> are gathered in the record \<open>config\<close>.  Every
  \<open>log.Fatal\<close> of the start-up code is a value of \<open>config_error\<close>.
\<close>

datatype config_error =
    ErrMissing string
  | ErrParseInt string num_error
  | ErrParseDur string dur_error
  | ErrParseBool string num_error

record config =
  vault_addr :: string
  root_token_secret_id :: string
  recovery_keys_secret_id :: string
  vault_stored_shares :: go_int
  vault_recovery_shares :: go_int
  vault_recovery_threshold :: go_int
  check_interval :: duration

definition getenv :: "environ \<Rightarrow> string \<Rightarrow> string" where
  "getenv env k = (case map_of env k of None \<Rightarrow> [] | Some v \<Rightarrow> v)"

definition bool_from_env :: "environ \<Rightarrow> string \<Rightarrow> bool \<Rightarrow> config_error + bool" where
  "bool_from_env env name def =
     (let val = getenv env name in
      if val = [] then Inr def
      else (case go_parse_bool val of
              Inl e \<Rightarrow> Inl (ErrParseBool name e)
            | Inr b \<Rightarrow> Inr b))"

definition int_from_env :: "environ \<Rightarrow> string \<Rightarrow> go_int \<Rightarrow> config_error + go_int" where
  "int_from_env env name def =
     (let val = getenv env name in
      if val = [] then Inr def
      else (case go_atoi val of
              Inl e \<Rightarrow> Inl (ErrParseInt name e)
            | Inr i \<Rightarrow> Inr i))"

text \<open>
  \<open>durFromEnv\<close> reads the last byte \<open>r := val[len(val)-1]\<close> and appends \<open>"s"\<close>
  when \<open>r >= '0' || r <= '9'\<close>, the condition of line 263 as written.
\<close>

definition dur_from_env :: "environ \<Rightarrow> string \<Rightarrow> duration \<Rightarrow> config_error + duration" where
  "dur_from_env env name def =
     (let val = getenv env name in
      if val = [] then Inr def
      else (let r = last val;
                val' = (if CHR ''0'' \<le> r \<or> r \<le> CHR ''9'' then val @ ''s'' else val) in
            case go_parse_duration val' of
              Inl e \<Rightarrow> Inl (ErrParseDur name e)
            | Inr d \<Rightarrow> Inr d))"

definition default_vault_addr :: string where
  "default_vault_addr = ''https://127.0.0.1:8200''"

text \<open>The configuration part of \<open>main\<close>, in the order of its reads and fatal exits.\<close>

definition load_config :: "environ \<Rightarrow> config_error + config" where
  "load_config env =
     (let addr = getenv env ''VAULT_ADDR'';
          addr = (if addr = [] then default_vault_addr else addr);
          root_id = getenv env ''ROOT_TOKEN_SECRET_ID'' in
      if root_id = [] then Inl (ErrMissing ''ROOT_TOKEN_SECRET_ID'')
      else (let keys_id = getenv env ''RECOVERY_KEYS_SECRET_ID'' in
      if keys_id = [] then Inl (ErrMissing ''RECOVERY_KEYS_SECRET_ID'')
      else (case int_from_env env ''VAULT_STORED_SHARES'' 1 of
        Inl e \<Rightarrow> Inl e
      | Inr stored \<Rightarrow> (case int_from_env env ''VAULT_RECOVERY_SHARES'' 1 of
        Inl e \<Rightarrow> Inl e
      | Inr shares \<Rightarrow> (case int_from_env env ''VAULT_RECOVERY_THRESHOLD'' 1 of
        Inl e \<Rightarrow> Inl e
      | Inr threshold \<Rightarrow> (case dur_from_env env ''CHECK_INTERVAL'' 10000000000 of
        Inl e \<Rightarrow> Inl e
      | Inr interval \<Rightarrow>
          Inr \<lparr>vault_addr = addr, root_token_secret_id = root_id,
               recovery_keys_secret_id = keys_id, vault_stored_shares = stored,
               vault_recovery_shares = shares, vault_recovery_threshold = threshold,
               check_interval = interval\<rparr>))))))"

definition config_ok :: "config \<Rightarrow> bool" where
  "config_ok cfg \<longleftrightarrow> vault_addr cfg \<noteq> [] \<and> root_token_secret_id cfg \<noteq> [] \<and> recovery_keys_secret_id cfg \<noteq> []"

text \<open>The variable an error of the start-up code names.\<close>

fun config_error_var :: "config_error \<Rightarrow> string" where
  "config_error_var (ErrMissing k) = k"
| "config_error_var (ErrParseInt k _) = k"
| "config_error_var (ErrParseDur k _) = k"
| "config_error_var (ErrParseBool k _) = k"

text \<open>An environment with a negative check interval, the input of the bound below.\<close>

definition minus_env :: environ where
  "minus_env = [(''ROOT_TOKEN_SECRET_ID'', ''rt''), (''RECOVERY_KEYS_SECRET_ID'', ''rk''),
                (''CHECK_INTERVAL'', ''-5'')]"

lemmas config_eval [go_simps] = getenv_def int_from_env_def dur_from_env_def bool_from_env_def
  load_config_def default_vault_addr_def

subsection \<open>durFromEnv\<close>

lemma char_guard_always: "CHR ''0'' \<le> r \<or> r \<le> CHR ''9''"
  by (auto simp: less_eq_char_def)

lemma dur_from_env_appends_s:
  "getenv env name = val \<Longrightarrow> val \<noteq> [] \<Longrightarrow>
   dur_from_env env name def =
     (case go_parse_duration (val @ ''s'') of
        Inl e \<Rightarrow> Inl (ErrParseDur name e)
      | Inr d \<Rightarrow> Inr d)"
  by (simp add: dur_from_env_def char_guard_always)

lemma second_unit: "(''s'', 1000000000) \<in> set duration_units"
  by (simp add: duration_units_def)

text \<open>
  A bare number of seconds in \<open>CHECK_INTERVAL\<close>, the case the suffix code of
  \<open>durFromEnv\<close> is written for, is read as that many seconds.
\<close>

theorem dur_from_env_numeral:
  assumes "getenv env name = nat_digits n" and "n * 1000000000 < 2 ^ 63"
  shows "dur_from_env env name def = Inr (word_of_nat (n * 1000000000))"
  using dur_from_env_appends_s [OF assms(1)] go_parse_duration_numeral_unit [OF second_unit assms(2)]
  by simp

lemma nat_digits_30: "nat_digits 30 = ''30''"
  by (simp add: nat_digits.simps digit_char_def)

theorem dur_from_env_numeral_witness:
  "getenv [(''CHECK_INTERVAL'', ''30'')] ''CHECK_INTERVAL'' = nat_digits 30
   \<and> (30::nat) * 1000000000 < 2 ^ 63
   \<and> dur_from_env [(''CHECK_INTERVAL'', ''30'')] ''CHECK_INTERVAL'' 10000000000 = Inr 30000000000"
  using dur_from_env_numeral [of "[(''CHECK_INTERVAL'', ''30'')]" "''CHECK_INTERVAL''" 30 10000000000]
  by (simp add: getenv_def nat_digits_30)

text \<open>
  C11: the guard \<open>r >= '0' || r <= '9'\<close> of line 263 holds for every byte, so a value
  that already carries a unit gets a second \<open>s\<close>: a number followed by any unit of
  \<open>time.ParseDuration\<close> other than \<open>m\<close> (\<open>"500ms"\<close>, \<open>"10s"\<close>, \<open>"1h"\<close>) is rejected
  as an unknown unit, and the start-up ends in \<open>log.Fatal\<close>.
\<close>

theorem dur_from_env_unit_suffix:
  assumes "getenv env name = nat_digits n @ u" and "(u, k) \<in> set duration_units"
    and "u \<noteq> ''m''" and "n \<le> 2 ^ 63"
  shows "dur_from_env env name def = Inl (ErrParseDur name (DurUnknownUnit (u @ ''s'')))"
proof -
  have "nat_digits n @ u \<noteq> []" by simp
  with dur_from_env_appends_s [OF assms(1)] unit_s_suffix [OF assms(2,3)]
    go_parse_duration_numeral_unknown [of "u @ ''s''" n] assms(4)
  show ?thesis by simp
qed

lemma nat_digits_500: "nat_digits 500 = ''500''"
  by (simp add: nat_digits.simps digit_char_def)

theorem dur_from_env_unit_suffix_witness:
  "getenv [(''CHECK_INTERVAL'', ''500ms'')] ''CHECK_INTERVAL'' = nat_digits 500 @ ''ms''
   \<and> (''ms'', 1000000) \<in> set duration_units \<and> ''ms'' \<noteq> ''m'' \<and> (500::nat) \<le> 2 ^ 63
   \<and> dur_from_env [(''CHECK_INTERVAL'', ''500ms'')] ''CHECK_INTERVAL'' 10000000000 =
       Inl (ErrParseDur ''CHECK_INTERVAL'' (DurUnknownUnit ''mss''))"
  using dur_from_env_unit_suffix [of "[(''CHECK_INTERVAL'', ''500ms'')]" "''CHECK_INTERVAL''" 500 "''ms''"
      1000000 10000000000]
  by (simp add: getenv_def nat_digits_500 millis_unit)

text \<open>
  C12: for the same reason a number of minutes (\<open>"1m"\<close>) becomes that many
  milliseconds (\<open>"1ms"\<close>): the check interval is 60000 times shorter than configured.
\<close>

theorem dur_from_env_minutes_as_millis:
  assumes "getenv env name = nat_digits n @ ''m''" and "n * 1000000 < 2 ^ 63"
  shows "dur_from_env env name def = Inr (word_of_nat (n * 1000000))"
  using dur_from_env_appends_s [OF assms(1)] go_parse_duration_numeral_unit [OF millis_unit assms(2)]
  by simp

lemma nat_digits_1: "nat_digits (Suc 0) = ''1''"
  by (simp add: nat_digits.simps digit_char_def)

theorem dur_from_env_minutes_as_millis_witness:
  "getenv [(''CHECK_INTERVAL'', ''1m'')] ''CHECK_INTERVAL'' = nat_digits 1 @ ''m''
   \<and> (1::nat) * 1000000 < 2 ^ 63
   \<and> dur_from_env [(''CHECK_INTERVAL'', ''1m'')] ''CHECK_INTERVAL'' 10000000000 = Inr 1000000"
  using dur_from_env_minutes_as_millis [of "[(''CHECK_INTERVAL'', ''1m'')]" "''CHECK_INTERVAL''" 1 10000000000]
  by (simp add: getenv_def nat_digits_1)

subsection \<open>intFromEnv\<close>

text \<open>
  C14: \<open>intFromEnv\<close> returns the default for an unset variable, the value of an optionally
  signed decimal numeral in the range of \<open>int\<close>, and a fatal error naming the variable for
  anything else.
\<close>

theorem int_from_env_refines:
  "map_sum config_error_var id (int_from_env env name def) =
     (let v = getenv env name in
      if v = [] then Inr def
      else (case decimal_int v of
              Some i \<Rightarrow> if int64_range i then Inr (word_of_int i) else Inl name
            | None \<Rightarrow> Inl name))"
  using go_atoi_refines [of "getenv env name"]
  by (cases "go_atoi (getenv env name)"; cases "decimal_int (getenv env name)")
     (auto simp: int_from_env_def Let_def)

text \<open>\<open>intFromEnv\<close> reads back every value written by \<open>strconv.Itoa\<close>.\<close>

theorem int_from_env_itoa:
  "getenv env name = go_itoa w \<Longrightarrow> int_from_env env name def = Inr w"
  by (simp add: int_from_env_def go_atoi_itoa)

theorem int_from_env_itoa_witness:
  "getenv [(''VAULT_RECOVERY_SHARES'', ''5'')] ''VAULT_RECOVERY_SHARES'' = go_itoa 5
   \<and> int_from_env [(''VAULT_RECOVERY_SHARES'', ''5'')] ''VAULT_RECOVERY_SHARES'' 1 = Inr 5"
  using int_from_env_itoa [of "[(''VAULT_RECOVERY_SHARES'', ''5'')]" "''VAULT_RECOVERY_SHARES''" 5 1]
  by (simp add: getenv_def go_itoa_def nat_digits.simps digit_char_def)

subsection \<open>load_config\<close>

lemma load_config_missing:
  "getenv env ''ROOT_TOKEN_SECRET_ID'' = [] \<or> getenv env ''RECOVERY_KEYS_SECRET_ID'' = [] \<Longrightarrow>
   \<exists>k. load_config env = Inl (ErrMissing k)"
  by (auto simp: load_config_def Let_def)

text \<open>
  With only the two secret ids set, the configuration takes the defaults of the code:
  \<open>https://127.0.0.1:8200\<close>, one stored share, one recovery share, threshold one and
  a check interval of ten seconds.
\<close>

theorem load_config_defaults:
  assumes "getenv env ''ROOT_TOKEN_SECRET_ID'' = root" and "root \<noteq> []"
    and "getenv env ''RECOVERY_KEYS_SECRET_ID'' = keys" and "keys \<noteq> []"
    and "getenv env ''VAULT_ADDR'' = []" and "getenv env ''VAULT_STORED_SHARES'' = []"
    and "getenv env ''VAULT_RECOVERY_SHARES'' = []" and "getenv env ''VAULT_RECOVERY_THRESHOLD'' = []"
    and "getenv env ''CHECK_INTERVAL'' = []"
  shows "load_config env =
    Inr \<lparr>vault_addr = ''https://127.0.0.1:8200'', root_token_secret_id = root,
         recovery_keys_secret_id = keys, vault_stored_shares = 1, vault_recovery_shares = 1,
         vault_recovery_threshold = 1, check_interval = 10000000000\<rparr>"
  using assms by (simp add: load_config_def int_from_env_def dur_from_env_def default_vault_addr_def)

theorem load_config_defaults_witness:
  "getenv [(''ROOT_TOKEN_SECRET_ID'', ''rt''), (''RECOVERY_KEYS_SECRET_ID'', ''rk'')] ''ROOT_TOKEN_SECRET_ID'' = ''rt''
   \<and> load_config [(''ROOT_TOKEN_SECRET_ID'', ''rt''), (''RECOVERY_KEYS_SECRET_ID'', ''rk'')] =
    Inr \<lparr>vault_addr = ''https://127.0.0.1:8200'', root_token_secret_id = ''rt'',
         recovery_keys_secret_id = ''rk'', vault_stored_shares = 1, vault_recovery_shares = 1,
         vault_recovery_threshold = 1, check_interval = 10000000000\<rparr>"
  using load_config_defaults [of "[(''ROOT_TOKEN_SECRET_ID'', ''rt''), (''RECOVERY_KEYS_SECRET_ID'', ''rk'')]"
      "''rt''" "''rk''"]
  by (simp add: getenv_def)

text \<open>
  With every variable set (the integers as \<open>strconv.Itoa\<close> writes them, the interval
  as a number of seconds), the configuration holds exactly the values given.
\<close>

theorem load_config_values:
  assumes "getenv env ''ROOT_TOKEN_SECRET_ID'' = root" and "root \<noteq> []"
    and "getenv env ''RECOVERY_KEYS_SECRET_ID'' = keys" and "keys \<noteq> []"
    and "getenv env ''VAULT_ADDR'' = addr" and "addr \<noteq> []"
    and "getenv env ''VAULT_STORED_SHARES'' = go_itoa stored"
    and "getenv env ''VAULT_RECOVERY_SHARES'' = go_itoa shares"
    and "getenv env ''VAULT_RECOVERY_THRESHOLD'' = go_itoa threshold"
    and "getenv env ''CHECK_INTERVAL'' = nat_digits n" and "n * 1000000000 < 2 ^ 63"
  shows "load_config env =
    Inr \<lparr>vault_addr = addr, root_token_secret_id = root, recovery_keys_secret_id = keys,
         vault_stored_shares = stored, vault_recovery_shares = shares,
         vault_recovery_threshold = threshold, check_interval = word_of_nat (n * 1000000000)\<rparr>"
proof -
  have "dur_from_env env ''CHECK_INTERVAL'' 10000000000 = Inr (word_of_nat (n * 1000000000))"
    using dur_from_env_appends_s [OF assms(10)] go_parse_duration_numeral_unit [OF second_unit assms(11)]
    by simp
  then show ?thesis
    using assms(1-9) by (simp add: load_config_def int_from_env_def go_atoi_itoa)
qed

subsection \<open>Bounds and well-formedness\<close>

text \<open>
  C31: the sign of the check interval follows the sign written in \<open>CHECK_INTERVAL\<close>:
  a value that starts with \<open>-\<close> gives a duration of at most zero, any other value a
  duration of at least zero; the 64-bit sum of \<open>ParseDuration\<close> never wraps to the
  other sign.
\<close>

theorem dur_from_env_sign:
  assumes "dur_from_env env name def = Inr d" and "getenv env name = c # cs"
  shows "(c = CHR ''-'' \<longrightarrow> sint d \<le> 0) \<and> (c \<noteq> CHR ''-'' \<longrightarrow> 0 \<le> sint d)"
proof -
  have "go_parse_duration (c # cs @ ''s'') = Inr d"
    using assms dur_from_env_appends_s [OF assms(2)] by (simp split: sum.splits)
  from go_parse_duration_sign [OF this] show ?thesis
    by (simp add: split_sign_def)
qed

theorem dur_from_env_sign_witness:
  "dur_from_env minus_env ''CHECK_INTERVAL'' 10000000000 = Inr (- 5000000000)
   \<and> getenv minus_env ''CHECK_INTERVAL'' = CHR ''-'' # ''5''
   \<and> sint (- 5000000000 :: go_int) \<le> 0"
  using dur_from_env_sign [of minus_env "''CHECK_INTERVAL''" 10000000000 "- 5000000000" "CHR ''-''" "''5''"]
  by (simp add: minus_env_def go_simps Let_def)

text \<open>
  C32: every configuration \<open>main\<close> starts the loop with is well formed: a non-empty
  address and the two secret ids of the environment, both non-empty (the invariant of the
  design's data model).
\<close>

theorem load_config_wf:
  assumes "load_config env = Inr cfg"
  shows "root_token_secret_id cfg = getenv env ''ROOT_TOKEN_SECRET_ID''
    \<and> recovery_keys_secret_id cfg = getenv env ''RECOVERY_KEYS_SECRET_ID''
    \<and> config_ok cfg"
  using assms by (auto simp: load_config_def config_ok_def default_vault_addr_def Let_def
      split: if_splits sum.splits)

theorem load_config_wf_witness:
  "load_config minus_env =
     Inr \<lparr>vault_addr = ''https://127.0.0.1:8200'', root_token_secret_id = ''rt'',
          recovery_keys_secret_id = ''rk'', vault_stored_shares = 1, vault_recovery_shares = 1,
          vault_recovery_threshold = 1, check_interval = - 5000000000\<rparr>
   \<and> config_ok \<lparr>vault_addr = ''https://127.0.0.1:8200'', root_token_secret_id = ''rt'',
          recovery_keys_secret_id = ''rk'', vault_stored_shares = 1, vault_recovery_shares = 1,
          vault_recovery_threshold = 1, check_interval = - 5000000000\<rparr>"
  using load_config_wf [of minus_env "\<lparr>vault_addr = ''https://127.0.0.1:8200'', root_token_secret_id = ''rt'',
          recovery_keys_secret_id = ''rk'', vault_stored_shares = 1, vault_recovery_shares = 1,
          vault_recovery_threshold = 1, check_interval = - 5000000000\<rparr>"]
  by (simp add: minus_env_def go_simps Let_def)

end
