(* ===== verification/JsonEnc.thy ===== *)
theory JsonEnc
  imports GoStrconv
begin

text \<open>
  The part of Go's \<open>encoding/json\<close> that \<open>initialize\<close> uses: \<open>json.Marshal\<close> of a
  struct with string or \<open>int\<close> fields (members in declaration order, named by their
  \<open>json\<close> tags) and of a \<open>map[string]string\<close> (members sorted by key, see
  \<open>recovery_payload\<close>).  It is library code, modelled from the library's algorithm:
  \<open>json_esc\<close> is \<open>encodeState.string\<close> with HTML escaping on, as \<open>json.Marshal\<close>
  does: the bytes \<open>"\<close> and \<open>\\\<close> and the control bytes are escaped (\<open>\\n\<close>,
  \<open>\\r\<close>, \<open>\\t\<close>, otherwise \<open>\\u00XX\<close>, the form of the Go releases of the
  code's time), \<open><\<close>, \<open>>\<close>, \<open>&\<close> become \<open>\\u003c\<close>, \<open>\\u003e\<close>,
  \<open>\\u0026\<close>; a valid UTF-8 sequence is copied except U+2028 and U+2029, which are
  escaped; a byte that does not start a valid sequence (\<open>utf8_len\<close>, the table of
  \<open>utf8.DecodeRuneInString\<close>) becomes \<open>\\ufffd\<close>.  An \<open>int\<close> is written by
  \<open>strconv\<close>'s decimal form, \<open>go_itoa\<close>, a \<open>[]string\<close> (\<open>JStrs\<close>, written by
  Vault's side of the interface) as the array of its quoted elements.  The reader these
  bytes are read back with is Go's own, in \<open>JsonDec\<close>.
\<close>

datatype json_val = JStr string | JInt go_int | JStrs "string list"

definition is_ascii :: "char \<Rightarrow> bool" where
  "is_ascii c \<longleftrightarrow> of_char c < (128::nat)"

definition hex_digit :: "nat \<Rightarrow> char" where
  "hex_digit d = ''0123456789abcdef'' ! d"

definition html_safe :: "char \<Rightarrow> bool" where
  "html_safe c \<longleftrightarrow> CHR 0x20 \<le> c \<and> c \<noteq> CHR 0x22 \<and> c \<noteq> CHR 0x5C \<and> c \<noteq> CHR 0x3C
     \<and> c \<noteq> CHR 0x3E \<and> c \<noteq> CHR 0x26"

definition esc_ascii :: "char \<Rightarrow> string" where
  "esc_ascii c =
     (if html_safe c then [c]
      else if c = CHR 0x5C \<or> c = CHR 0x22 then [CHR 0x5C, c]
      else if c = CHR 0x0A then [CHR 0x5C, CHR ''n'']
      else if c = CHR 0x0D then [CHR 0x5C, CHR ''r'']
      else if c = CHR 0x09 then [CHR 0x5C, CHR ''t'']
      else [CHR 0x5C, CHR ''u'', CHR ''0'', CHR ''0'',
            hex_digit (of_char c div 16), hex_digit (of_char c mod 16)])"

text \<open>
  \<open>utf8_len s\<close> is the length of the UTF-8 sequence that starts \<open>s\<close>, and 0 when
  \<open>utf8.DecodeRuneInString\<close> would return \<open>RuneError\<close> with width 1: the table
  \<open>first\<close>/\<open>acceptRanges\<close> of package \<open>unicode/utf8\<close>, with each range of
  bytes a test \<open>byte_in lo hi\<close>.
\<close>

definition byte_in :: "nat \<Rightarrow> nat \<Rightarrow> char \<Rightarrow> bool" where
  "byte_in lo hi c \<longleftrightarrow> lo \<le> of_char c \<and> of_char c \<le> hi"

definition utf8_len :: "string \<Rightarrow> nat" where
  "utf8_len s =
     (case s of
        [] \<Rightarrow> 0
      | c # r \<Rightarrow>
          (let cont = (\<lambda>i. i < length r \<and> byte_in 0x80 0xBF (r ! i));
               first = (\<lambda>lo hi. r \<noteq> [] \<and> byte_in lo hi (r ! 0)) in
           if byte_in 0xC2 0xDF c then (if cont 0 then 2 else 0)
           else if byte_in 0xE0 0xE0 c then (if first 0xA0 0xBF \<and> cont 1 then 3 else 0)
           else if byte_in 0xE1 0xEC c \<or> byte_in 0xEE 0xEF c then (if cont 0 \<and> cont 1 then 3 else 0)
           else if byte_in 0xED 0xED c then (if first 0x80 0x9F \<and> cont 1 then 3 else 0)
           else if byte_in 0xF0 0xF0 c then (if first 0x90 0xBF \<and> cont 1 \<and> cont 2 then 4 else 0)
           else if byte_in 0xF1 0xF3 c then (if cont 0 \<and> cont 1 \<and> cont 2 then 4 else 0)
           else if byte_in 0xF4 0xF4 c then (if first 0x80 0x8F \<and> cont 1 \<and> cont 2 then 4 else 0)
           else 0))"

definition line_sep :: string where "line_sep = [CHR 0xE2, CHR 0x80, CHR 0xA8]"
definition para_sep :: string where "para_sep = [CHR 0xE2, CHR 0x80, CHR 0xA9]"

function json_esc :: "string \<Rightarrow> string" where
  "json_esc [] = []"
| "json_esc (c # cs) =
     (if is_ascii c then esc_ascii c @ json_esc cs
      else (let n = utf8_len (c # cs) in
        if n = 0 then CHR 0x5C # ''ufffd'' @ json_esc cs
        else (let r = take n (c # cs) in
          (if r = line_sep then CHR 0x5C # ''u2028''
           else if r = para_sep then CHR 0x5C # ''u2029'' else r)
          @ json_esc (drop n (c # cs)))))"
  by pat_completeness auto
termination
  by (relation "measure length") auto

function utf8_valid :: "string \<Rightarrow> bool" where
  "utf8_valid [] = True"
| "utf8_valid (c # cs) =
     (if is_ascii c then utf8_valid cs
      else (let n = utf8_len (c # cs) in if n = 0 then False else utf8_valid (drop n (c # cs))))"
  by pat_completeness auto
termination
  by (relation "measure length") auto

definition json_quote :: "string \<Rightarrow> string" where
  "json_quote s = CHR 0x22 # json_esc s @ [CHR 0x22]"

fun json_elems :: "string list \<Rightarrow> string" where
  "json_elems [] = []"
| "json_elems [x] = json_quote x"
| "json_elems (x # xs) = json_quote x @ CHR '','' # json_elems xs"

fun json_value :: "json_val \<Rightarrow> string" where
  "json_value (JStr s) = json_quote s"
| "json_value (JInt n) = go_itoa n"
| "json_value (JStrs xs) = CHR ''['' # json_elems xs @ '']''"

fun json_members :: "(string \<times> json_val) list \<Rightarrow> string" where
  "json_members [] = []"
| "json_members [(k, v)] = json_quote k @ CHR '':'' # json_value v"
| "json_members ((k, v) # ms) = json_quote k @ CHR '':'' # json_value v @ CHR '','' # json_members ms"

definition json_object :: "(string \<times> json_val) list \<Rightarrow> string" where
  "json_object ms = CHR ''{'' # json_members ms @ ''}''"

definition json_str_object :: "(string \<times> string) list \<Rightarrow> string" where
  "json_str_object kvs = json_object (map (\<lambda>(k, v). (k, JStr v)) kvs)"

subsection \<open>Lemmas\<close>

lemma utf8_len_cases:
  "utf8_len s = 0 \<or> utf8_len s = 2 \<or> utf8_len s = 3 \<or> utf8_len s = 4"
  by (simp add: utf8_len_def Let_def split: list.split)

lemma utf8_len_conts:
  "utf8_len (c # r) = 2 \<Longrightarrow> 0 < length r \<and> 128 \<le> (of_char (r ! 0) :: nat)"
  "utf8_len (c # r) = 3 \<Longrightarrow> 1 < length r \<and> 128 \<le> (of_char (r ! 0) :: nat) \<and> 128 \<le> (of_char (r ! 1) :: nat)"
  "utf8_len (c # r) = 4 \<Longrightarrow> 2 < length r \<and> 128 \<le> (of_char (r ! 0) :: nat) \<and> 128 \<le> (of_char (r ! 1) :: nat)
     \<and> 128 \<le> (of_char (r ! 2) :: nat)"
  by (simp_all add: utf8_len_def Let_def split: if_split_asm; simp add: byte_in_def)+


lemma utf8_len_first: "utf8_len (c # r) \<noteq> 0 \<Longrightarrow> 0xC2 \<le> (of_char c :: nat)"
  by (auto simp: utf8_len_def Let_def byte_in_def split: if_splits)

lemma utf8_len_bytes:
  assumes "utf8_len s \<noteq> 0" and "i < utf8_len s"
  shows "i < length s \<and> 128 \<le> (of_char (s ! i) :: nat)"
proof (cases s)
  case Nil
  with assms show ?thesis by (simp add: utf8_len_def)
next
  case (Cons c r)
  note f = utf8_len_first [of c r]
  consider "utf8_len s = 2" | "utf8_len s = 3" | "utf8_len s = 4"
    using utf8_len_cases [of s] assms(1) by auto
  then show ?thesis
  proof cases
    case 1
    with assms(2) have "i = 0 \<or> i = 1" by linarith
    with 1 Cons f utf8_len_conts(1) [of c r] show ?thesis by auto
  next
    case 2
    with assms(2) have "i = 0 \<or> i = 1 \<or> i = 2" by linarith
    with 2 Cons f utf8_len_conts(2) [of c r] show ?thesis by auto
  next
    case 3
    with assms(2) have "i = 0 \<or> i = 1 \<or> i = 2 \<or> i = 3" by linarith
    with 3 Cons f utf8_len_conts(3) [of c r] show ?thesis by (auto simp: eval_nat_numeral)
  qed
qed
lemma utf8_len_length: "utf8_len s \<le> length s"
proof (cases "utf8_len s = 0")
  case False
  then have "utf8_len s - 1 < length s" using utf8_len_bytes [of s "utf8_len s - 1"] by simp
  then show ?thesis by linarith
qed simp

lemma utf8_len_prefix_cases:
  "utf8_len (c # x # r) = 2 \<Longrightarrow> utf8_len (c # x # t) = 2"
  "utf8_len (c # x # y # r) = 3 \<Longrightarrow> utf8_len (c # x # y # t) = 3"
  "utf8_len (c # x # y # z # r) = 4 \<Longrightarrow> utf8_len (c # x # y # z # t) = 4"
  by (simp_all add: utf8_len_def Let_def split: if_split_asm)

text \<open>The width of a sequence is decided by its own bytes, whatever follows them.\<close>

lemma utf8_len_prefix:
  assumes "utf8_len s = n" "n \<noteq> 0"
  shows "utf8_len (take n s @ t) = n"
proof -
  have l: "n \<le> length s" using utf8_len_length [of s] assms(1) by simp
  consider "n = 2" | "n = 3" | "n = 4" using utf8_len_cases [of s] assms by auto
  then show ?thesis
  proof cases
    case 1
    with l obtain c x r where "s = c # x # r" by (metis Suc_le_length_iff numeral_2_eq_2)
    with 1 assms show ?thesis using utf8_len_prefix_cases(1) by simp
  next
    case 2
    with l obtain c x y r where "s = c # x # y # r" by (metis Suc_le_length_iff numeral_3_eq_3)
    with 2 assms show ?thesis using utf8_len_prefix_cases(2) by (simp add: numeral_3_eq_3)
  next
    case 3
    with l obtain c x y z r where "s = c # x # y # z # r"
      by (metis Suc_le_length_iff numeral_3_eq_3 numeral_Bit0 numeral_2_eq_2 add_2_eq_Suc)
    with 3 assms show ?thesis using utf8_len_prefix_cases(3) by (simp add: eval_nat_numeral)
  qed
qed

lemma utf8_rune:
  assumes "utf8_len s \<noteq> 0"
  shows "list_all (\<lambda>c. 128 \<le> (of_char c :: nat)) (take (utf8_len s) s)"
  using utf8_len_bytes [OF assms] by (simp add: list_all_length)

lemma ascii_utf8_valid: "list_all is_ascii s \<Longrightarrow> utf8_valid s"
  by (induction s) simp_all

lemma json_members_not_Nil: "ms \<noteq> [] \<Longrightarrow> json_members ms \<noteq> []"
  by (induction ms rule: json_members.induct) (simp_all add: json_quote_def)

end
