(* ===== verification/JsonDec.thy ===== *)
theory JsonDec
  imports JsonEnc
begin

text \<open>
  Go's \<open>encoding/json\<close> reader, the part \<open>json.Unmarshal\<close> runs before it assigns
  to the destination: the scanner that checks the input (\<open>checkValid\<close>), the parse of
  a value, and the decoding of a string literal (\<open>unquoteBytes\<close>).
\<close>

subsection \<open>String literals\<close>

definition hex_val :: "char \<Rightarrow> nat option" where
  "hex_val c =
     (let b = of_char c :: nat in
      if 48 \<le> b \<and> b \<le> 57 then Some (b - 48)
      else if 97 \<le> b \<and> b \<le> 102 then Some (b - 87)
      else if 65 \<le> b \<and> b \<le> 70 then Some (b - 55) else None)"

definition hex4 :: "char \<Rightarrow> char \<Rightarrow> char \<Rightarrow> char \<Rightarrow> nat option" where
  "hex4 a b c d =
     (case (hex_val a, hex_val b, hex_val c, hex_val d) of
        (Some w, Some x, Some y, Some z) \<Rightarrow> Some (((w * 16 + x) * 16 + y) * 16 + z)
      | _ \<Rightarrow> None)"

text \<open>\<open>getu4\<close>: the code unit of a \<open>\\uXXXX\<close> escape at the start of the input.\<close>

definition getu4 :: "string \<Rightarrow> nat option" where
  "getu4 s =
     (if 6 \<le> length s \<and> s ! 0 = CHR 0x5C \<and> s ! 1 = CHR ''u''
      then hex4 (s ! 2) (s ! 3) (s ! 4) (s ! 5) else None)"

text \<open>\<open>utf8.EncodeRune\<close> for the code points an escape can denote (at most U+10FFFF).\<close>

definition utf8_encode :: "nat \<Rightarrow> string" where
  "utf8_encode u =
     (if u < 0x80 then [char_of u]
      else if u < 0x800 then [char_of (0xC0 + u div 64), char_of (0x80 + u mod 64)]
      else if u < 0x10000 then
        [char_of (0xE0 + u div 4096), char_of (0x80 + u div 64 mod 64), char_of (0x80 + u mod 64)]
      else [char_of (0xF0 + u div 262144), char_of (0x80 + u div 4096 mod 64),
            char_of (0x80 + u div 64 mod 64), char_of (0x80 + u mod 64)])"

definition rune_error :: string where
  "rune_error = [CHR 0xEF, CHR 0xBF, CHR 0xBD]"

definition is_surrogate :: "nat \<Rightarrow> bool" where
  "is_surrogate r \<longleftrightarrow> 0xD800 \<le> r \<and> r < 0xE000"

text \<open>\<open>utf16.DecodeRune\<close>; \<open>None\<close> stands for its \<open>unicode.ReplacementChar\<close>.\<close>

definition utf16_decode :: "nat \<Rightarrow> nat \<Rightarrow> nat option" where
  "utf16_decode r1 r2 =
     (if 0xD800 \<le> r1 \<and> r1 < 0xDC00 \<and> 0xDC00 \<le> r2 \<and> r2 < 0xE000
      then Some (0x10000 + (r1 - 0xD800) * 1024 + (r2 - 0xDC00)) else None)"

definition simple_escape :: "char \<Rightarrow> char option" where
  "simple_escape e =
     (if e = CHR 0x22 \<or> e = CHR 0x5C \<or> e = CHR ''/'' then Some e
      else if e = CHR ''b'' then Some (CHR 0x08)
      else if e = CHR ''f'' then Some (CHR 0x0C)
      else if e = CHR ''n'' then Some (CHR 0x0A)
      else if e = CHR ''r'' then Some (CHR 0x0D)
      else if e = CHR ''t'' then Some (CHR 0x09) else None)"

text \<open>
  An escape sequence, the input starting at its backslash: the bytes it stands for and
  the input after it.  A surrogate code unit is combined with a following \<open>\\uXXXX\<close>
  into one code point when the two form a UTF-16 pair, and is U+FFFD otherwise (the
  second escape is then read on its own).  \<open>None\<close> is the scanner's syntax error.
\<close>

definition unq_escape :: "string \<Rightarrow> (string \<times> string) option" where
  "unq_escape s =
     (case s of
        _ # e # t \<Rightarrow>
          if e = CHR ''u'' then
            (case getu4 s of
               None \<Rightarrow> None
             | Some rr \<Rightarrow>
                 if is_surrogate rr then
                   (case Option.bind (getu4 (drop 6 s)) (utf16_decode rr) of
                      Some d \<Rightarrow> Some (utf8_encode d, drop 12 s)
                    | None \<Rightarrow> Some (rune_error, drop 6 s))
                 else Some (utf8_encode rr, drop 6 s))
          else (case simple_escape e of None \<Rightarrow> None | Some b \<Rightarrow> Some ([b], t))
      | _ \<Rightarrow> None)"

lemma unq_escape_length: "unq_escape s = Some (bs, t) \<Longrightarrow> length t < length s"
  by (auto simp: unq_escape_def getu4_def split: list.splits if_splits option.splits)

text \<open>
  A string literal after its opening quote: its decoded bytes and the input after the
  closing quote.  A byte below 0x20 is a syntax error; a byte that does not start a valid
  UTF-8 sequence is replaced by U+FFFD, as \<open>unquoteBytes\<close> coerces to well-formed UTF-8.
\<close>

function go_unq :: "string \<Rightarrow> (string \<times> string) option" where
  "go_unq [] = None"
| "go_unq (c # cs) =
     (if c = CHR 0x22 then Some ([], cs)
      else if c = CHR 0x5C then
        (case unq_escape (c # cs) of
           None \<Rightarrow> None
         | Some (bs, t) \<Rightarrow> map_option (apfst (append bs)) (go_unq t))
      else if of_char c < (32::nat) then None
      else if is_ascii c then map_option (apfst (Cons c)) (go_unq cs)
      else (let n = utf8_len (c # cs) in
            if n = 0 then map_option (apfst (append rune_error)) (go_unq cs)
            else map_option (apfst (append (take n (c # cs)))) (go_unq (drop n (c # cs)))))"
  by pat_completeness auto
termination
  by (relation "measure length") (auto dest: unq_escape_length)

subsection \<open>Lemmas on string literals\<close>

lemma map_option_apfst_Some:
  "map_option (apfst f) x = Some (v, r) \<longleftrightarrow> (\<exists>v'. x = Some (v', r) \<and> v = f v')"
  by (cases x) auto

lemma go_unq_length: "go_unq s = Some (v, r) \<Longrightarrow> length r < length s"
proof (induction s arbitrary: v r rule: go_unq.induct)
  case (2 c cs)
  then show ?case
    by (fastforce simp: map_option_apfst_Some Let_def split: if_splits option.splits
        dest: unq_escape_length)
qed simp

lemma hex_digit_val: "d < 16 \<Longrightarrow> hex_val (hex_digit d) = Some d"
proof -
  have "list_all (\<lambda>d. hex_val (hex_digit d) = Some d) [0..<16]"
    by (simp add: upt_rec hex_digit_def hex_val_def)
  then show "d < 16 \<Longrightarrow> ?thesis" by (simp add: list_all_iff)
qed

lemma ascii_unq:
  assumes "is_ascii c"
  shows "go_unq (esc_ascii c @ t) = map_option (apfst (Cons c)) (go_unq t)"
proof -
  let ?b = "of_char c :: nat"
  have b: "?b < 128" using assms by (simp add: is_ascii_def)
  show ?thesis
  proof (cases "html_safe c")
    case True
    then have "c \<noteq> CHR 0x22" "c \<noteq> CHR 0x5C" "\<not> ?b < 32"
      by (auto simp: html_safe_def less_eq_char_def)
    with True assms show ?thesis by (simp add: esc_ascii_def)
  next
    case False
    have d: "?b div 16 < 16" "?b mod 16 < 16" using b by simp_all
    have z: "hex_val (CHR ''0'') = Some 0" by (simp add: hex_val_def)
    have hx: "hex4 (CHR ''0'') (CHR ''0'') (hex_digit (?b div 16)) (hex_digit (?b mod 16)) = Some ?b"
      by (simp add: hex4_def hex_digit_val [OF d(1)] hex_digit_val [OF d(2)] z)
    have enc: "utf8_encode ?b = [c]" using b by (simp add: utf8_encode_def)
    have ns: "\<not> is_surrogate ?b" using b by (simp add: is_surrogate_def)
    show ?thesis
      using False hx enc ns
      by (cases "go_unq t")
         (auto simp: esc_ascii_def simple_escape_def unq_escape_def getu4_def)
  qed
qed

lemma rune_unq:
  assumes "utf8_len s = n" "n \<noteq> 0"
  shows "go_unq (take n s @ t) = map_option (apfst (append (take n s))) (go_unq t)"
proof -
  have l: "n \<le> length s" using utf8_len_length [of s] assms(1) by simp
  obtain c r where cr: "take n s = c # r"
    using assms l by (cases "take n s") auto
  have len: "length (c # r) = n" using cr l by (metis length_take min.absorb2)
  have u: "utf8_len (c # r @ t) = n" using utf8_len_prefix [OF assms, of t] cr by simp
  have "0xC2 \<le> (of_char c :: nat)"
    using utf8_len_first [of c "r @ t"] u assms(2) by simp
  then have c: "c \<noteq> CHR 0x22" "c \<noteq> CHR 0x5C" "\<not> (of_char c :: nat) < 32" "\<not> is_ascii c"
    by (auto simp: is_ascii_def)
  have td: "take n (c # r @ t) = c # r" "drop n (c # r @ t) = t"
    using len [symmetric] by simp_all
  have "go_unq (c # r @ t) = map_option (apfst (append (take n (c # r @ t)))) (go_unq (drop n (c # r @ t)))"
    using c u assms(2) by (simp add: Let_def)
  with td cr show ?thesis by simp
qed

lemma sep_unq:
  "go_unq (CHR 0x5C # ''u2028'' @ t) = map_option (apfst (append line_sep)) (go_unq t)"
  "go_unq (CHR 0x5C # ''u2029'' @ t) = map_option (apfst (append para_sep)) (go_unq t)"
  by (simp_all add: unq_escape_def getu4_def hex4_def hex_val_def is_surrogate_def
      utf8_encode_def line_sep_def para_sep_def char_of_def bit_simps)

lemma json_esc_unq:
  "utf8_valid s \<Longrightarrow> go_unq (json_esc s @ CHR 0x22 # rest) = Some (s, rest)"
proof (induction s rule: json_esc.induct)
  case 1
  then show ?case by simp
next
  case (2 c cs)
  show ?case
  proof (cases "is_ascii c")
    case True
    with "2.prems" have "utf8_valid cs" by simp
    with True "2.IH"(1) show ?thesis by (simp add: ascii_unq)
  next
    case False
    let ?n = "utf8_len (c # cs)"
    let ?r = "take ?n (c # cs)"
    from False "2.prems" have n: "?n \<noteq> 0" and v: "utf8_valid (drop ?n (c # cs))"
      by (simp_all add: Let_def split: if_splits)
    have ih: "go_unq (json_esc (drop ?n (c # cs)) @ CHR 0x22 # rest) = Some (drop ?n (c # cs), rest)"
      using "2.IH"(3) [OF False refl n refl] v by simp
    have r: "go_unq ((if ?r = line_sep then CHR 0x5C # ''u2028''
                      else if ?r = para_sep then CHR 0x5C # ''u2029'' else ?r) @ t)
             = map_option (apfst (append ?r)) (go_unq t)" for t
      using rune_unq [OF refl n] sep_unq by auto
    show ?thesis
      using False n r [of "json_esc (drop ?n (c # cs)) @ CHR 0x22 # rest"] ih
      by (simp add: Let_def)
  qed
qed

lemma json_esc_invalid_lossy:
  "go_unq (json_esc [CHR 0xFF] @ [CHR 0x22]) = Some (rune_error, [])"
  "go_unq [CHR 0xFF, CHR 0x22] = Some (rune_error, [])"
  by (simp_all add: is_ascii_def utf8_len_def byte_in_def unq_escape_def getu4_def hex4_def
      hex_val_def is_surrogate_def utf8_encode_def rune_error_def char_of_def bit_simps)


subsection \<open>Values\<close>

text \<open>
  The errors \<open>json.Unmarshal\<close> returns into a struct: a \<open>SyntaxError\<close> of the
  scanner, or the first \<open>UnmarshalTypeError\<close> of a value that does not fit its field.
\<close>

datatype json_error = JSyntaxError | JTypeError

datatype jvalue =
    JVNull
  | JVBool bool
  | JVNum string
  | JVStr string
  | JVArr "jvalue list"
  | JVObj "(string \<times> jvalue) list"

text \<open>
  The outcome of a parse: a value and the input after it, a syntax error, or, for the
  fuel bound of the model, exhaustion of the fuel (shown never to happen at the fuel
  \<open>go_json_value\<close> gives).
\<close>

datatype jres = JOk jvalue string | JErr | JFuel

definition is_ws :: "char \<Rightarrow> bool" where
  "is_ws c \<longleftrightarrow> c = CHR '' '' \<or> c = CHR 0x09 \<or> c = CHR 0x0A \<or> c = CHR 0x0D"

definition skip_ws :: "string \<Rightarrow> string" where
  "skip_ws s = dropWhile is_ws s"

text \<open>
  A number literal, by the states of the scanner: an optional minus, \<open>0\<close> or a
  non-zero digit and digits, an optional fraction, an optional exponent.  The result is
  the input after the literal.
\<close>

definition digits1 :: "string \<Rightarrow> string option" where
  "digits1 s = (case s of d # t \<Rightarrow> if is_digit d then Some (dropWhile is_digit t) else None | [] \<Rightarrow> None)"

definition num_int :: "string \<Rightarrow> string option" where
  "num_int s = (case s of d # t \<Rightarrow> if d = CHR ''0'' then Some t else digits1 s | [] \<Rightarrow> None)"

definition num_frac :: "string \<Rightarrow> string option" where
  "num_frac s = (case s of c # t \<Rightarrow> if c = CHR ''.'' then digits1 t else Some s | [] \<Rightarrow> Some s)"

definition num_exp :: "string \<Rightarrow> string option" where
  "num_exp s =
     (case s of
        c # t \<Rightarrow>
          if c = CHR ''e'' \<or> c = CHR ''E'' then
            digits1 (case t of d # u \<Rightarrow> if d = CHR ''+'' \<or> d = CHR ''-'' then u else t | [] \<Rightarrow> t)
          else Some s
      | [] \<Rightarrow> Some s)"

definition scan_number :: "string \<Rightarrow> string option" where
  "scan_number s =
     Option.bind (num_int (case s of c # t \<Rightarrow> if c = CHR ''-'' then t else s | [] \<Rightarrow> s))
       (\<lambda>r. Option.bind (num_frac r) num_exp)"

text \<open>
  A value, the elements of an array after its \<open>[\<close>, the members of an object after its
  \<open>{\<close>; each call spends one unit of fuel.
\<close>

fun jval :: "nat \<Rightarrow> string \<Rightarrow> jres"
and jarr :: "nat \<Rightarrow> string \<Rightarrow> jvalue list \<Rightarrow> jres"
and jobj :: "nat \<Rightarrow> string \<Rightarrow> (string \<times> jvalue) list \<Rightarrow> jres" where
  "jval 0 s = JFuel"
| "jval (Suc n) s =
     (case skip_ws s of
        [] \<Rightarrow> JErr
      | c # cs \<Rightarrow>
          if c = CHR ''{'' then
            (case skip_ws cs of
               [] \<Rightarrow> JErr
             | d # r \<Rightarrow> if d = CHR ''}'' then JOk (JVObj []) r else jobj n cs [])
          else if c = CHR ''['' then
            (case skip_ws cs of
               [] \<Rightarrow> JErr
             | d # r \<Rightarrow> if d = CHR '']'' then JOk (JVArr []) r else jarr n cs [])
          else if c = CHR 0x22 then
            (case go_unq cs of None \<Rightarrow> JErr | Some (v, r) \<Rightarrow> JOk (JVStr v) r)
          else if c = CHR ''t'' then
            (if take 3 cs = ''rue'' then JOk (JVBool True) (drop 3 cs) else JErr)
          else if c = CHR ''f'' then
            (if take 4 cs = ''alse'' then JOk (JVBool False) (drop 4 cs) else JErr)
          else if c = CHR ''n'' then
            (if take 3 cs = ''ull'' then JOk JVNull (drop 3 cs) else JErr)
          else
            (case scan_number (c # cs) of
               None \<Rightarrow> JErr
             | Some r \<Rightarrow> JOk (JVNum (take (length (c # cs) - length r) (c # cs))) r))"
| "jarr 0 s acc = JFuel"
| "jarr (Suc n) s acc =
     (case jval n s of
        JOk v r \<Rightarrow>
          (case skip_ws r of
             [] \<Rightarrow> JErr
           | d # t \<Rightarrow>
               if d = CHR '','' then jarr n t (acc @ [v])
               else if d = CHR '']'' then JOk (JVArr (acc @ [v])) t else JErr)
      | JErr \<Rightarrow> JErr
      | JFuel \<Rightarrow> JFuel)"
| "jobj 0 s acc = JFuel"
| "jobj (Suc n) s acc =
     (case skip_ws s of
        [] \<Rightarrow> JErr
      | d # cs \<Rightarrow>
          if d \<noteq> CHR 0x22 then JErr
          else (case go_unq cs of
                  None \<Rightarrow> JErr
                | Some (k, r) \<Rightarrow>
                    (case skip_ws r of
                       [] \<Rightarrow> JErr
                     | e # r1 \<Rightarrow>
                         if e \<noteq> CHR '':'' then JErr
                         else (case jval n r1 of
                                 JOk v r2 \<Rightarrow>
                                   (case skip_ws r2 of
                                      [] \<Rightarrow> JErr
                                    | f # t \<Rightarrow>
                                        if f = CHR '','' then jobj n t (acc @ [(k, v)])
                                        else if f = CHR ''}'' then JOk (JVObj (acc @ [(k, v)])) t
                                        else JErr)
                               | JErr \<Rightarrow> JErr
                               | JFuel \<Rightarrow> JFuel))))"

text \<open>
  \<open>json.Unmarshal\<close>'s reading of its input: one value, then only white space
  (\<open>checkValid\<close>); \<open>None\<close> is its \<open>SyntaxError\<close>.
\<close>

definition go_json_value :: "string \<Rightarrow> jvalue option" where
  "go_json_value s =
     (case jval (2 * length s + 2) s of
        JOk v r \<Rightarrow> if skip_ws r = [] then Some v else None
      | _ \<Rightarrow> None)"

subsection \<open>The parse consumes its input and never runs out of fuel\<close>

lemma skip_ws_length: "length (skip_ws s) \<le> length s"
  by (simp add: skip_ws_def length_dropWhile_le)

lemma skip_ws_Cons_length: "skip_ws s = c # cs \<Longrightarrow> length cs < length s"
  using skip_ws_length [of s] by simp

lemma digits1_length: "digits1 s = Some r \<Longrightarrow> length r < length s"
  by (auto simp: digits1_def split: list.splits if_splits
      intro: le_less_trans [OF length_dropWhile_le])

lemma num_int_length: "num_int s = Some r \<Longrightarrow> length r < length s"
  by (auto simp: num_int_def split: list.splits if_splits dest: digits1_length)

lemma num_frac_length: "num_frac s = Some r \<Longrightarrow> length r \<le> length s"
  by (auto simp: num_frac_def split: list.splits if_splits dest!: digits1_length)

lemma num_exp_length: "num_exp s = Some r \<Longrightarrow> length r \<le> length s"
  by (auto simp: num_exp_def split: list.splits if_splits dest!: digits1_length)

lemma scan_number_length: "scan_number s = Some r \<Longrightarrow> length r < length s"
proof -
  assume h: "scan_number s = Some r"
  let ?x = "case s of c # t \<Rightarrow> if c = CHR ''-'' then t else s | [] \<Rightarrow> s"
  have x: "length ?x \<le> length s" by (simp split: list.split)
  from h obtain r1 r2 where "num_int ?x = Some r1" "num_frac r1 = Some r2" "num_exp r2 = Some r"
    by (auto simp: scan_number_def bind_eq_Some_conv)
  with x show ?thesis by (fastforce dest!: num_int_length num_frac_length num_exp_length)
qed

lemma jval_Suc_length:
  assumes ho: "\<forall>s ms v r. jobj n s ms = JOk v r \<longrightarrow> length r < length s"
    and ha: "\<forall>s acc v r. jarr n s acc = JOk v r \<longrightarrow> length r < length s"
    and h: "jval (Suc n) s = JOk v r"
  shows "length r < length s"
proof -
  obtain c cs where sk: "skip_ws s = c # cs"
    using h by (cases "skip_ws s") auto
  have cs: "length cs < length s" using skip_ws_Cons_length [OF sk] .
  have "length r \<le> length cs"
    using h sk
    by (auto split: list.splits if_splits option.splits
        dest!: skip_ws_Cons_length go_unq_length scan_number_length ho [rule_format] ha [rule_format])
  then show ?thesis using cs by simp
qed

lemma jarr_Suc_length:
  assumes hv: "\<forall>s v r. jval n s = JOk v r \<longrightarrow> length r < length s"
    and ha: "\<forall>s acc v r. jarr n s acc = JOk v r \<longrightarrow> length r < length s"
    and h: "jarr (Suc n) s acc = JOk v r"
  shows "length r < length s"
proof -
  obtain v1 r1 where j: "jval n s = JOk v1 r1"
    using h by (cases "jval n s") auto
  have r1: "length r1 < length s" using hv j by blast
  have "length r < length r1"
    using h j
    by (auto split: list.splits if_splits dest!: skip_ws_Cons_length ha [rule_format])
  then show ?thesis using r1 by simp
qed

lemma jobj_Suc_length:
  assumes hv: "\<forall>s v r. jval n s = JOk v r \<longrightarrow> length r < length s"
    and ho: "\<forall>s ms v r. jobj n s ms = JOk v r \<longrightarrow> length r < length s"
    and h: "jobj (Suc n) s ms = JOk v r"
  shows "length r < length s"
proof -
  obtain cs k r0 e r1 where sk: "skip_ws s = CHR 0x22 # cs" and k: "go_unq cs = Some (k, r0)"
      and e: "skip_ws r0 = CHR '':'' # r1"
    using h by (auto split: list.splits if_splits option.splits)
  have l1: "length r1 < length s"
    using skip_ws_Cons_length [OF sk] go_unq_length [OF k] skip_ws_Cons_length [OF e] by simp
  obtain v2 r2 where j: "jval n r1 = JOk v2 r2"
    using h sk k e by (cases "jval n r1") auto
  have l2: "length r2 < length r1" using hv j by blast
  have "length r < length r2"
    using h sk k e j
    by (auto split: list.splits if_splits dest!: skip_ws_Cons_length ho [rule_format])
  then show ?thesis using l1 l2 by simp
qed

lemma jres_length:
  "(\<forall>s v r. jval n s = JOk v r \<longrightarrow> length r < length s)
   \<and> (\<forall>s acc v r. jarr n s acc = JOk v r \<longrightarrow> length r < length s)
   \<and> (\<forall>s ms v r. jobj n s ms = JOk v r \<longrightarrow> length r < length s)"
proof (induction n)
  case (Suc n)
  then have IHv: "\<forall>s v r. jval n s = JOk v r \<longrightarrow> length r < length s"
    and IHa: "\<forall>s acc v r. jarr n s acc = JOk v r \<longrightarrow> length r < length s"
    and IHo: "\<forall>s ms v r. jobj n s ms = JOk v r \<longrightarrow> length r < length s"
    by blast+
  show ?case
  proof (intro conjI allI impI)
    fix s v r assume "jval (Suc n) s = JOk v r"
    then show "length r < length s" by (rule jval_Suc_length [OF IHo IHa])
  next
    fix s acc v r assume "jarr (Suc n) s acc = JOk v r"
    then show "length r < length s" by (rule jarr_Suc_length [OF IHv IHa])
  next
    fix s ms v r assume "jobj (Suc n) s ms = JOk v r"
    then show "length r < length s" by (rule jobj_Suc_length [OF IHv IHo])
  qed
qed simp

lemmas jval_length = jres_length [THEN conjunct1, rule_format]
lemmas jarr_length = jres_length [THEN conjunct2, THEN conjunct1, rule_format]
lemmas jobj_length = jres_length [THEN conjunct2, THEN conjunct2, rule_format]

lemma jval_Suc_fuel:
  assumes ho: "\<forall>s ms. 2 * length s + 2 < n \<longrightarrow> jobj n s ms \<noteq> JFuel"
    and ha: "\<forall>s acc. 2 * length s + 2 < n \<longrightarrow> jarr n s acc \<noteq> JFuel"
    and l: "2 * length s < n"
  shows "jval (Suc n) s \<noteq> JFuel"
proof (cases "skip_ws s")
  case (Cons c cs)
  have "2 * length cs + 2 < n" using skip_ws_Cons_length [OF Cons] l by simp
  with ho ha have "jobj n cs [] \<noteq> JFuel" "jarr n cs [] \<noteq> JFuel" by blast+
  with Cons show ?thesis by (auto split: list.splits option.splits)
qed simp

lemma jarr_Suc_fuel:
  assumes hv: "\<forall>s. 2 * length s + 1 < n \<longrightarrow> jval n s \<noteq> JFuel"
    and ha: "\<forall>s acc. 2 * length s + 2 < n \<longrightarrow> jarr n s acc \<noteq> JFuel"
    and l: "2 * length s + 1 < n"
  shows "jarr (Suc n) s acc \<noteq> JFuel"
proof (cases "jval n s")
  case (JOk v r)
  have r: "length r < length s" using jval_length [OF JOk] .
  show ?thesis
  proof (cases "skip_ws r")
    case (Cons d t)
    have "2 * length t + 2 < n" using skip_ws_Cons_length [OF Cons] r l by simp
    with ha have "jarr n t (acc @ [v]) \<noteq> JFuel" by blast
    with JOk Cons show ?thesis by simp
  qed (simp add: JOk)
next
  case JFuel
  with hv l show ?thesis by blast
qed simp

lemma jobj_Suc_fuel:
  assumes hv: "\<forall>s. 2 * length s + 1 < n \<longrightarrow> jval n s \<noteq> JFuel"
    and ho: "\<forall>s ms. 2 * length s + 2 < n \<longrightarrow> jobj n s ms \<noteq> JFuel"
    and l: "2 * length s + 1 < n"
  shows "jobj (Suc n) s ms \<noteq> JFuel"
proof (cases "\<exists>cs k r0 r1. skip_ws s = CHR 0x22 # cs \<and> go_unq cs = Some (k, r0)
                          \<and> skip_ws r0 = CHR '':'' # r1")
  case True
  then obtain cs k r0 r1 where sk: "skip_ws s = CHR 0x22 # cs" and k: "go_unq cs = Some (k, r0)"
      and e: "skip_ws r0 = CHR '':'' # r1" by blast
  have l1: "length r1 < length s"
    using skip_ws_Cons_length [OF sk] go_unq_length [OF k] skip_ws_Cons_length [OF e] by simp
  with hv l have j: "jval n r1 \<noteq> JFuel" by simp
  show ?thesis
  proof (cases "jval n r1")
    case (JOk v r2)
    have l2: "length r2 < length r1" using jval_length [OF JOk] .
    show ?thesis
    proof (cases "skip_ws r2")
      case (Cons f t)
      have "2 * length t + 2 < n" using skip_ws_Cons_length [OF Cons] l1 l2 l by simp
      with ho have "jobj n t (ms @ [(k, v)]) \<noteq> JFuel" by blast
      with sk k e JOk Cons show ?thesis by simp
    qed (simp add: sk k e JOk)
  qed (use j sk k e in simp_all)
next
  case False
  then show ?thesis by (auto split: list.splits option.splits)
qed

lemma jres_fuel:
  "(\<forall>s. 2 * length s + 1 < n \<longrightarrow> jval n s \<noteq> JFuel)
   \<and> (\<forall>s acc. 2 * length s + 2 < n \<longrightarrow> jarr n s acc \<noteq> JFuel)
   \<and> (\<forall>s ms. 2 * length s + 2 < n \<longrightarrow> jobj n s ms \<noteq> JFuel)"
proof (induction n)
  case (Suc n)
  then have IHv: "\<forall>s. 2 * length s + 1 < n \<longrightarrow> jval n s \<noteq> JFuel"
    and IHa: "\<forall>s acc. 2 * length s + 2 < n \<longrightarrow> jarr n s acc \<noteq> JFuel"
    and IHo: "\<forall>s ms. 2 * length s + 2 < n \<longrightarrow> jobj n s ms \<noteq> JFuel"
    by blast+
  show ?case
    using jval_Suc_fuel [OF IHo IHa] jarr_Suc_fuel [OF IHv IHa] jobj_Suc_fuel [OF IHv IHo]
    by simp
qed simp

lemma jval_Suc_mono:
  assumes ho: "\<And>s ms. jobj n s ms \<noteq> JFuel \<Longrightarrow> jobj m s ms = jobj n s ms"
    and ha: "\<And>s acc. jarr n s acc \<noteq> JFuel \<Longrightarrow> jarr m s acc = jarr n s acc"
    and h: "jval (Suc n) s \<noteq> JFuel"
  shows "jval (Suc m) s = jval (Suc n) s"
  using h by (auto split: list.splits option.splits simp: ho ha)

lemma jarr_Suc_mono:
  assumes hv: "\<And>s. jval n s \<noteq> JFuel \<Longrightarrow> jval m s = jval n s"
    and ha: "\<And>s acc. jarr n s acc \<noteq> JFuel \<Longrightarrow> jarr m s acc = jarr n s acc"
    and h: "jarr (Suc n) s acc \<noteq> JFuel"
  shows "jarr (Suc m) s acc = jarr (Suc n) s acc"
  using h by (auto split: jres.splits list.splits simp: hv ha)

lemma jobj_Suc_mono:
  assumes hv: "\<And>s. jval n s \<noteq> JFuel \<Longrightarrow> jval m s = jval n s"
    and ho: "\<And>s ms. jobj n s ms \<noteq> JFuel \<Longrightarrow> jobj m s ms = jobj n s ms"
    and h: "jobj (Suc n) s ms \<noteq> JFuel"
  shows "jobj (Suc m) s ms = jobj (Suc n) s ms"
  using h by (auto split: jres.splits list.splits option.splits simp: hv ho)

lemma jres_mono:
  "(\<forall>s m. jval n s \<noteq> JFuel \<longrightarrow> n \<le> m \<longrightarrow> jval m s = jval n s)
   \<and> (\<forall>s acc m. jarr n s acc \<noteq> JFuel \<longrightarrow> n \<le> m \<longrightarrow> jarr m s acc = jarr n s acc)
   \<and> (\<forall>s ms m. jobj n s ms \<noteq> JFuel \<longrightarrow> n \<le> m \<longrightarrow> jobj m s ms = jobj n s ms)"
proof (induction n)
  case (Suc n)
  show ?case
  proof (intro conjI allI impI)
    fix s m assume h: "jval (Suc n) s \<noteq> JFuel" and "Suc n \<le> m"
    then obtain m' where m: "m = Suc m'" "n \<le> m'" by (cases m) auto
    show "jval m s = jval (Suc n) s"
      unfolding m(1) by (rule jval_Suc_mono) (use Suc.IH m(2) h in blast)+
  next
    fix s acc m assume h: "jarr (Suc n) s acc \<noteq> JFuel" and "Suc n \<le> m"
    then obtain m' where m: "m = Suc m'" "n \<le> m'" by (cases m) auto
    show "jarr m s acc = jarr (Suc n) s acc"
      unfolding m(1) by (rule jarr_Suc_mono) (use Suc.IH m(2) h in blast)+
  next
    fix s ms m assume h: "jobj (Suc n) s ms \<noteq> JFuel" and "Suc n \<le> m"
    then obtain m' where m: "m = Suc m'" "n \<le> m'" by (cases m) auto
    show "jobj m s ms = jobj (Suc n) s ms"
      unfolding m(1) by (rule jobj_Suc_mono) (use Suc.IH m(2) h in blast)+
  qed
qed simp

lemma jval_enough_fuel: "2 * length s + 1 < n \<Longrightarrow> jval n s = jval (2 * length s + 2) s"
proof -
  assume "2 * length s + 1 < n"
  have "jval (2 * length s + 2) s \<noteq> JFuel" using jres_fuel [of "2 * length s + 2"] by simp
  with jres_mono [of "2 * length s + 2"] \<open>2 * length s + 1 < n\<close> show ?thesis by simp
qed

subsection \<open>What the encoder writes, the parser reads back\<close>

fun json_jvalue :: "json_val \<Rightarrow> jvalue" where
  "json_jvalue (JStr s) = JVStr s"
| "json_jvalue (JInt w) = JVNum (go_itoa w)"
| "json_jvalue (JStrs xs) = JVArr (map JVStr xs)"

definition ends_value :: "char \<Rightarrow> bool" where
  "ends_value d \<longleftrightarrow> d = CHR '','' \<or> d = CHR ''}'' \<or> d = CHR '']''"

lemma skip_ws_nonws [simp]: "\<not> is_ws c \<Longrightarrow> skip_ws (c # s) = c # s"
  by (simp add: skip_ws_def)

lemma nat_digits_hd: "0 < n \<Longrightarrow> hd (nat_digits n) \<noteq> CHR ''0''"
proof (induction n rule: nat_digits.induct)
  case (1 n)
  show ?case
  proof (cases "n < 10")
    case True
    then have "of_char (digit_char n) \<noteq> (of_char (CHR ''0'') :: nat)"
      using "1.prems" by (simp add: of_char_digit_char)
    with True show ?thesis by (auto simp: nat_digits.simps)
  next
    case False
    then have "hd (nat_digits (n div 10)) \<noteq> CHR ''0''" using "1.IH" by simp
    with False show ?thesis by (simp add: nat_digits.simps hd_append)
  qed
qed

lemma dropWhile_digits:
  "list_all is_digit ds \<Longrightarrow> \<not> is_digit d \<Longrightarrow> dropWhile is_digit (ds @ d # rest) = d # rest"
  by (induction ds) simp_all

lemma num_int_digits:
  assumes "\<not> is_digit d"
  shows "num_int (nat_digits m @ d # rest) = Some (d # rest)"
proof -
  obtain c cs where c: "nat_digits m = c # cs" by (cases "nat_digits m") simp_all
  have dg: "is_digit c" "list_all is_digit cs" using nat_digits_all_digits [of m] c by simp_all
  show ?thesis
  proof (cases "m = 0")
    case True
    then have "nat_digits m = [CHR ''0'']" by (simp add: nat_digits.simps digit_char_def)
    then show ?thesis by (simp add: num_int_def)
  next
    case False
    then have "c \<noteq> CHR ''0''" using nat_digits_hd [of m] c by simp
    with dg c assms show ?thesis by (simp add: num_int_def digits1_def dropWhile_digits)
  qed
qed

lemma ends_value_chars:
  "ends_value d \<Longrightarrow> \<not> is_digit d \<and> \<not> is_ws d \<and> d \<noteq> CHR ''.'' \<and> d \<noteq> CHR ''e'' \<and> d \<noteq> CHR ''E''"
  by (auto simp: ends_value_def is_digit_def is_ws_def less_eq_char_def)

lemma scan_number_itoa:
  assumes "ends_value d"
  shows "scan_number (go_itoa w @ d # rest) = Some (d # rest)"
proof -
  note e = ends_value_chars [OF assms]
  have fe: "num_frac (d # rest) = Some (d # rest)" "num_exp (d # rest) = Some (d # rest)"
    using e by (simp_all add: num_frac_def num_exp_def)
  have m: "Option.bind (num_int (nat_digits k @ d # rest)) (\<lambda>r. Option.bind (num_frac r) num_exp)
           = Some (d # rest)" for k
    using num_int_digits [of d k rest] e fe by simp
  have u: "(case nat_digits k @ d # rest of
              c # t \<Rightarrow> if c = CHR ''-'' then t else nat_digits k @ d # rest
            | [] \<Rightarrow> nat_digits k @ d # rest) = nat_digits k @ d # rest" for k
    using nat_digits_all_digits [of k]
    by (cases "nat_digits k") (auto simp: is_digit_def less_eq_char_def)
  show ?thesis
    using m u by (simp add: scan_number_def go_itoa_def Let_def)
qed

fun json_val_valid :: "json_val \<Rightarrow> bool" where
  "json_val_valid (JStr s) = utf8_valid s"
| "json_val_valid (JInt n) = True"
| "json_val_valid (JStrs xs) = list_all utf8_valid xs"

definition json_obj_valid :: "(string \<times> json_val) list \<Rightarrow> bool" where
  "json_obj_valid ms \<longleftrightarrow> list_all (\<lambda>(k, v). utf8_valid k \<and> json_val_valid v) ms"

lemma go_itoa_chars: "list_all (\<lambda>c. c = CHR ''-'' \<or> is_digit c) (go_itoa w)"
  using nat_digits_all_digits by (auto simp: go_itoa_def Let_def list_all_iff)

lemma jval_quote: "utf8_valid x \<Longrightarrow> jval (Suc n) (json_quote x @ rest) = JOk (JVStr x) rest"
  by (simp add: json_quote_def is_ws_def json_esc_unq)

lemma jval_itoa:
  assumes "ends_value d"
  shows "jval (Suc n) (go_itoa w @ d # rest) = JOk (JVNum (go_itoa w)) (d # rest)"
proof -
  obtain c cs where c: "go_itoa w = c # cs" by (cases "go_itoa w") simp_all
  have "c = CHR ''-'' \<or> is_digit c" using go_itoa_chars [of w] c by simp
  then have "\<not> is_ws c" "c \<noteq> CHR ''{''" "c \<noteq> CHR ''[''" "c \<noteq> CHR 0x22" "c \<noteq> CHR ''t''"
    "c \<noteq> CHR ''f''" "c \<noteq> CHR ''n''"
    by (auto simp: is_ws_def is_digit_def less_eq_char_def)
  moreover have "scan_number (c # cs @ d # rest) = Some (d # rest)"
    using scan_number_itoa [OF assms, of w rest] c by simp
  ultimately show ?thesis using c by simp
qed

lemma json_quote_length: "2 \<le> length (json_quote x)"
  by (simp add: json_quote_def)

lemma jarr_elems:
  "list_all utf8_valid xs \<Longrightarrow> xs \<noteq> [] \<Longrightarrow> length (json_elems xs) < n \<Longrightarrow>
   jarr n (json_elems xs @ CHR '']'' # rest) acc = JOk (JVArr (acc @ map JVStr xs)) rest"
proof (induction xs arbitrary: n acc rule: json_elems.induct)
  case (2 x)
  then obtain m where "n = Suc (Suc m)"
    using json_quote_length [of x] by (cases n; cases "n - 1") auto
  with "2.prems" show ?case by (simp add: jval_quote is_ws_def del: jval.simps)
next
  case (3 x y xs)
  then obtain m where n: "n = Suc m" by (cases n) auto
  have l: "length (json_elems (y # xs)) < m"
    using "3.prems"(3) json_quote_length [of x] n by simp
  then obtain k where "m = Suc k" by (cases m) auto
  with "3.IH" [OF _ _ l, of "acc @ [JVStr x]"] "3.prems"(1) n show ?case
    by (simp add: jval_quote is_ws_def del: jval.simps)
qed simp

lemma json_elems_Cons: "xs \<noteq> [] \<Longrightarrow> \<exists>t. json_elems xs = CHR 0x22 # t"
  by (induction xs rule: json_elems.induct) (simp_all add: json_quote_def)

lemma json_members_Cons: "ms \<noteq> [] \<Longrightarrow> \<exists>t. json_members ms = CHR 0x22 # t"
  by (induction ms rule: json_members.induct) (simp_all add: json_quote_def)

lemma jval_value:
  assumes "json_val_valid v" "ends_value d" "length (json_value v) < n"
  shows "jval n (json_value v @ d # rest) = JOk (json_jvalue v) (d # rest)"
proof -
  obtain m where n: "n = Suc m" using assms(3) by (cases n) auto
  show ?thesis
  proof (cases v)
    case (JStr x)
    with assms(1) n show ?thesis by (simp add: jval_quote del: jval.simps)
  next
    case (JInt w)
    with assms(2) n show ?thesis by (simp add: jval_itoa del: jval.simps)
  next
    case (JStrs xs)
    show ?thesis
    proof (cases "xs = []")
      case True
      with JStrs n show ?thesis by (simp add: is_ws_def)
    next
      case False
      then obtain t where t: "json_elems xs = CHR 0x22 # t" using json_elems_Cons by blast
      have "length (json_elems xs) < m" using assms(3) JStrs n by simp
      with jarr_elems [OF _ False, of m "d # rest" "[]"] assms(1) JStrs
      have "jarr m (json_elems xs @ CHR '']'' # d # rest) [] = JOk (JVArr (map JVStr xs)) (d # rest)"
        by simp
      with JStrs n t show ?thesis by (simp add: is_ws_def)
    qed
  qed
qed

lemma json_value_length: "0 < length (json_value v)"
  by (cases v) (simp_all add: json_quote_def)

lemma jobj_members:
  "json_obj_valid ms \<Longrightarrow> ms \<noteq> [] \<Longrightarrow> length (json_members ms) < n \<Longrightarrow>
   jobj n (json_members ms @ CHR ''}'' # rest) acc
     = JOk (JVObj (acc @ map (\<lambda>(k, v). (k, json_jvalue v)) ms)) rest"
proof (induction ms arbitrary: n acc rule: json_members.induct)
  case (2 k v)
  then obtain m where n: "n = Suc m" by (cases n) auto
  have e: "ends_value (CHR ''}'')" by (simp add: ends_value_def)
  from "2.prems" n have "jval m (json_value v @ CHR ''}'' # rest) = JOk (json_jvalue v) (CHR ''}'' # rest)"
    by (intro jval_value [OF _ e]) (simp_all add: json_obj_valid_def json_quote_def)
  with "2.prems" n show ?case
    by (simp add: json_obj_valid_def json_quote_def json_esc_unq is_ws_def del: jval.simps)
next
  case (3 k v m ms)
  then obtain n' where n: "n = Suc n'" by (cases n) auto
  have e: "ends_value (CHR '','')" by (simp add: ends_value_def)
  have v: "json_val_valid v" "utf8_valid k" "json_obj_valid (m # ms)"
    using "3.prems"(1) by (simp_all add: json_obj_valid_def)
  from "3.prems"(3) n have l: "length (json_value v) < n'" "length (json_members (m # ms)) < n'"
    by (simp_all add: json_quote_def)
  have j: "jval n' (json_value v @ CHR '','' # json_members (m # ms) @ CHR ''}'' # rest)
           = JOk (json_jvalue v) (CHR '','' # json_members (m # ms) @ CHR ''}'' # rest)"
    using jval_value [OF v(1) e l(1)] by simp
  have "jobj n' (json_members (m # ms) @ CHR ''}'' # rest) (acc @ [(k, json_jvalue v)])
        = JOk (JVObj ((acc @ [(k, json_jvalue v)]) @ map (\<lambda>(k, v). (k, json_jvalue v)) (m # ms))) rest"
    using "3.IH" [OF v(3) _ l(2)] by simp
  with j v(2) n show ?case
    by (simp add: json_quote_def json_esc_unq is_ws_def del: jval.simps)
qed simp

lemma jval_object:
  assumes "json_obj_valid ms" "length (json_object ms) < n"
  shows "jval n (json_object ms @ rest) = JOk (JVObj (map (\<lambda>(k, v). (k, json_jvalue v)) ms)) rest"
proof -
  obtain m where n: "n = Suc m" using assms(2) by (cases n) auto
  show ?thesis
  proof (cases "ms = []")
    case True
    with n show ?thesis by (simp add: json_object_def is_ws_def)
  next
    case False
    then obtain t where t: "json_members ms = CHR 0x22 # t" using json_members_Cons by blast
    have "length (json_members ms) < m" using assms(2) n by (simp add: json_object_def)
    with jobj_members [OF assms(1) False, of m rest "[]"]
    have "jobj m (json_members ms @ CHR ''}'' # rest) [] = JOk (JVObj (map (\<lambda>(k, v). (k, json_jvalue v)) ms)) rest"
      by simp
    with n t show ?thesis by (simp add: json_object_def is_ws_def)
  qed
qed

theorem go_json_object:
  "json_obj_valid ms \<Longrightarrow> go_json_value (json_object ms) = Some (JVObj (map (\<lambda>(k, v). (k, json_jvalue v)) ms))"
  using jval_object [of ms "2 * length (json_object ms) + 2" "[]"]
  by (simp add: go_json_value_def skip_ws_def)

end
