(* ===== verification/Runtime.thy ===== *)
theory Runtime
  imports Config JsonDec
begin

text \<open>
  The interface between vault-init and the world it calls.  The Go structs of
  \<open>src/main.go\<close> that the program builds (\<open>InitRequest\<close>, \<open>InitResponse\<close>) are
  records; the external operations the program performs are the fields of the record
  \<open>go_env\<close>, each a function of an abstract world state \<open>'w\<close>: the non-blocking and the
  blocking receive on the signal channel, \<open>httpClient.Head\<close>, \<open>time.Sleep\<close>, the
  \<open>PUT /v1/sys/init\<close> call (its URL and its body, the bytes \<open>json.Marshal\<close> made of the
  \<open>InitRequest\<close>), \<open>session.NewSession\<close> and \<open>PutSecretValue\<close> (the secret id and the
  \<open>SecretString\<close>).  The program's state \<open>'w proc\<close> is the world together with the trace
  of everything the program did: each log line (a value of \<open>log_msg\<close>, one constructor
  per format string of the source), each external call with its arguments and the answer it
  got, and the exit.  The \<open>log.Println(err)\<close> of a \<open>json.Unmarshal\<close> error is
  \<open>LJsonError\<close> with the kind of the error (syntax or type), which is what its message
  names.  Properties of the program are stated over every \<open>go_env\<close>; the theory
  \<open>SimWorld\<close> gives one concrete world.
\<close>

subsection \<open>Data crossing the interface\<close>

record init_request =
  req_stored_shares :: go_int
  req_recovery_shares :: go_int
  req_recovery_threshold :: go_int

record init_response =
  resp_keys :: "string list"
  resp_keys_base64 :: "string list"
  resp_root_token :: string

text \<open>
  The outcome of \<open>httpClient.Head\<close>: a transport error, or a response with its status
  code.  The outcome of the init call: an error of \<open>http.NewRequest\<close>, \<open>httpClient.Do\<close>
  or \<open>ioutil.ReadAll\<close> (all three are logged and end the attempt alike), or the status code
  with the bytes \<open>ioutil.ReadAll\<close> read from the body.
\<close>

datatype head_result = HeadErr string | HeadResp int

datatype init_reply = InitErr string | InitResp int string

subsection \<open>Log lines and the trace\<close>

datatype log_msg =
    LStarting
  | LConfigFatal config_error
  | LError string
  | LJsonError json_error
  | LInitializedUnsealed
  | LStandby
  | LNotInitialized
  | LInitializing
  | LUnknownState int
  | LNextCheck duration
  | LShuttingDown
  | LNon200 int
  | LStoring
  | LFatal string
  | LComplete

datatype event =
    Log log_msg
  | SignalPoll bool
  | Head string head_result
  | Sleep duration
  | Wait duration bool
  | InitCall string string init_reply
  | NewSession "string + unit"
  | PutSecret string string "string + unit"
  | Exit exit_code

subsection \<open>The external operations\<close>

record 'w go_env =
  env_signal_ready :: "'w \<Rightarrow> bool \<times> 'w"
  env_head :: "string \<Rightarrow> 'w \<Rightarrow> head_result \<times> 'w"
  env_sleep :: "duration \<Rightarrow> 'w \<Rightarrow> 'w"
  env_wait :: "duration \<Rightarrow> 'w \<Rightarrow> bool \<times> 'w"
  env_init :: "string \<Rightarrow> string \<Rightarrow> 'w \<Rightarrow> init_reply \<times> 'w"
  env_new_session :: "'w \<Rightarrow> (string + unit) \<times> 'w"
  env_put_secret :: "string \<Rightarrow> string \<Rightarrow> 'w \<Rightarrow> (string + unit) \<times> 'w"

record 'w proc =
  world :: 'w
  trace :: "event list"

text \<open>A step of the program either ends the process with an exit code or continues.\<close>

type_synonym ('w, 'a) step = "(exit_code + 'a) \<times> 'w proc"

definition emit :: "event \<Rightarrow> 'w proc \<Rightarrow> 'w proc" where
  "emit ev p = p\<lparr>trace := trace p @ [ev]\<rparr>"

definition log_line :: "log_msg \<Rightarrow> 'w proc \<Rightarrow> 'w proc" where
  "log_line m p = emit (Log m) p"

definition call_signal_ready :: "'w go_env \<Rightarrow> 'w proc \<Rightarrow> bool \<times> 'w proc" where
  "call_signal_ready e p =
     (case env_signal_ready e (world p) of (b, w) \<Rightarrow> (b, emit (SignalPoll b) (p\<lparr>world := w\<rparr>)))"

definition call_head :: "'w go_env \<Rightarrow> string \<Rightarrow> 'w proc \<Rightarrow> head_result \<times> 'w proc" where
  "call_head e url p =
     (case env_head e url (world p) of (r, w) \<Rightarrow> (r, emit (Head url r) (p\<lparr>world := w\<rparr>)))"

definition call_sleep :: "'w go_env \<Rightarrow> duration \<Rightarrow> 'w proc \<Rightarrow> 'w proc" where
  "call_sleep e d p = emit (Sleep d) (p\<lparr>world := env_sleep e d (world p)\<rparr>)"

definition call_wait :: "'w go_env \<Rightarrow> duration \<Rightarrow> 'w proc \<Rightarrow> bool \<times> 'w proc" where
  "call_wait e d p =
     (case env_wait e d (world p) of (b, w) \<Rightarrow> (b, emit (Wait d b) (p\<lparr>world := w\<rparr>)))"

definition call_init ::
  "'w go_env \<Rightarrow> string \<Rightarrow> string \<Rightarrow> 'w proc \<Rightarrow> init_reply \<times> 'w proc" where
  "call_init e url req p =
     (case env_init e url req (world p) of
        (r, w) \<Rightarrow> (r, emit (InitCall url req r) (p\<lparr>world := w\<rparr>)))"

definition call_new_session :: "'w go_env \<Rightarrow> 'w proc \<Rightarrow> (string + unit) \<times> 'w proc" where
  "call_new_session e p =
     (case env_new_session e (world p) of (r, w) \<Rightarrow> (r, emit (NewSession r) (p\<lparr>world := w\<rparr>)))"

definition call_put_secret ::
  "'w go_env \<Rightarrow> string \<Rightarrow> string \<Rightarrow> 'w proc \<Rightarrow> (string + unit) \<times> 'w proc" where
  "call_put_secret e sid obj p =
     (case env_put_secret e sid obj (world p) of
        (r, w) \<Rightarrow> (r, emit (PutSecret sid obj r) (p\<lparr>world := w\<rparr>)))"

text \<open>
  The three ways the process ends: \<open>os.Exit(code)\<close>, \<open>log.Fatal\<close> (the message is
  logged, then exit status 1) and the \<open>stop\<close> closure of \<open>main\<close> (lines 94--97).
\<close>

definition exit_with :: "exit_code \<Rightarrow> 'w proc \<Rightarrow> ('w, 'a) step" where
  "exit_with c p = (Inl c, emit (Exit c) p)"

definition log_fatal :: "log_msg \<Rightarrow> 'w proc \<Rightarrow> ('w, 'a) step" where
  "log_fatal m p = exit_with 1 (log_line m p)"

definition stop :: "'w proc \<Rightarrow> ('w, 'a) step" where
  "stop p = exit_with 0 (log_line LShuttingDown p)"

lemmas call_defs [rt_simps] = call_signal_ready_def call_head_def call_sleep_def call_wait_def
  call_init_def call_new_session_def call_put_secret_def emit_def log_line_def exit_with_def
  log_fatal_def stop_def

text \<open>Every step of the program only appends to the trace.\<close>

definition extends :: "'w proc \<Rightarrow> 'w proc \<Rightarrow> bool" where
  "extends p p' \<longleftrightarrow> (\<exists>es. trace p' = trace p @ es)"

lemma extends_refl [simp]: "extends p p"
  by (auto simp: extends_def)

lemma extends_trans [trans]: "extends p q \<Longrightarrow> extends q r \<Longrightarrow> extends p r"
  by (auto simp: extends_def)

lemma extends_emit [simp]: "extends p (emit ev p)"
  by (simp add: extends_def emit_def)

end
