(* ===== verification/Health.thy ===== *)
theory Health
  imports Runtime
begin

text \<open>
  The health monitor: the \<open>HEAD {VAULT_ADDR}/v1/sys/health\<close> probe of \<open>main\<close>
  (lines 105--115 of \<open>src/main.go\<close>) and the \<open>switch response.StatusCode\<close> of lines
  117--128, split into the classification of the status code into a cluster state (the
  \<open>ClusterState\<close> of the design) and the log lines each branch prints.  The action of
  the \<open>501\<close> branch, calling \<open>initialize\<close>, is composed in \<open>PollLoop\<close>.
\<close>

datatype cluster_state = Initialized | Standby | Uninitialized | Unknown int

definition classify :: "int \<Rightarrow> cluster_state" where
  "classify code =
     (if code = 200 then Initialized
      else if code = 429 then Standby
      else if code = 501 then Uninitialized
      else Unknown code)"

primrec state_logs :: "cluster_state \<Rightarrow> log_msg list" where
  "state_logs Initialized = [LInitializedUnsealed]"
| "state_logs Standby = [LStandby]"
| "state_logs Uninitialized = [LNotInitialized, LInitializing]"
| "state_logs (Unknown code) = [LUnknownState code]"

definition health_url :: "config \<Rightarrow> string" where
  "health_url cfg = vault_addr cfg @ ''/v1/sys/health''"

text \<open>
  The probe: a transport error is returned as the error's text, a response as the state
  its status code stands for.  Closing the response body (lines 107--109) has no effect
  that the model observes.
\<close>

definition probe :: "'w go_env \<Rightarrow> config \<Rightarrow> 'w proc \<Rightarrow> (string + cluster_state) \<times> 'w proc" where
  "probe e cfg p =
     (case call_head e (health_url cfg) p of
        (HeadErr msg, p') \<Rightarrow> (Inl msg, p')
      | (HeadResp code, p') \<Rightarrow> (Inr (classify code), p'))"

definition log_lines :: "log_msg list \<Rightarrow> 'w proc \<Rightarrow> 'w proc" where
  "log_lines ms p = fold log_line ms p"

lemma log_lines_trace [rt_simps]: "trace (log_lines ms p) = trace p @ map Log ms"
  by (induction ms arbitrary: p) (simp_all add: log_lines_def log_line_def emit_def)

lemma log_lines_world [rt_simps]: "world (log_lines ms p) = world p"
  by (induction ms arbitrary: p) (simp_all add: log_lines_def log_line_def emit_def)

text \<open>
  C2: the status-code table of the health monitor: \<open>200\<close> is initialized and unsealed,
  \<open>429\<close> standby, \<open>501\<close> uninitialized, every other code an unknown state carrying
  the code.
\<close>

theorem classify_table:
  "(classify c = Initialized \<longleftrightarrow> c = 200)
   \<and> (classify c = Standby \<longleftrightarrow> c = 429)
   \<and> (classify c = Uninitialized \<longleftrightarrow> c = 501)
   \<and> (classify c = Unknown c' \<longleftrightarrow> c' = c \<and> c \<notin> {200, 429, 501})"
  by (auto simp: classify_def)

end
