(* ===== verification/Unmarshal.thy ===== *)
theory Unmarshal
  imports Runtime
begin

text \<open>
  \<open>json.Unmarshal(initRequestResponseBody, &initResponse)\<close> of \<open>initialize\<close>
  (\<open>src/main.go\<close>, line 180), into the struct \<open>InitResponse\<close> (lines 43--48).  After
  the reader of \<open>JsonDec\<close> has accepted the input, Go's decoder (\<open>decodeState\<close>)
  assigns each member of the object to the field whose \<open>json\<close> tag equals its key, or
  else to the first field whose tag equals it up to case (\<open>equalFoldRight\<close>, the
  folding Go picks for tags that contain a \<open>k\<close> or an \<open>s\<close>, as all three here
  do); members with no field are skipped.  A value that does not fit its field leaves the
  field as it was and makes \<open>Unmarshal\<close> return an \<open>UnmarshalTypeError\<close> once the
  whole input is decoded; \<open>null\<close> leaves a string as it was and empties a slice.  The
  top-level \<open>null\<close> leaves the struct at its zero value and is no error.
\<close>

unbundle bit_operations_syntax

subsection \<open>Matching a key to a field\<close>

definition kelvin :: string where "kelvin = [CHR 0xE2, CHR 0x84, CHR 0xAA]"
definition long_s :: string where "long_s = [CHR 0xC5, CHR 0xBF]"

text \<open>\<open>sb & caseMask\<close>, with \<open>caseMask = ^byte(0x20)\<close>.\<close>

definition case_masked :: "char \<Rightarrow> nat" where
  "case_masked c = of_char c AND 0xDF"

text \<open>
  \<open>equalFoldRight(s, t)\<close>: \<open>s\<close> the field's name (ASCII), \<open>t\<close> the key.  An ASCII
  byte of the key matches a letter of the name in either case; the Kelvin sign matches
  \<open>k\<close>, the long s matches \<open>s\<close>.
\<close>

fun equal_fold_right :: "string \<Rightarrow> string \<Rightarrow> bool" where
  "equal_fold_right [] t = (t = [])"
| "equal_fold_right (sb # s) t =
     (case t of
        [] \<Rightarrow> False
      | tb # t' \<Rightarrow>
          if is_ascii tb then
            (sb = tb \<or> (65 \<le> case_masked sb \<and> case_masked sb \<le> 90 \<and> case_masked sb = case_masked tb))
            \<and> equal_fold_right s t'
          else if sb = CHR ''s'' \<or> sb = CHR ''S'' then take 2 t = long_s \<and> equal_fold_right s (drop 2 t)
          else if sb = CHR ''k'' \<or> sb = CHR ''K'' then take 3 t = kelvin \<and> equal_fold_right s (drop 3 t)
          else False)"

datatype resp_field = FKeys | FKeysBase64 | FRootToken

text \<open>The fields of \<open>InitResponse\<close> with their tags, in declaration order.\<close>

definition resp_fields :: "(string \<times> resp_field) list" where
  "resp_fields = [(''recovery_keys'', FKeys), (''recovery_keys_base64'', FKeysBase64),
                  (''root_token'', FRootToken)]"

text \<open>
  The loop of \<open>decodeState.object\<close> over the fields: an exact match ends it, the first
  match up to case is remembered.
\<close>

fun find_field :: "(string \<times> 'f) list \<Rightarrow> string \<Rightarrow> 'f option \<Rightarrow> 'f option" where
  "find_field [] key f = f"
| "find_field ((name, ff) # fs) key f =
     (if name = key then Some ff
      else find_field fs key (if f = None \<and> equal_fold_right name key then Some ff else f))"

definition field_of :: "string \<Rightarrow> resp_field option" where
  "field_of key = find_field resp_fields key None"

subsection \<open>Storing a value in a field\<close>

text \<open>
  A JSON array into a \<open>[]string\<close> that holds \<open>old\<close>: element \<open>i\<close> is the string
  at position \<open>i\<close>; \<open>null\<close> or a value of another kind leaves the slice's element
  \<open>i\<close> as it was (empty past the old length), and the other kinds are type errors.
\<close>

definition str_elem :: "string list \<Rightarrow> nat \<Rightarrow> jvalue \<Rightarrow> string" where
  "str_elem old i v = (case v of JVStr s \<Rightarrow> s | _ \<Rightarrow> if i < length old then old ! i else [])"

definition str_fits :: "jvalue \<Rightarrow> bool" where
  "str_fits v \<longleftrightarrow> (case v of JVStr _ \<Rightarrow> True | JVNull \<Rightarrow> True | _ \<Rightarrow> False)"

definition decode_slice :: "string list \<Rightarrow> jvalue \<Rightarrow> string list \<times> bool" where
  "decode_slice old v =
     (case v of
        JVNull \<Rightarrow> ([], False)
      | JVArr vs \<Rightarrow> (map (\<lambda>(i, x). str_elem old i x) (enumerate 0 vs), \<not> list_all str_fits vs)
      | _ \<Rightarrow> (old, True))"

definition decode_string :: "string \<Rightarrow> jvalue \<Rightarrow> string \<times> bool" where
  "decode_string old v =
     (case v of JVStr s \<Rightarrow> (s, False) | JVNull \<Rightarrow> (old, False) | _ \<Rightarrow> (old, True))"

text \<open>One member of the object; the flag records a saved \<open>UnmarshalTypeError\<close>.\<close>

definition decode_member :: "string \<times> jvalue \<Rightarrow> init_response \<times> bool \<Rightarrow> init_response \<times> bool" where
  "decode_member kv st =
     (case (kv, st) of
        ((k, v), (r, e)) \<Rightarrow>
          (case field_of k of
             None \<Rightarrow> (r, e)
           | Some FKeys \<Rightarrow>
               (case decode_slice (resp_keys r) v of (x, e') \<Rightarrow> (r\<lparr>resp_keys := x\<rparr>, e \<or> e'))
           | Some FKeysBase64 \<Rightarrow>
               (case decode_slice (resp_keys_base64 r) v of
                  (x, e') \<Rightarrow> (r\<lparr>resp_keys_base64 := x\<rparr>, e \<or> e'))
           | Some FRootToken \<Rightarrow>
               (case decode_string (resp_root_token r) v of
                  (x, e') \<Rightarrow> (r\<lparr>resp_root_token := x\<rparr>, e \<or> e'))))"

text \<open>\<open>var initResponse InitResponse\<close>: the zero value.\<close>

definition zero_response :: init_response where
  "zero_response = \<lparr>resp_keys = [], resp_keys_base64 = [], resp_root_token = []\<rparr>"

definition unmarshal_init_response :: "string \<Rightarrow> json_error + init_response" where
  "unmarshal_init_response body =
     (case go_json_value body of
        None \<Rightarrow> Inl JSyntaxError
      | Some JVNull \<Rightarrow> Inr zero_response
      | Some (JVObj ms) \<Rightarrow>
          (case fold decode_member ms (zero_response, False) of
             (r, e) \<Rightarrow> if e then Inl JTypeError else Inr r)
      | Some _ \<Rightarrow> Inl JTypeError)"

subsection \<open>The answer Vault gives\<close>

text \<open>
  The body of Vault's answer to \<open>PUT /v1/sys/init\<close> when the barrier is sealed by a
  KMS key (no unseal shares, recovery shares instead), as Vault's handler marshals it.
\<close>

definition resp_members :: "init_response \<Rightarrow> (string \<times> json_val) list" where
  "resp_members r =
     [(''recovery_keys'', JStrs (resp_keys r)),
      (''recovery_keys_base64'', JStrs (resp_keys_base64 r)),
      (''root_token'', JStr (resp_root_token r))]"

definition vault_init_body :: "init_response \<Rightarrow> string" where
  "vault_init_body r = json_object ([(''keys'', JStrs []), (''keys_base64'', JStrs [])] @ resp_members r)"

definition resp_valid :: "init_response \<Rightarrow> bool" where
  "resp_valid r \<longleftrightarrow> list_all utf8_valid (resp_keys r) \<and> list_all utf8_valid (resp_keys_base64 r)
     \<and> utf8_valid (resp_root_token r)"

subsection \<open>Lemmas\<close>

lemma field_of_tags:
  "field_of ''recovery_keys'' = Some FKeys"
  "field_of ''recovery_keys_base64'' = Some FKeysBase64"
  "field_of ''root_token'' = Some FRootToken"
  "field_of ''keys'' = None"
  "field_of ''keys_base64'' = None"
  by (simp_all add: field_of_def resp_fields_def case_masked_def is_ascii_def)
lemma str_elems_strs: "map (\<lambda>(i, x). str_elem old i x) (enumerate k (map JVStr xs)) = xs"
  by (induction xs arbitrary: k) (simp_all add: str_elem_def)

lemma decode_slice_strs: "decode_slice old (JVArr (map JVStr xs)) = (xs, False)"
  by (simp add: decode_slice_def str_elems_strs list_all_iff str_fits_def)

lemma ascii_literal_valid:
  "utf8_valid ''keys''" "utf8_valid ''keys_base64''" "utf8_valid ''recovery_keys''"
  "utf8_valid ''recovery_keys_base64''" "utf8_valid ''root_token''"
  by (rule ascii_utf8_valid, simp add: is_ascii_def)+

text \<open>What \<open>Unmarshal\<close> does with an object the encoder wrote: the members in order.\<close>

lemma unmarshal_json_object:
  "json_obj_valid ms \<Longrightarrow>
   unmarshal_init_response (json_object ms) =
     (case fold decode_member (map (\<lambda>(k, v). (k, json_jvalue v)) ms) (zero_response, False) of
        (r, e) \<Rightarrow> if e then Inl JTypeError else Inr r)"
  by (simp add: unmarshal_init_response_def go_json_object)

lemma fold_unknown_members:
  "list_all (\<lambda>(k, v). field_of k = None) ms \<Longrightarrow> fold decode_member ms st = st"
  by (induction ms arbitrary: st) (auto simp: decode_member_def split: prod.splits)

lemma fold_resp_members:
  "fold decode_member (map (\<lambda>(k, v). (k, json_jvalue v)) (resp_members r)) (zero_response, False) = (r, False)"
  by (simp add: resp_members_def decode_member_def field_of_tags decode_slice_strs decode_string_def
      zero_response_def)

lemma resp_members_valid: "resp_valid r \<Longrightarrow> json_obj_valid (resp_members r)"
  by (simp add: json_obj_valid_def resp_valid_def resp_members_def ascii_literal_valid
      del: utf8_valid.simps)

lemma unmarshal_vault_body:
  assumes "resp_valid r"
  shows "unmarshal_init_response (vault_init_body r) = Inr r"
proof -
  have "json_obj_valid ([(''keys'', JStrs []), (''keys_base64'', JStrs [])] @ resp_members r)"
    using resp_members_valid [OF assms]
    by (simp add: json_obj_valid_def ascii_literal_valid del: utf8_valid.simps)
  then show ?thesis
    by (simp add: vault_init_body_def unmarshal_json_object field_of_tags fold_resp_members
        decode_member_def del: map_map)
qed

text \<open>
  C33: the answer of a Vault server decodes to exactly its credentials, whatever other
  members (with keys no field of \<open>InitResponse\<close> claims) precede them: the keys,
  the base64 keys and the root token are read back as written.
\<close>

theorem unmarshal_vault_answer:
  assumes "resp_valid r"
    and "list_all (\<lambda>(k, v). field_of k = None \<and> utf8_valid k \<and> json_val_valid v) extra"
  shows "unmarshal_init_response (json_object (extra @ resp_members r)) = Inr r"
proof -
  have "json_obj_valid (extra @ resp_members r)"
    using assms(2) resp_members_valid [OF assms(1)]
    by (auto simp: json_obj_valid_def list_all_iff)
  moreover have "list_all (\<lambda>(k, v). field_of k = None) (map (\<lambda>(k, v). (k, json_jvalue v)) extra)"
    using assms(2) by (simp add: list_all_iff case_prod_beta)
  ultimately show ?thesis
    by (simp add: unmarshal_json_object fold_unknown_members fold_resp_members del: map_map)
qed

theorem unmarshal_vault_answer_witness:
  "resp_valid \<lparr>resp_keys = [''a1''], resp_keys_base64 = [''b1''], resp_root_token = ''s.t''\<rparr>
   \<and> list_all (\<lambda>(k, v). field_of k = None \<and> utf8_valid k \<and> json_val_valid v)
       [(''keys'', JStrs []), (''keys_base64'', JStrs [])]
   \<and> unmarshal_init_response (vault_init_body \<lparr>resp_keys = [''a1''], resp_keys_base64 = [''b1''], resp_root_token = ''s.t''\<rparr>)
       = Inr \<lparr>resp_keys = [''a1''], resp_keys_base64 = [''b1''], resp_root_token = ''s.t''\<rparr>"
proof -
  let ?r = "\<lparr>resp_keys = [''a1''], resp_keys_base64 = [''b1''], resp_root_token = ''s.t''\<rparr>"
  have v: "resp_valid ?r"
    by (simp add: resp_valid_def ascii_utf8_valid is_ascii_def del: utf8_valid.simps)
  have e: "list_all (\<lambda>(k, v). field_of k = None \<and> utf8_valid k \<and> json_val_valid v)
       [(''keys'', JStrs []), (''keys_base64'', JStrs [])]"
    by (simp add: field_of_tags ascii_literal_valid del: utf8_valid.simps)
  show ?thesis using v e unmarshal_vault_answer [OF v e] unfolding vault_init_body_def by blast
qed


lemma fold_root_not_re:
  assumes "equal_fold_right ''root_token'' k"
  shows "\<not> equal_fold_right (CHR ''r'' # CHR ''e'' # s) k"
proof
  assume re: "equal_fold_right (CHR ''r'' # CHR ''e'' # s) k"
  obtain a b t where k: "k = a # b # t"
    using assms by (cases k; cases "tl k") (auto split: if_splits)
  have "is_ascii b" "CHR ''o'' = b \<or> case_masked (CHR ''o'') = case_masked b"
    using assms k by (auto simp: kelvin_def long_s_def split: if_splits)
  moreover have "CHR ''e'' = b \<or> case_masked (CHR ''e'') = case_masked b"
    using re k \<open>is_ascii b\<close> by (auto split: if_splits)
  ultimately show False by (auto simp: case_masked_def)
qed

lemma field_of_root_folded:
  assumes "equal_fold_right ''root_token'' k"
  shows "field_of k = Some FRootToken"
proof -
  have "k \<noteq> ''recovery_keys''" "k \<noteq> ''recovery_keys_base64''"
    using assms by (auto simp: is_ascii_def case_masked_def)
  moreover have "\<not> equal_fold_right ''recovery_keys'' k" "\<not> equal_fold_right ''recovery_keys_base64'' k"
    using fold_root_not_re [OF assms] by simp_all
  ultimately show ?thesis using assms by (simp add: field_of_def resp_fields_def)
qed

text \<open>
  C35: a key that equals the tag \<open>root_token\<close> only up to case, or with the Kelvin
  sign U+212A for its \<open>k\<close>, is taken as the root token: \<open>Unmarshal\<close> matches
  member names to the struct's tags as \<open>equalFoldRight\<close> does, not byte for byte.
\<close>

theorem unmarshal_root_token_folded:
  assumes "equal_fold_right ''root_token'' k" "utf8_valid k" "utf8_valid t"
  shows "unmarshal_init_response (json_object [(k, JStr t)]) = Inr (zero_response\<lparr>resp_root_token := t\<rparr>)"
proof -
  have "json_obj_valid [(k, JStr t)]" using assms(2,3) by (simp add: json_obj_valid_def)
  then show ?thesis
    by (simp add: unmarshal_json_object decode_member_def field_of_root_folded [OF assms(1)]
        decode_string_def)
qed

theorem unmarshal_root_token_folded_witness:
  "equal_fold_right ''root_token'' (''ROOT_TO'' @ kelvin @ ''EN'')
   \<and> utf8_valid (''ROOT_TO'' @ kelvin @ ''EN'') \<and> utf8_valid ''s.t''
   \<and> unmarshal_init_response (json_object [(''ROOT_TO'' @ kelvin @ ''EN'', JStr ''s.t'')])
       = Inr (zero_response\<lparr>resp_root_token := ''s.t''\<rparr>)"
proof -
  have f: "equal_fold_right ''root_token'' (''ROOT_TO'' @ kelvin @ ''EN'')"
    by (simp add: kelvin_def long_s_def is_ascii_def case_masked_def)
  have v: "utf8_valid (''ROOT_TO'' @ kelvin @ ''EN'')"
    by (simp add: kelvin_def is_ascii_def utf8_len_def byte_in_def Let_def)
  have t: "utf8_valid ''s.t''" by (rule ascii_utf8_valid) (simp add: is_ascii_def)
  show ?thesis using f v t unmarshal_root_token_folded [OF f v t] by blast
qed

lemma unmarshal_empty_answers:
  "unmarshal_init_response ''{}'' = Inr zero_response"
  "unmarshal_init_response ''null'' = Inr zero_response"
  by (simp_all add: unmarshal_init_response_def go_json_value_def skip_ws_def is_ws_def
      eval_nat_numeral)

end
