(* ===== verification/Initializer.thy ===== *)
theory Initializer
  imports Health Unmarshal "HOL-Library.Multiset"
begin

text \<open>
  The initializer, \<open>initialize\<close> of \<open>src/main.go\<close> (lines 140--231): build the
  \<open>InitRequest\<close> from the configuration, \<open>PUT\<close> it to \<open>/v1/sys/init\<close>, give up on a
  transport error, a non-200 status or an undecodable body, and otherwise store the root
  token and then the recovery keys in the secret store, each failure of the store being
  fatal.  The Go map \<open>recoveryKeys\<close> is an association list updated with
  \<open>AList.update\<close>; \<open>json.Marshal\<close> writes a map's members sorted by key, which is
  \<open>sort_key fst\<close>.  The bytes sent and stored are those of \<open>JsonEnc\<close>: the init body
  \<open>init_request_data\<close> and the two \<open>SecretString\<close>s \<open>root_token_secret\<close> and
  \<open>recovery_keys_secret\<close>.  The \<open>json.Marshal\<close> calls of lines 147 and 189 cannot fail
  on these types, so their error branches are not modelled.  The body of the answer is
  decoded by \<open>unmarshal_init_response\<close> of \<open>Unmarshal\<close>, and the secrets written are
  shown to read back, through Go's reader of \<open>JsonDec\<close>, as what they hold.
\<close>

definition init_request_of :: "config \<Rightarrow> init_request" where
  "init_request_of cfg =
     \<lparr>req_stored_shares = vault_stored_shares cfg,
      req_recovery_shares = vault_recovery_shares cfg,
      req_recovery_threshold = vault_recovery_threshold cfg\<rparr>"

text \<open>
  The body of the init request: \<open>json.Marshal(&initRequest)\<close> (line 147) of the
  \<open>InitRequest\<close> struct (lines 36--41), its three \<open>int\<close> fields named by their tags.
\<close>

definition init_request_json :: "init_request \<Rightarrow> string" where
  "init_request_json r =
     json_object [(''stored_shares'', JInt (req_stored_shares r)),
                  (''recovery_shares'', JInt (req_recovery_shares r)),
                  (''recovery_threshold'', JInt (req_recovery_threshold r))]"

definition init_request_data :: "config \<Rightarrow> string" where
  "init_request_data cfg = init_request_json (init_request_of cfg)"

definition init_url :: "config \<Rightarrow> string" where
  "init_url cfg = vault_addr cfg @ ''/v1/sys/init''"

text \<open>The \<open>RootTokenSecretKV\<close> struct, marshalled: one member \<open>"root-token"\<close>.\<close>

definition root_token_payload :: "init_response \<Rightarrow> json_obj" where
  "root_token_payload resp = [(''root-token'', resp_root_token resp)]"

text \<open>The \<open>SecretString\<close> of the root-token write: the struct, marshalled (lines 185--197).\<close>

definition root_token_secret :: "init_response \<Rightarrow> string" where
  "root_token_secret resp = json_str_object (root_token_payload resp)"

text \<open>
  Lines 211--215: \<open>recoveryKeys["recovery-key-"+strconv.Itoa(index+1)] = element\<close> for
  each index of \<open>initResponse.Keys\<close>, \<open>index + 1\<close> computed on Go's \<open>int\<close>.
\<close>

definition recovery_label :: "nat \<Rightarrow> string" where
  "recovery_label i = ''recovery-key-'' @ go_itoa (word_of_nat i + 1)"

definition recovery_keys_map :: "string list \<Rightarrow> (string \<times> string) list" where
  "recovery_keys_map keys =
     fold (\<lambda>(i, k) m. AList.update (recovery_label i) k m) (enumerate 0 keys) []"

definition recovery_payload :: "string list \<Rightarrow> json_obj" where
  "recovery_payload keys = sort_key fst (recovery_keys_map keys)"

text \<open>The \<open>SecretString\<close> of the recovery-keys write (lines 217--222).\<close>

definition recovery_keys_secret :: "string list \<Rightarrow> string" where
  "recovery_keys_secret keys = json_str_object (recovery_payload keys)"

text \<open>
  The whole of \<open>initialize\<close>.  The result is \<open>Inr ()\<close> when the function returns
  (after a logged error or after \<open>"Initialization complete."\<close>) and \<open>Inl code\<close> when
  the process exits: \<open>log.Fatal\<close> (status 1) after a failed store, and the panic of
  \<open>session.Must\<close> (status 2) when no AWS session can be made.
\<close>

definition initialize :: "'w go_env \<Rightarrow> config \<Rightarrow> 'w proc \<Rightarrow> ('w, unit) step" where
  "initialize e cfg p =
     (case call_init e (init_url cfg) (init_request_data cfg) p of
        (InitErr msg, p) \<Rightarrow> (Inr (), log_line (LError msg) p)
      | (InitResp code body, p) \<Rightarrow>
          if code \<noteq> 200 then (Inr (), log_line (LNon200 code) p)
          else (case unmarshal_init_response body of
            Inl err \<Rightarrow> (Inr (), log_line (LJsonError err) p)
          | Inr resp \<Rightarrow>
              (case call_new_session e (log_line LStoring p) of
                (Inl msg, p) \<Rightarrow> exit_with 2 p
              | (Inr _, p) \<Rightarrow>
                  (case call_put_secret e (root_token_secret_id cfg) (root_token_secret resp) p of
                    (Inl msg, p) \<Rightarrow> log_fatal (LFatal msg) p
                  | (Inr _, p) \<Rightarrow>
                      (case call_put_secret e (recovery_keys_secret_id cfg)
                              (recovery_keys_secret (resp_keys resp)) p of
                        (Inl msg, p) \<Rightarrow> log_fatal (LFatal msg) p
                      | (Inr _, p) \<Rightarrow> (Inr (), log_line LComplete p))))))"

subsection \<open>Labels of the recovery keys\<close>

lemma sint_of_nat_small: "n < 2 ^ 63 \<Longrightarrow> sint (word_of_nat n :: go_int) = int n"
  using sint_word_of_int_range [of "int n"] by (simp add: int64_range_def)

lemma go_itoa_of_nat: "n < 2 ^ 63 \<Longrightarrow> go_itoa (word_of_nat n) = nat_digits n"
  by (simp add: go_itoa_def sint_of_nat_small)

lemma recovery_label_digits:
  "Suc i < 2 ^ 63 \<Longrightarrow> recovery_label i = ''recovery-key-'' @ nat_digits (Suc i)"
  using go_itoa_of_nat [of "Suc i"] by (simp add: recovery_label_def add.commute)

lemma nat_digits_inj: "nat_digits m = nat_digits n \<Longrightarrow> m = n"
  by (metis digits_value_nat_digits)

lemma recovery_labels_distinct:
  "n < 2 ^ 63 \<Longrightarrow> distinct (map recovery_label [0..<n])"
  by (auto simp: distinct_map inj_on_def recovery_label_digits dest: nat_digits_inj)

subsection \<open>The recovery-key map\<close>

lemma fold_update_map_of:
  "map_of (fold (\<lambda>(k, v) m. AList.update k v m) kvs m0) = map_of m0 ++ map_of (rev kvs)"
  by (induction kvs arbitrary: m0) (auto simp: update_conv' map_add_upd [symmetric])

lemma fold_update_keys:
  "fst ` set (fold (\<lambda>(k, v) m. AList.update k v m) kvs m0) = fst ` set m0 \<union> fst ` set kvs"
proof (induction kvs arbitrary: m0)
  case (Cons kv kvs)
  obtain k v where kv: "kv = (k, v)" by (cases kv)
  show ?case using Cons.IH [of "AList.update k v m0"] by (auto simp: kv dom_update)
qed simp

lemma fold_update_distinct:
  "distinct (map fst m0) \<Longrightarrow> distinct (map fst (fold (\<lambda>(k, v) m. AList.update k v m) kvs m0))"
  by (induction kvs arbitrary: m0) (auto simp: distinct_update)

lemma recovery_keys_map_fold:
  "recovery_keys_map keys =
     fold (\<lambda>(k, v) m. AList.update k v m) (zip (map recovery_label [0..<length keys]) keys) []"
  by (simp add: recovery_keys_map_def enumerate_eq_zip zip_map1 fold_map comp_def split_def)

lemma map_of_rev_distinct: "distinct (map fst kvs) \<Longrightarrow> map_of (rev kvs) = map_of kvs"
  by (subst map_of_inject_set) (simp_all add: rev_map [symmetric])

lemma recovery_keys_map_of:
  assumes "length keys < 2 ^ 63"
  shows "map_of (recovery_keys_map keys) = map_of (zip (map recovery_label [0..<length keys]) keys)"
proof -
  have "distinct (map fst (zip (map recovery_label [0..<length keys]) keys))"
    using recovery_labels_distinct [OF assms] by simp
  then show ?thesis by (simp add: recovery_keys_map_fold fold_update_map_of map_of_rev_distinct)
qed

lemma recovery_keys_map_distinct: "distinct (map fst (recovery_keys_map keys))"
  by (simp add: recovery_keys_map_fold fold_update_distinct)

lemma recovery_keys_map_keys:
  "fst ` set (recovery_keys_map keys) = recovery_label ` {..<length keys}"
proof -
  let ?ls = "map recovery_label [0..<length keys]"
  have eq: "map fst (zip ?ls keys) = ?ls" by (simp add: map_fst_zip)
  have "fst ` set (recovery_keys_map keys) = fst ` set (zip ?ls keys)"
    by (simp add: recovery_keys_map_fold fold_update_keys)
  also have "\<dots> = set (map fst (zip ?ls keys))" by (simp only: set_map)
  also have "\<dots> = set ?ls" by (simp only: eq)
  also have "\<dots> = recovery_label ` {..<length keys}" by (simp add: atLeast0LessThan)
  finally show ?thesis .
qed

lemma recovery_keys_map_length:
  assumes "length keys < 2 ^ 63"
  shows "length (recovery_keys_map keys) = length keys"
proof -
  have "length (recovery_keys_map keys) = card (fst ` set (recovery_keys_map keys))"
    using distinct_card [OF recovery_keys_map_distinct [of keys]] by simp
  also have "\<dots> = card (set (map recovery_label [0..<length keys]))"
    by (simp add: recovery_keys_map_keys atLeast0LessThan)
  also have "\<dots> = length keys"
    using distinct_card [OF recovery_labels_distinct [OF assms]] by simp
  finally show ?thesis .
qed

subsection \<open>The marshalled payload\<close>

lemma sort_key_fst_distinct:
  "distinct (map fst xs) \<Longrightarrow> distinct (map fst (sort_key fst xs))"
  by (simp add: distinct_map inj_on_def)

lemma sort_key_fst_map_of:
  "distinct (map fst xs) \<Longrightarrow> map_of (sort_key fst xs) = map_of xs"
  by (simp add: map_of_inject_set sort_key_fst_distinct)

lemma recovery_payload_map_of:
  "length keys < 2 ^ 63 \<Longrightarrow>
   map_of (recovery_payload keys) = map_of (zip (map recovery_label [0..<length keys]) keys)"
  by (simp add: recovery_payload_def sort_key_fst_map_of recovery_keys_map_distinct
      recovery_keys_map_of)

lemma recovery_label_nth:
  "i < length keys \<Longrightarrow> length keys < 2 ^ 63 \<Longrightarrow>
   map recovery_label [0..<length keys] ! i = ''recovery-key-'' @ nat_digits (Suc i)"
  by (simp add: recovery_label_digits)

lemma recovery_payload_lookup:
  assumes "length keys < 2 ^ 63" "i < length keys"
  shows "map_of (recovery_payload keys) (''recovery-key-'' @ nat_digits (Suc i)) = Some (keys ! i)"
proof -
  have "map_of (zip (map recovery_label [0..<length keys]) keys)
          (map recovery_label [0..<length keys] ! i) = Some (keys ! i)"
    using recovery_labels_distinct [OF assms(1)] assms(2) by (intro map_of_zip_nth) simp_all
  then show ?thesis
    using recovery_payload_map_of [OF assms(1)] recovery_label_nth [OF assms(2,1)] by simp
qed

text \<open>C3: the recovery-key payload has one member per key, labelled by its 1-based position.\<close>

theorem recovery_payload_labels:
  assumes "length keys < 2 ^ 63"
  shows "length (recovery_payload keys) = length keys
    \<and> distinct (map fst (recovery_payload keys))
    \<and> fst ` set (recovery_payload keys) = {''recovery-key-'' @ nat_digits (Suc i) | i. i < length keys}
    \<and> (\<forall>i < length keys.
          map_of (recovery_payload keys) (''recovery-key-'' @ nat_digits (Suc i)) = Some (keys ! i))"
proof (intro conjI allI impI)
  show "length (recovery_payload keys) = length keys"
    using recovery_keys_map_length [OF assms] by (simp add: recovery_payload_def)
  show "distinct (map fst (recovery_payload keys))"
    by (simp add: recovery_payload_def sort_key_fst_distinct recovery_keys_map_distinct)
  have "fst ` set (recovery_payload keys) = recovery_label ` {..<length keys}"
    by (simp add: recovery_payload_def recovery_keys_map_keys)
  also have "\<dots> = {''recovery-key-'' @ nat_digits (Suc i) | i. i < length keys}"
    using assms by (auto simp: recovery_label_digits)
  finally show "fst ` set (recovery_payload keys) = {''recovery-key-'' @ nat_digits (Suc i) | i. i < length keys}" .
  fix i assume "i < length keys"
  with assms show "map_of (recovery_payload keys) (''recovery-key-'' @ nat_digits (Suc i)) = Some (keys ! i)"
    by (rule recovery_payload_lookup)
qed

theorem recovery_payload_labels_witness:
  "length [''k1'', ''k2''] < (2::nat) ^ 63
   \<and> length (recovery_payload [''k1'', ''k2'']) = 2
   \<and> map_of (recovery_payload [''k1'', ''k2'']) (''recovery-key-'' @ nat_digits 2) = Some ''k2''"
proof -
  have h: "length [''k1'', ''k2''] < (2::nat) ^ 63" by simp
  note r = recovery_payload_labels [OF h]
  have "map_of (recovery_payload [''k1'', ''k2'']) (''recovery-key-'' @ nat_digits (Suc 1))
          = Some ([''k1'', ''k2''] ! 1)"
    using r by simp
  with r h show ?thesis by (simp add: numeral_2_eq_2)
qed

subsection \<open>The loop against a reference, and the marshalled secrets\<close>

lemma recovery_zip_distinct:
  "length keys < 2 ^ 63 \<Longrightarrow> distinct (map fst (zip (map recovery_label [0..<length keys]) keys))"
  using recovery_labels_distinct [of "length keys"] by (simp add: map_fst_zip)

text \<open>
  C27: the map built by the loop of lines 211--215 and marshalled by \<open>json.Marshal\<close> is
  the list of pairs \<open>(label i, keys ! i)\<close>, sorted by label: the loop with its map
  updates is equivalent to zipping the labels with the keys.
\<close>

theorem recovery_payload_equiv:
  assumes "length keys < 2 ^ 63"
  shows "recovery_payload keys = sort_key fst (zip (map recovery_label [0..<length keys]) keys)"
proof -
  let ?z = "zip (map recovery_label [0..<length keys]) keys"
  have d1: "distinct (map fst (recovery_keys_map keys))" by (rule recovery_keys_map_distinct)
  have d2: "distinct (map fst ?z)" using assms by (rule recovery_zip_distinct)
  have "set (recovery_keys_map keys) = set ?z"
    using map_of_inject_set [OF d1 d2] recovery_keys_map_of [OF assms] by simp
  moreover have "distinct (recovery_keys_map keys)" "distinct ?z"
    using d1 d2 by (simp_all only: distinct_map)
  ultimately have "mset (recovery_keys_map keys) = mset ?z"
    by (simp add: set_eq_iff_mset_eq_distinct)
  moreover have "inj_on fst (set (recovery_keys_map keys))" using d1 by (simp add: distinct_map)
  ultimately show ?thesis
    unfolding recovery_payload_def by (rule sort_key_eq_sort_key)
qed

theorem recovery_payload_equiv_witness:
  "length [''k1'', ''k2''] < 2 ^ 63
   \<and> recovery_payload [''k1'', ''k2''] =
       sort_key fst (zip (map recovery_label [0..<length [''k1'', ''k2'']]) [''k1'', ''k2''])"
  using recovery_payload_equiv [of "[''k1'', ''k2'']"] by (simp only: length_Cons list.size) simp

lemma update_set: "set (AList.update k v m) \<subseteq> insert (k, v) (set m)"
  by (induction m) auto

lemma fold_update_set:
  "set (fold (\<lambda>(k, v) m. AList.update k v m) kvs m0) \<subseteq> set m0 \<union> set kvs"
proof (induction kvs arbitrary: m0)
  case (Cons kv kvs)
  obtain k v where kv: "kv = (k, v)" by fastforce
  show ?case using Cons.IH [of "AList.update k v m0"] update_set [of k v m0] by (auto simp: kv)
qed simp

lemma sign_digit_ascii: "c = CHR ''-'' \<or> is_digit c \<Longrightarrow> is_ascii c"
  by (auto simp: is_digit_def is_ascii_def less_eq_char_def)

lemma go_itoa_ascii: "list_all is_ascii (go_itoa w)"
  using go_itoa_chars [of w] by (rule list.pred_mono_strong) (rule sign_digit_ascii)

lemma recovery_label_valid: "utf8_valid (recovery_label i)"
  by (rule ascii_utf8_valid) (simp add: recovery_label_def go_itoa_ascii is_ascii_def)

lemma recovery_payload_members:
  assumes "(k, v) \<in> set (recovery_payload keys)"
  shows "(\<exists>i. k = recovery_label i) \<and> v \<in> set keys"
proof -
  have "(k, v) \<in> set (zip (map recovery_label [0..<length keys]) keys)"
    using assms fold_update_set [of "zip (map recovery_label [0..<length keys]) keys" "[]"]
    by (auto simp: recovery_payload_def recovery_keys_map_fold)
  then have "k \<in> set (map recovery_label [0..<length keys])" "v \<in> set keys"
    by (blast dest: set_zip_leftD set_zip_rightD)+
  then show ?thesis by auto
qed

lemma recovery_payload_valid:
  "list_all utf8_valid keys \<Longrightarrow> json_obj_valid (map (\<lambda>(k, v). (k, JStr v)) (recovery_payload keys))"
  using recovery_payload_members recovery_label_valid
  by (fastforce simp: json_obj_valid_def list_all_iff)

lemma fst_comp_snd_fun: "fst \<circ> (\<lambda>(k, v). (k, f v)) = fst"
  by auto

text \<open>
  C28: the \<open>SecretString\<close> written under the recovery-keys id reads back, through Go's
  JSON reader, as an object with one member per key, its member names distinct and in
  string order, and the member \<open>recovery-key-(i+1)\<close> holding the string
  \<open>keys[i]\<close>, whenever the keys are valid UTF-8 (Vault's keys are hexadecimal).
\<close>

theorem recovery_secret_rt:
  assumes "list_all utf8_valid keys" and "length keys < 2 ^ 63"
  shows "\<exists>ms. go_json_value (recovery_keys_secret keys) = Some (JVObj ms) \<and> length ms = length keys
     \<and> distinct (map fst ms) \<and> sorted (map fst ms)
     \<and> (\<forall>i < length keys. map_of ms (''recovery-key-'' @ nat_digits (Suc i)) = Some (JVStr (keys ! i)))"
proof (intro exI conjI allI impI)
  let ?ms = "map (\<lambda>(k, v). (k, JVStr v)) (recovery_payload keys)"
  show "go_json_value (recovery_keys_secret keys) = Some (JVObj ?ms)"
    using recovery_payload_valid [OF assms(1)]
    by (simp add: recovery_keys_secret_def json_str_object_def go_json_object case_prod_beta)
  show "length ?ms = length keys"
    using recovery_keys_map_length [OF assms(2)] by (simp add: recovery_payload_def)
  show "distinct (map fst ?ms)"
    by (simp add: fst_comp_snd_fun recovery_payload_def sort_key_fst_distinct
        recovery_keys_map_distinct)
  show "sorted (map fst ?ms)"
    by (simp add: fst_comp_snd_fun recovery_payload_def)
  fix i assume "i < length keys"
  with recovery_payload_lookup [OF assms(2)]
  show "map_of ?ms (''recovery-key-'' @ nat_digits (Suc i)) = Some (JVStr (keys ! i))"
    by (simp add: map_of_map)
qed

text \<open>C29: the root-token secret reads back as the one member \<open>root-token\<close> with the token.\<close>

theorem root_token_secret_rt:
  "utf8_valid (resp_root_token resp) \<Longrightarrow>
   go_json_value (root_token_secret resp) = Some (JVObj [(''root-token'', JVStr (resp_root_token resp))])"
  by (simp add: root_token_secret_def json_str_object_def root_token_payload_def go_json_object
      json_obj_valid_def ascii_utf8_valid is_ascii_def del: utf8_valid.simps)

text \<open>
  C30: the body of the init request reads back as the three configured counts under the
  names of the struct tags of \<open>InitRequest\<close>, in their order.
\<close>

theorem init_request_data_rt:
  "go_json_value (init_request_data cfg) =
     Some (JVObj [(''stored_shares'', JVNum (go_itoa (vault_stored_shares cfg))),
                  (''recovery_shares'', JVNum (go_itoa (vault_recovery_shares cfg))),
                  (''recovery_threshold'', JVNum (go_itoa (vault_recovery_threshold cfg)))])"
  by (simp add: init_request_data_def init_request_json_def init_request_of_def go_json_object
      json_obj_valid_def ascii_utf8_valid is_ascii_def del: utf8_valid.simps)

lemma json_quote_ascii_plain:
  "list_all (\<lambda>c. is_ascii c \<and> html_safe c) s \<Longrightarrow> json_quote s = CHR 0x22 # s @ [CHR 0x22]"
proof -
  assume "list_all (\<lambda>c. is_ascii c \<and> html_safe c) s"
  then have "json_esc s = s" by (induction s) (simp_all add: esc_ascii_def)
  then show ?thesis by (simp add: json_quote_def)
qed

text \<open>
  The exact bytes of the init request body:
  \<open>{"stored_shares":N,"recovery_shares":M,"recovery_threshold":K}\<close> with the numbers in
  decimal.
\<close>

theorem init_request_data_bytes:
  "init_request_data cfg =
     ''{'' @ [CHR 0x22] @ ''stored_shares'' @ [CHR 0x22] @ '':'' @ go_itoa (vault_stored_shares cfg)
     @ '','' @ [CHR 0x22] @ ''recovery_shares'' @ [CHR 0x22] @ '':'' @ go_itoa (vault_recovery_shares cfg)
     @ '','' @ [CHR 0x22] @ ''recovery_threshold'' @ [CHR 0x22] @ '':''
     @ go_itoa (vault_recovery_threshold cfg) @ ''}''"
  by (simp add: init_request_data_def init_request_json_def init_request_of_def json_object_def
      json_quote_ascii_plain is_ascii_def html_safe_def less_eq_char_def)

theorem recovery_secret_rt_witness:
  "list_all utf8_valid [''k1'', ''k2''] \<and> length [''k1'', ''k2''] < (2::nat) ^ 63
   \<and> (\<exists>ms. go_json_value (recovery_keys_secret [''k1'', ''k2'']) = Some (JVObj ms)
        \<and> length ms = 2 \<and> map_of ms (''recovery-key-'' @ nat_digits 2) = Some (JVStr ''k2''))"
proof -
  have u: "list_all utf8_valid [''k1'', ''k2'']"
    by (simp add: ascii_utf8_valid is_ascii_def)
  have h: "length [''k1'', ''k2''] < (2::nat) ^ 63" by simp
  obtain ms where "go_json_value (recovery_keys_secret [''k1'', ''k2'']) = Some (JVObj ms)"
      "length ms = length [''k1'', ''k2'']"
      "\<forall>i < length [''k1'', ''k2'']. map_of ms (''recovery-key-'' @ nat_digits (Suc i))
         = Some (JVStr ([''k1'', ''k2''] ! i))"
    using recovery_secret_rt [OF u h] by blast
  then show ?thesis using u h by (auto simp: numeral_2_eq_2)
qed

theorem root_token_secret_rt_witness:
  "utf8_valid (resp_root_token \<lparr>resp_keys = [], resp_keys_base64 = [], resp_root_token = ''s.root''\<rparr>)
   \<and> go_json_value (root_token_secret \<lparr>resp_keys = [], resp_keys_base64 = [], resp_root_token = ''s.root''\<rparr>)
       = Some (JVObj [(''root-token'', JVStr ''s.root'')])"
  using root_token_secret_rt [of "\<lparr>resp_keys = [], resp_keys_base64 = [], resp_root_token = ''s.root''\<rparr>"]
  by (simp add: is_ascii_def)

subsection \<open>The branches of initialize\<close>

abbreviation init_call :: "config \<Rightarrow> init_reply \<Rightarrow> event" where
  "init_call cfg r \<equiv> InitCall (init_url cfg) (init_request_data cfg) r"

text \<open>
  C22: when the init request cannot be sent or its answer cannot be read, \<open>initialize\<close>
  logs the error and returns; nothing is stored and the loop goes on.
\<close>

theorem initialize_transport_error:
  assumes "env_init e (init_url cfg) (init_request_data cfg) (world p) = (InitErr msg, w)"
  shows "initialize e cfg p =
    (Inr (), p\<lparr>world := w, trace := trace p @ [init_call cfg (InitErr msg), Log (LError msg)]\<rparr>)"
  using assms by (simp add: initialize_def rt_simps)

text \<open>
  C7: when the init call answers with a status other than \<open>200\<close>, \<open>initialize\<close>
  logs the status and returns without touching the secret store; the loop goes on.
\<close>

theorem initialize_non200:
  assumes "env_init e (init_url cfg) (init_request_data cfg) (world p) = (InitResp code body, w)"
    and "code \<noteq> 200"
  shows "initialize e cfg p =
    (Inr (), p\<lparr>world := w, trace := trace p @ [init_call cfg (InitResp code body), Log (LNon200 code)]\<rparr>)"
  using assms by (simp add: initialize_def rt_simps)

text \<open>
  C23: when the init answer is \<open>200\<close> but \<open>json.Unmarshal\<close> rejects its body,
  \<open>initialize\<close> logs the error and returns, without a session, a secret write or a fatal
  exit.
\<close>

theorem initialize_decode_error:
  assumes "env_init e (init_url cfg) (init_request_data cfg) (world p) = (InitResp 200 body, w)"
    and "unmarshal_init_response body = Inl err"
  shows "initialize e cfg p =
    (Inr (), p\<lparr>world := w, trace := trace p @ [init_call cfg (InitResp 200 body), Log (LJsonError err)]\<rparr>)"
  using assms by (simp add: initialize_def rt_simps)

text \<open>
  C24: when no AWS session can be created, \<open>session.Must\<close> panics and the process
  exits with status 2 before any secret is written.
\<close>

theorem initialize_session_panic:
  assumes "env_init e (init_url cfg) (init_request_data cfg) (world p) = (InitResp 200 body, w1)"
    and "unmarshal_init_response body = Inr resp"
    and "env_new_session e w1 = (Inl msg, w2)"
  shows "initialize e cfg p =
    (Inl 2, p\<lparr>world := w2, trace := trace p @ [init_call cfg (InitResp 200 body), Log LStoring,
       NewSession (Inl msg), Exit 2]\<rparr>)"
  using assms by (simp add: initialize_def rt_simps)

text \<open>
  C5: when writing the root token to the secret store fails, \<open>initialize\<close> logs the
  error fatally and the process exits with status 1 before the recovery keys are written.
\<close>

theorem initialize_root_fail:
  assumes "env_init e (init_url cfg) (init_request_data cfg) (world p) = (InitResp 200 body, w1)"
    and "unmarshal_init_response body = Inr resp"
    and "env_new_session e w1 = (Inr (), w2)"
    and "env_put_secret e (root_token_secret_id cfg) (root_token_secret resp) w2 = (Inl msg, w3)"
  shows "initialize e cfg p =
    (Inl 1, p\<lparr>world := w3, trace := trace p @ [init_call cfg (InitResp 200 body), Log LStoring,
       NewSession (Inr ()), PutSecret (root_token_secret_id cfg) (root_token_secret resp) (Inl msg),
       Log (LFatal msg), Exit 1]\<rparr>)"
  using assms by (simp add: initialize_def rt_simps)

text \<open>
  C6: when the root token was stored but writing the recovery keys fails, \<open>initialize\<close>
  logs the error fatally and the process exits with status 1, after exactly the calls listed.
\<close>

theorem initialize_recovery_fail:
  assumes "env_init e (init_url cfg) (init_request_data cfg) (world p) = (InitResp 200 body, w1)"
    and "unmarshal_init_response body = Inr resp"
    and "env_new_session e w1 = (Inr (), w2)"
    and "env_put_secret e (root_token_secret_id cfg) (root_token_secret resp) w2 = (Inr (), w3)"
    and "env_put_secret e (recovery_keys_secret_id cfg) (recovery_keys_secret (resp_keys resp)) w3
           = (Inl msg, w4)"
  shows "initialize e cfg p =
    (Inl 1, p\<lparr>world := w4, trace := trace p @ [init_call cfg (InitResp 200 body), Log LStoring,
       NewSession (Inr ()), PutSecret (root_token_secret_id cfg) (root_token_secret resp) (Inr ()),
       PutSecret (recovery_keys_secret_id cfg) (recovery_keys_secret (resp_keys resp)) (Inl msg),
       Log (LFatal msg), Exit 1]\<rparr>)"
  using assms by (simp add: initialize_def rt_simps)

text \<open>
  C4: on a \<open>200\<close> init answer whose body decodes and a working store, \<open>initialize\<close>
  logs \<open>Storing\<close>, opens one session, writes the root token under its secret id and then
  the labelled recovery keys under theirs, each once, logs completion and returns.
\<close>

theorem initialize_success:
  assumes "env_init e (init_url cfg) (init_request_data cfg) (world p) = (InitResp 200 body, w1)"
    and "unmarshal_init_response body = Inr resp"
    and "env_new_session e w1 = (Inr (), w2)"
    and "env_put_secret e (root_token_secret_id cfg) (root_token_secret resp) w2 = (Inr (), w3)"
    and "env_put_secret e (recovery_keys_secret_id cfg) (recovery_keys_secret (resp_keys resp)) w3
           = (Inr (), w4)"
  shows "initialize e cfg p =
    (Inr (), p\<lparr>world := w4, trace := trace p @ [init_call cfg (InitResp 200 body), Log LStoring,
       NewSession (Inr ()), PutSecret (root_token_secret_id cfg) (root_token_secret resp) (Inr ()),
       PutSecret (recovery_keys_secret_id cfg) (recovery_keys_secret (resp_keys resp)) (Inr ()),
       Log LComplete]\<rparr>)"
  using assms by (simp add: initialize_def rt_simps)

end
