(* ===== verification/PollLoop.thy ===== *)
theory PollLoop
  imports Initializer
begin

text \<open>
  The control loop of \<open>main\<close> (lines 87--137 of \<open>src/main.go\<close>) and \<open>main\<close> itself
  (lines 55--138).  One round of \<open>for { ... }\<close> is \<open>poll_cycle\<close>: the non-blocking
  \<open>select\<close> on the signal channel, the health probe, on a transport error the log line
  and the uninterruptible \<open>time.Sleep\<close> followed by \<open>continue\<close>, otherwise the
  \<open>switch\<close> (its \<open>501\<close> branch calls \<open>initialize\<close>), the \<open>"Next check in"\<close> line and
  the blocking \<open>select\<close> between the signal channel and the timer.  The loop itself never
  ends on its own, so \<open>run_loop n\<close> runs at most \<open>n\<close> rounds: its result \<open>Inr ()\<close>
  says that the process is still running after them.  The reachable states of the loop
  are the inductive \<open>loop_reach\<close>; \<open>mon_run\<close> is a monitor automaton over the trace
  that accepts exactly the traces in which every init call comes right after a probe that
  answered \<open>501\<close> and its two log lines, and every such probe is followed by an init call.
\<close>

definition health_action ::
  "'w go_env \<Rightarrow> config \<Rightarrow> cluster_state \<Rightarrow> 'w proc \<Rightarrow> ('w, unit) step" where
  "health_action e cfg st p =
     (let p = log_lines (state_logs st) p in
      if st = Uninitialized then initialize e cfg p else (Inr (), p))"

definition poll_cycle :: "'w go_env \<Rightarrow> config \<Rightarrow> 'w proc \<Rightarrow> ('w, unit) step" where
  "poll_cycle e cfg p =
     (case call_signal_ready e p of
        (True, p) \<Rightarrow> stop p
      | (False, p) \<Rightarrow>
          (case probe e cfg p of
             (Inl msg, p) \<Rightarrow> (Inr (), call_sleep e (check_interval cfg) (log_line (LError msg) p))
           | (Inr st, p) \<Rightarrow>
               (case health_action e cfg st p of
                  (Inl c, p) \<Rightarrow> (Inl c, p)
                | (Inr _, p) \<Rightarrow>
                    (case call_wait e (check_interval cfg)
                            (log_line (LNextCheck (check_interval cfg)) p) of
                       (True, p) \<Rightarrow> stop p
                     | (False, p) \<Rightarrow> (Inr (), p)))))"

fun run_loop :: "nat \<Rightarrow> 'w go_env \<Rightarrow> config \<Rightarrow> 'w proc \<Rightarrow> ('w, unit) step" where
  "run_loop 0 e cfg p = (Inr (), p)"
| "run_loop (Suc n) e cfg p =
     (case poll_cycle e cfg p of
        (Inl c, p') \<Rightarrow> (Inl c, p')
      | (Inr _, p') \<Rightarrow> run_loop n e cfg p')"

text \<open>
  \<open>main\<close>: the start-up log line, the configuration (a fatal exit on a missing secret id
  or an unparsable value), then the loop.  Building the HTTP client and registering the
  signal channel have no effect the model observes; their behaviour is that of the
  \<open>go_env\<close> operations.
\<close>

definition vault_main :: "nat \<Rightarrow> 'w go_env \<Rightarrow> environ \<Rightarrow> 'w \<Rightarrow> ('w, unit) step" where
  "vault_main n e env w =
     (let p = log_line LStarting \<lparr>world = w, trace = []\<rparr> in
      case load_config env of
        Inl err \<Rightarrow> log_fatal (LConfigFatal err) p
      | Inr cfg \<Rightarrow> run_loop n e cfg p)"

inductive loop_reach :: "'w go_env \<Rightarrow> config \<Rightarrow> 'w proc \<Rightarrow> 'w proc \<Rightarrow> bool"
  for e cfg p0 where
  start: "loop_reach e cfg p0 p0"
| step: "loop_reach e cfg p0 p \<Longrightarrow> poll_cycle e cfg p = (Inr u, p') \<Longrightarrow> loop_reach e cfg p0 p'"

subsection \<open>The monitor of init calls\<close>

fun is_init_call :: "event \<Rightarrow> bool" where
  "is_init_call (InitCall _ _ _) = True"
| "is_init_call _ = False"

fun is_head_501 :: "event \<Rightarrow> bool" where
  "is_head_501 (Head _ (HeadResp c)) = (c = 501)"
| "is_head_501 _ = False"

datatype mon = MIdle | MSaw501 | MNotInit | MInitializing

fun mon_step :: "mon \<Rightarrow> event \<Rightarrow> mon option" where
  "mon_step MIdle ev =
     (if is_init_call ev then None else if is_head_501 ev then Some MSaw501 else Some MIdle)"
| "mon_step MSaw501 ev = (if ev = Log LNotInitialized then Some MNotInit else None)"
| "mon_step MNotInit ev = (if ev = Log LInitializing then Some MInitializing else None)"
| "mon_step MInitializing ev = (if is_init_call ev then Some MIdle else None)"

fun mon_run :: "mon \<Rightarrow> event list \<Rightarrow> mon option" where
  "mon_run m [] = Some m"
| "mon_run m (ev # evs) = (case mon_step m ev of None \<Rightarrow> None | Some m' \<Rightarrow> mon_run m' evs)"

definition quiet :: "event list \<Rightarrow> bool" where
  "quiet es \<longleftrightarrow> list_all (\<lambda>ev. \<not> is_init_call ev \<and> \<not> is_head_501 ev) es"

subsection \<open>Exits\<close>

text \<open>
  \<open>exit_trace r es\<close>: the events \<open>es\<close> of a run with result \<open>r\<close> hold no exit while the
  process runs; a run that ended has exactly one exit, its last event, with a status of
  \<open>0\<close>, \<open>1\<close> or \<open>2\<close>, and status \<open>0\<close> comes only from \<open>stop\<close> right after a
  signal was received.
\<close>

fun is_exit :: "event \<Rightarrow> bool" where
  "is_exit (Exit _) = True"
| "is_exit _ = False"

fun signal_received :: "event \<Rightarrow> bool" where
  "signal_received (SignalPoll b) = b"
| "signal_received (Wait _ b) = b"
| "signal_received _ = False"

fun shutdown_suffix :: "event list \<Rightarrow> bool" where
  "shutdown_suffix [ev, m, x] \<longleftrightarrow> signal_received ev \<and> m = Log LShuttingDown \<and> x = Exit 0"
| "shutdown_suffix _ = False"

definition exit_trace :: "exit_code + unit \<Rightarrow> event list \<Rightarrow> bool" where
  "exit_trace r es =
     (case r of
        Inr _ \<Rightarrow> \<not> list_ex is_exit es
      | Inl c \<Rightarrow> c \<in> {0, 1, 2} \<and> es \<noteq> [] \<and> last es = Exit c \<and> \<not> list_ex is_exit (butlast es)
                 \<and> (c = 0 \<longrightarrow> shutdown_suffix (drop (length es - 3) es)))"

subsection \<open>The init-call monitor on runs\<close>

lemma mon_run_append:
  "mon_run m (xs @ ys) = (case mon_run m xs of None \<Rightarrow> None | Some m' \<Rightarrow> mon_run m' ys)"
  by (induction m xs rule: mon_run.induct) (auto split: option.splits)

lemma mon_run_quiet: "quiet es \<Longrightarrow> mon_run MIdle es = Some MIdle"
  by (induction es) (simp_all add: quiet_def)

lemma quiet_append [simp]: "quiet (xs @ ys) \<longleftrightarrow> quiet xs \<and> quiet ys"
  by (simp add: quiet_def)

lemma quiet_simps [simp]:
  "quiet []"
  "quiet (Log m # es) \<longleftrightarrow> quiet es"
  "quiet (SignalPoll b # es) \<longleftrightarrow> quiet es"
  "quiet (Sleep d # es) \<longleftrightarrow> quiet es"
  "quiet (Wait d b # es) \<longleftrightarrow> quiet es"
  "quiet (NewSession ns # es) \<longleftrightarrow> quiet es"
  "quiet (PutSecret sid obj pr # es) \<longleftrightarrow> quiet es"
  "quiet (Exit c # es) \<longleftrightarrow> quiet es"
  "quiet (Head u (HeadErr msg) # es) \<longleftrightarrow> quiet es"
  "quiet (Head u (HeadResp c) # es) \<longleftrightarrow> c \<noteq> 501 \<and> quiet es"
  "quiet (InitCall u req ir # es) \<longleftrightarrow> False"
  by (simp_all add: quiet_def)

lemma quiet_map_Log [simp]: "quiet (map Log ms)"
  by (simp add: quiet_def list_all_iff)

lemma initialize_shape:
  assumes "initialize e cfg p = (r, p')"
  shows "\<exists>rep es. trace p' = trace p @ init_call cfg rep # es \<and> quiet es"
  using assms
  by (auto simp: initialize_def rt_simps split: prod.splits init_reply.splits sum.splits if_splits)

lemma classify_501 [simp]: "classify code = Uninitialized \<longleftrightarrow> code = 501"
  by (simp add: classify_def)

lemma state_logs_uninit [simp]: "state_logs (classify 501) = [LNotInitialized, LInitializing]"
  by (simp add: classify_def)

lemma wait_tail_quiet:
  "call_wait e d (log_line m p) = (b, q) \<Longrightarrow>
   \<exists>es. trace (snd (if b then stop q else (Inr (), q))) = trace p @ es \<and> quiet es"
  by (auto simp: rt_simps split: prod.splits)

lemma poll_cycle_mon:
  assumes "poll_cycle e cfg p = (r, p')"
  shows "\<exists>es. trace p' = trace p @ es \<and> mon_run MIdle es = Some MIdle"
proof -
  obtain b w1 where sig: "env_signal_ready e (world p) = (b, w1)" by fastforce
  obtain h w2 where hd: "env_head e (health_url cfg) w1 = (h, w2)" by fastforce
  let ?p2 = "p\<lparr>world := w2, trace := trace p @ [SignalPoll False, Head (health_url cfg) h]\<rparr>"
  consider (signal) "b" | (err) msg where "\<not> b" "h = HeadErr msg"
    | (other) code where "\<not> b" "h = HeadResp code" "code \<noteq> 501"
    | (uninit) "\<not> b" "h = HeadResp 501"
    by (cases h) auto
  then show ?thesis
  proof cases
    case signal
    with assms sig show ?thesis by (auto simp: poll_cycle_def rt_simps)
  next
    case err
    with assms sig hd show ?thesis
      by (auto simp: poll_cycle_def probe_def rt_simps intro: mon_run_quiet)
  next
    case other
    with assms sig hd show ?thesis
      by (auto simp: poll_cycle_def probe_def health_action_def rt_simps
          split: prod.splits bool.splits intro!: mon_run_quiet)
  next
    case uninit
    let ?p3 = "log_lines [LNotInitialized, LInitializing] ?p2"
    obtain ri p4 where ini: "initialize e cfg ?p3 = (ri, p4)" by fastforce
    from initialize_shape [OF ini] obtain rep es
      where t4: "trace p4 = trace ?p3 @ init_call cfg rep # es" and q: "quiet es" by blast
    have pre: "mon_run MIdle [SignalPoll False, Head (health_url cfg) (HeadResp 501),
        Log LNotInitialized, Log LInitializing, init_call cfg rep] = Some MIdle" by simp
    have cyc: "poll_cycle e cfg p =
      (case (ri, p4) of (Inl c, p) \<Rightarrow> (Inl c, p)
       | (Inr _, p) \<Rightarrow> (case call_wait e (check_interval cfg)
                            (log_line (LNextCheck (check_interval cfg)) p) of
                       (True, p) \<Rightarrow> stop p | (False, p) \<Rightarrow> (Inr (), p)))"
      using uninit sig hd ini by (simp add: poll_cycle_def probe_def health_action_def rt_simps)
    show ?thesis
    proof (cases ri)
      case (Inl c)
      with cyc assms have "p' = p4" by simp
      with t4 q pre show ?thesis
        by (auto simp: rt_simps mon_run_append mon_run_quiet uninit)
    next
      case (Inr u)
      obtain b' q' where wt: "call_wait e (check_interval cfg)
          (log_line (LNextCheck (check_interval cfg)) p4) = (b', q')" by fastforce
      from wait_tail_quiet [OF wt] obtain fs
        where tf: "trace (snd (if b' then stop q' else (Inr (), q'))) = trace p4 @ fs"
          and qf: "quiet fs" by blast
      have "p' = snd (if b' then stop q' else (Inr (), q'))"
        using cyc assms Inr wt by (cases b') (simp_all add: prod_eq_iff)
      with tf t4 q qf pre show ?thesis
        by (auto simp: rt_simps mon_run_append mon_run_quiet uninit)
    qed
  qed
qed

lemma run_loop_mon:
  "run_loop n e cfg p = (r, p') \<Longrightarrow> mon_run MIdle (trace p) = Some MIdle \<Longrightarrow>
   mon_run MIdle (trace p') = Some MIdle"
proof (induction n arbitrary: p)
  case 0
  then show ?case by simp
next
  case (Suc n)
  obtain r1 p1 where pc: "poll_cycle e cfg p = (r1, p1)" by fastforce
  from poll_cycle_mon [OF pc] obtain es
    where "trace p1 = trace p @ es" "mon_run MIdle es = Some MIdle" by blast
  with Suc.prems(2) have m1: "mon_run MIdle (trace p1) = Some MIdle"
    by (simp add: mon_run_append)
  show ?case
  proof (cases r1)
    case (Inl c)
    with Suc.prems(1) pc m1 show ?thesis by simp
  next
    case (Inr u)
    with Suc.prems(1) pc have "run_loop n e cfg p1 = (r, p')" by simp
    from Suc.IH [OF this m1] show ?thesis .
  qed
qed

subsection \<open>The exit invariant, by induction over the reachable states\<close>

lemma exit_trace_append_Inr:
  "exit_trace (Inr u) (xs @ ys) \<longleftrightarrow> exit_trace (Inr u) xs \<and> exit_trace (Inr u) ys"
  by (simp add: exit_trace_def)

lemma shutdown_suffix_length: "shutdown_suffix xs \<Longrightarrow> length xs = 3"
  by (induction xs rule: shutdown_suffix.induct) simp_all

lemma shutdown_suffix_append:
  assumes "shutdown_suffix (drop (length ys - 3) ys)"
  shows "shutdown_suffix (drop (length (xs @ ys) - 3) (xs @ ys))"
proof -
  have "3 \<le> length ys" using shutdown_suffix_length [OF assms] by simp
  then show ?thesis using assms by simp
qed

lemma exit_trace_append_Inl:
  "exit_trace (Inr u) xs \<Longrightarrow> exit_trace (Inl c) ys \<Longrightarrow> exit_trace (Inl c) (xs @ ys)"
  using shutdown_suffix_append [of ys xs]
  by (auto simp: exit_trace_def butlast_append simp del: length_append drop_append)

lemma initialize_exit_trace:
  assumes "initialize e cfg p = (r, p')"
  shows "\<exists>es. trace p' = trace p @ es \<and> exit_trace r es \<and> r \<noteq> Inl 0"
  using assms
  by (auto simp: initialize_def rt_simps exit_trace_def split: prod.splits init_reply.splits sum.splits if_splits)

lemma health_action_exit_trace:
  assumes "health_action e cfg st p = (r, p')"
  shows "\<exists>es. trace p' = trace p @ es \<and> exit_trace r es \<and> r \<noteq> Inl 0"
proof (cases "st = Uninitialized")
  case True
  obtain es where "trace p' = trace (log_lines (state_logs st) p) @ es" "exit_trace r es" "r \<noteq> Inl 0"
    using initialize_exit_trace assms True by (fastforce simp: health_action_def)
  moreover have "exit_trace (Inr ()) (map Log (state_logs st))" by (simp add: exit_trace_def list_ex_iff)
  ultimately show ?thesis
    by (cases r) (auto simp: rt_simps exit_trace_append_Inr intro: exit_trace_append_Inl [of "()"])
next
  case False
  then show ?thesis using assms by (auto simp: health_action_def rt_simps exit_trace_def list_ex_iff)
qed

lemma wait_exit_trace:
  assumes "call_wait e d (log_line m p) = (b, q)"
  shows "\<exists>es. trace (snd (if b then stop q else (Inr (), q))) = trace p @ es
           \<and> exit_trace (fst (if b then stop q else (Inr (), q))) es"
  using assms by (auto simp: rt_simps exit_trace_def split: prod.splits)

lemma poll_cycle_exit_trace:
  assumes "poll_cycle e cfg p = (r, p')"
  shows "\<exists>es. trace p' = trace p @ es \<and> exit_trace r es"
proof -
  obtain b w1 where sig: "env_signal_ready e (world p) = (b, w1)" by fastforce
  obtain h w2 where hd: "env_head e (health_url cfg) w1 = (h, w2)" by fastforce
  let ?p2 = "p\<lparr>world := w2, trace := trace p @ [SignalPoll False, Head (health_url cfg) h]\<rparr>"
  consider (signal) "b" | (err) msg where "\<not> b" "h = HeadErr msg"
    | (resp) code where "\<not> b" "h = HeadResp code"
    by (cases h) auto
  then show ?thesis
  proof cases
    case signal
    with assms sig show ?thesis by (auto simp: poll_cycle_def rt_simps exit_trace_def)
  next
    case err
    with assms sig hd show ?thesis by (auto simp: poll_cycle_def probe_def rt_simps exit_trace_def)
  next
    case resp
    obtain ri p3 where ha: "health_action e cfg (classify code) ?p2 = (ri, p3)" by fastforce
    from health_action_exit_trace [OF ha] obtain es
      where t3: "trace p3 = trace ?p2 @ es" and x3: "exit_trace ri es" "ri \<noteq> Inl 0" by blast
    have pre: "exit_trace (Inr ()) [SignalPoll False, Head (health_url cfg) h]"
      by (simp add: exit_trace_def)
    have cyc: "poll_cycle e cfg p =
      (case (ri, p3) of (Inl c, p) \<Rightarrow> (Inl c, p)
       | (Inr _, p) \<Rightarrow> (case call_wait e (check_interval cfg)
                            (log_line (LNextCheck (check_interval cfg)) p) of
                       (True, p) \<Rightarrow> stop p | (False, p) \<Rightarrow> (Inr (), p)))"
      using resp sig hd ha by (simp add: poll_cycle_def probe_def rt_simps)
    show ?thesis
    proof (cases ri)
      case (Inl c)
      with cyc assms have "p' = p3" "r = Inl c" by simp_all
      with t3 x3 Inl exit_trace_append_Inl [OF pre, of c es] show ?thesis by simp
    next
      case (Inr u)
      obtain b' q' where wt: "call_wait e (check_interval cfg)
          (log_line (LNextCheck (check_interval cfg)) p3) = (b', q')" by fastforce
      from wait_exit_trace [OF wt] obtain fs
        where tf: "trace (snd (if b' then stop q' else (Inr (), q'))) = trace p3 @ fs"
          and xf: "exit_trace (fst (if b' then stop q' else (Inr (), q'))) fs" by blast
      have "(r, p') = (if b' then stop q' else (Inr (), q'))"
        using cyc assms Inr wt by (cases b') simp_all
      then have xf': "exit_trace r fs" and tf': "trace p' = trace p3 @ fs"
        using xf tf by (metis fst_conv snd_conv)+
      let ?pre = "[SignalPoll False, Head (health_url cfg) h] @ es"
      have pe: "exit_trace (Inr ()) ?pre" using pre x3 Inr by (simp add: exit_trace_def)
      have "trace p' = trace p @ ?pre @ fs" using tf' t3 by simp
      moreover have "exit_trace r (?pre @ fs)"
      proof (cases r)
        case (Inl c)
        then show ?thesis using exit_trace_append_Inl [OF pe, of c fs] xf' by simp
      next
        case (Inr v)
        then show ?thesis using pe xf' by (simp add: exit_trace_def)
      qed
      ultimately show ?thesis by (metis append_assoc)
    qed
  qed
qed

lemma loop_reach_trace:
  "loop_reach e cfg p0 p \<Longrightarrow> \<exists>es. trace p = trace p0 @ es \<and> exit_trace (Inr ()) es"
proof (induction rule: loop_reach.induct)
  case start
  then show ?case by (simp add: exit_trace_def)
next
  case (step p u p')
  from poll_cycle_exit_trace [OF step.hyps(2)] step.IH show ?case
    by (auto simp: exit_trace_def)
qed

lemma run_loop_reach:
  "run_loop n e cfg p = (r, p') \<Longrightarrow> loop_reach e cfg p0 p \<Longrightarrow>
   (case r of Inr _ \<Rightarrow> loop_reach e cfg p0 p'
    | Inl c \<Rightarrow> \<exists>q. loop_reach e cfg p0 q \<and> poll_cycle e cfg q = (Inl c, p'))"
proof (induction n arbitrary: p)
  case 0
  then show ?case by auto
next
  case (Suc n)
  obtain r1 p1 where pc: "poll_cycle e cfg p = (r1, p1)" by fastforce
  show ?case
  proof (cases r1)
    case (Inl c)
    with Suc.prems pc show ?thesis by auto
  next
    case (Inr u)
    with Suc.prems(2) pc have "loop_reach e cfg p0 p1" by (blast intro: loop_reach.step)
    moreover from Suc.prems(1) pc Inr have "run_loop n e cfg p1 = (r, p')" by simp
    ultimately show ?thesis using Suc.IH by blast
  qed
qed

lemma run_loop_exit_trace:
  assumes "run_loop n e cfg p = (r, p')"
  shows "\<exists>es. trace p' = trace p @ es \<and> exit_trace r es"
proof (cases r)
  case (Inl c)
  with run_loop_reach [OF assms loop_reach.start] obtain q
    where "loop_reach e cfg p q" "poll_cycle e cfg q = (Inl c, p')" by auto
  with loop_reach_trace poll_cycle_exit_trace obtain es fs
    where "trace q = trace p @ es" "exit_trace (Inr ()) es" "trace p' = trace q @ fs" "exit_trace (Inl c) fs"
    by metis
  with Inl exit_trace_append_Inl [of "()" es c fs] show ?thesis by auto
next
  case (Inr u)
  with run_loop_reach [OF assms loop_reach.start] have "loop_reach e cfg p p'" by simp
  with loop_reach_trace Inr show ?thesis by (auto simp: exit_trace_def)
qed

subsection \<open>Start-up failure and signals\<close>

text \<open>
  C16: when either secret id is unset, \<open>main\<close> logs the start line and the fatal message
  naming the first missing id and exits with status 1, before any probe or other call to
  the environment.
\<close>

theorem vault_main_missing_secret_id:
  assumes "getenv env ''ROOT_TOKEN_SECRET_ID'' = [] \<or> getenv env ''RECOVERY_KEYS_SECRET_ID'' = []"
  shows "vault_main n e env w =
    (Inl 1, \<lparr>world = w, trace = [Log LStarting,
       Log (LConfigFatal (ErrMissing (if getenv env ''ROOT_TOKEN_SECRET_ID'' = []
                                     then ''ROOT_TOKEN_SECRET_ID'' else ''RECOVERY_KEYS_SECRET_ID''))),
       Exit 1]\<rparr>)"
  using assms by (auto simp: vault_main_def load_config_def Let_def rt_simps)

text \<open>
  A signal already received when a round begins stops the process with status 0
  (the \<open>stop\<close> closure) before the health probe.
\<close>

theorem poll_cycle_signal_stops:
  assumes "env_signal_ready e (world p) = (True, w)"
  shows "poll_cycle e cfg p =
    (Inl 0, p\<lparr>world := w, trace := trace p @ [SignalPoll True, Log LShuttingDown, Exit 0]\<rparr>)"
  using assms by (simp add: poll_cycle_def rt_simps)

text \<open>
  C18: a health probe that fails with a transport error is logged and followed by the
  uninterruptible \<open>time.Sleep(checkInterval)\<close>; the round ends without a status line,
  without the \<open>Next check\<close> line and without waiting on the signal channel.
\<close>

theorem poll_cycle_probe_error:
  assumes "env_signal_ready e (world p) = (False, w1)"
    and "env_head e (health_url cfg) w1 = (HeadErr msg, w2)"
  shows "poll_cycle e cfg p =
    (Inr (), p\<lparr>world := env_sleep e (check_interval cfg) w2,
               trace := trace p @ [SignalPoll False, Head (health_url cfg) (HeadErr msg),
                                   Log (LError msg), Sleep (check_interval cfg)]\<rparr>)"
  using assms by (simp add: poll_cycle_def probe_def rt_simps)

text \<open>
  C19: a probe answered with any status other than \<open>501\<close> prints that status's line
  and the \<open>Next check\<close> line and waits on the signal channel and the timer, without an
  init call; a signal received during the wait stops the process with status 0.
\<close>

theorem poll_cycle_status:
  assumes "env_signal_ready e (world p) = (False, w1)"
    and "env_head e (health_url cfg) w1 = (HeadResp code, w2)" and "code \<noteq> 501"
    and "env_wait e (check_interval cfg) w2 = (b, w3)"
  shows "poll_cycle e cfg p =
    (let es = [SignalPoll False, Head (health_url cfg) (HeadResp code)]
              @ map Log (state_logs (classify code))
              @ [Log (LNextCheck (check_interval cfg)), Wait (check_interval cfg) b] in
     if b then (Inl 0, p\<lparr>world := w3, trace := trace p @ es @ [Log LShuttingDown, Exit 0]\<rparr>)
     else (Inr (), p\<lparr>world := w3, trace := trace p @ es\<rparr>))"
  using assms by (cases b) (simp_all add: poll_cycle_def probe_def health_action_def rt_simps Let_def)

end
