(* ===== verification/SimWorld.thy ===== *)
theory SimWorld
  imports PollLoop
begin

text \<open>
  A concrete world for the interface \<open>go_env\<close>: one Vault server, one secret store and the
  process's signal channel, with scripted faults.  The Vault server answers the health probe
  with \<open>501\<close> until it is initialized and with \<open>sim_ready_code\<close> afterwards, performs
  the initialization on the first init call that reaches it and refuses later ones with
  \<open>400\<close>.  A scripted init fault either stops the request before it reaches the server
  (\<open>ConnectFail\<close>) or loses or garbles the response after the server has initialized
  (\<open>ReadFail\<close>, \<open>Garbled\<close>).  The secret store is a map from secret ids to the stored
  JSON object.  The signal channel is the unbuffered channel of \<open>main\<close>: \<open>os/signal\<close>
  delivers a signal only to a receiver that is blocked on the channel, so the non-blocking
  \<open>select\<close> before each probe never receives one, and a signal is seen only when it arrives
  during the blocking \<open>select\<close> after a round (\<open>sim_signals\<close>).  Scripted faults and
  signals are consumed in order; an exhausted script means no more faults and no signal.
\<close>

datatype init_fault = NoFault | ConnectFail string | ReadFail string | Garbled string

record sim =
  sim_initialized :: bool
  sim_ready_code :: int
  sim_root :: string
  sim_keys :: "string list"
  sim_keys_b64 :: "string list"
  sim_init_count :: nat
  sim_head_faults :: "string option list"
  sim_init_faults :: "init_fault list"
  sim_session_fault :: "string option"
  sim_put_faults :: "string option list"
  sim_signals :: "bool list"
  sim_store :: "string \<rightharpoonup> string"

definition sim_head :: "string \<Rightarrow> sim \<Rightarrow> head_result \<times> sim" where
  "sim_head url w =
     (case pop None (sim_head_faults w) of
        (Some msg, fs) \<Rightarrow> (HeadErr msg, w\<lparr>sim_head_faults := fs\<rparr>)
      | (None, fs) \<Rightarrow>
          (HeadResp (if sim_initialized w then sim_ready_code w else 501),
           w\<lparr>sim_head_faults := fs\<rparr>))"

definition sim_response :: "sim \<Rightarrow> init_response" where
  "sim_response w =
     \<lparr>resp_keys = sim_keys w, resp_keys_base64 = sim_keys_b64 w, resp_root_token = sim_root w\<rparr>"

text \<open>The body of Vault's error answers: \<open>{"errors":[msg]}\<close>.\<close>

definition vault_error_body :: "string \<Rightarrow> string" where
  "vault_error_body msg = json_object [(''errors'', JStrs [msg])]"

definition sim_init :: "string \<Rightarrow> string \<Rightarrow> sim \<Rightarrow> init_reply \<times> sim" where
  "sim_init url req w =
     (case pop NoFault (sim_init_faults w) of
        (f, fs) \<Rightarrow>
          let w = w\<lparr>sim_init_faults := fs\<rparr> in
          (case f of
             ConnectFail msg \<Rightarrow> (InitErr msg, w)
           | _ \<Rightarrow>
               if sim_initialized w
               then (InitResp 400 (vault_error_body ''Vault is already initialized''), w)
               else (let w' = w\<lparr>sim_initialized := True, sim_init_count := Suc (sim_init_count w)\<rparr> in
                 (case f of
                    ReadFail msg \<Rightarrow> (InitErr msg, w')
                  | Garbled body \<Rightarrow> (InitResp 200 body, w')
                  | _ \<Rightarrow> (InitResp 200 (vault_init_body (sim_response w)), w')))))"

definition sim_put :: "string \<Rightarrow> string \<Rightarrow> sim \<Rightarrow> (string + unit) \<times> sim" where
  "sim_put sid obj w =
     (case pop None (sim_put_faults w) of
        (Some msg, fs) \<Rightarrow> (Inl msg, w\<lparr>sim_put_faults := fs\<rparr>)
      | (None, fs) \<Rightarrow> (Inr (), w\<lparr>sim_put_faults := fs, sim_store := (sim_store w)(sid \<mapsto> obj)\<rparr>))"

definition sim_wait :: "duration \<Rightarrow> sim \<Rightarrow> bool \<times> sim" where
  "sim_wait d w = (case pop False (sim_signals w) of (b, ss) \<Rightarrow> (b, w\<lparr>sim_signals := ss\<rparr>))"

definition sim_env :: "sim go_env" where
  "sim_env =
     \<lparr>env_signal_ready = (\<lambda>w. (False, w)),
      env_head = sim_head,
      env_sleep = (\<lambda>d w. w),
      env_wait = sim_wait,
      env_init = sim_init,
      env_new_session =
        (\<lambda>w. (case sim_session_fault w of None \<Rightarrow> Inr () | Some msg \<Rightarrow> Inl msg, w)),
      env_put_secret = sim_put\<rparr>"

text \<open>A fresh Vault server with the given credentials, no faults, an empty store.\<close>

definition fresh_sim :: "string \<Rightarrow> string list \<Rightarrow> sim" where
  "fresh_sim root keys =
     \<lparr>sim_initialized = False, sim_ready_code = 200, sim_root = root, sim_keys = keys,
      sim_keys_b64 = [], sim_init_count = 0, sim_head_faults = [], sim_init_faults = [],
      sim_session_fault = None, sim_put_faults = [], sim_signals = [], sim_store = Map.empty\<rparr>"

lemmas sim_defs [rt_simps] = sim_env_def sim_head_def sim_init_def sim_put_def sim_wait_def
  sim_response_def

lemmas run_defs = vault_main_def poll_cycle_def probe_def health_action_def initialize_def
  health_url_def init_url_def log_lines_def

subsection \<open>Steady state: an initialized server and no signal\<close>

definition idle_round :: "config \<Rightarrow> event list" where
  "idle_round cfg =
     [SignalPoll False, Head (health_url cfg) (HeadResp 200), Log LInitializedUnsealed,
      Log (LNextCheck (check_interval cfg)), Wait (check_interval cfg) False]"

definition steady :: "sim \<Rightarrow> bool" where
  "steady w \<longleftrightarrow> sim_initialized w \<and> sim_ready_code w = 200 \<and> sim_head_faults w = []
     \<and> sim_signals w = []"

lemma steady_updates:
  "steady w \<Longrightarrow> w\<lparr>sim_head_faults := []\<rparr> = w"
  "steady w \<Longrightarrow> w\<lparr>sim_signals := []\<rparr> = w"
  by (simp_all add: steady_def)

lemma sim_idle_cycle:
  assumes "steady (world p)"
  shows "poll_cycle sim_env cfg p = (Inr (), p\<lparr>trace := trace p @ idle_round cfg\<rparr>)"
  using assms steady_updates [OF assms]
  by (simp add: run_defs rt_simps steady_def idle_round_def classify_def)

lemma sim_steady_run:
  "steady (world p) \<Longrightarrow>
   run_loop n sim_env cfg p = (Inr (), p\<lparr>trace := trace p @ concat (replicate n (idle_round cfg))\<rparr>)"
proof (induction n arbitrary: p)
  case (Suc n)
  have "steady (world (p\<lparr>trace := trace p @ idle_round cfg\<rparr>))" using Suc.prems by simp
  from Suc.IH [OF this] Suc.prems show ?case
    by (simp add: sim_idle_cycle)
qed simp

subsection \<open>The first round against a fresh server\<close>

definition sim_resp :: "string \<Rightarrow> string list \<Rightarrow> init_response" where
  "sim_resp root keys = \<lparr>resp_keys = keys, resp_keys_base64 = [], resp_root_token = root\<rparr>"

definition init_round :: "config \<Rightarrow> string \<Rightarrow> string list \<Rightarrow> event list" where
  "init_round cfg root keys =
     [SignalPoll False, Head (health_url cfg) (HeadResp 501), Log LNotInitialized,
      Log LInitializing, InitCall (init_url cfg) (init_request_data cfg) (InitResp 200 (vault_init_body (sim_resp root keys))),
      Log LStoring, NewSession (Inr ()),
      PutSecret (root_token_secret_id cfg) (root_token_secret (sim_resp root keys)) (Inr ()),
      PutSecret (recovery_keys_secret_id cfg) (recovery_keys_secret keys) (Inr ()),
      Log LComplete, Log (LNextCheck (check_interval cfg)), Wait (check_interval cfg) False]"

definition stored_sim :: "config \<Rightarrow> string \<Rightarrow> string list \<Rightarrow> sim" where
  "stored_sim cfg root keys =
     (fresh_sim root keys)\<lparr>sim_initialized := True, sim_init_count := 1,
       sim_store := [root_token_secret_id cfg \<mapsto> (json_str_object [(''root-token'', root)]),
                     recovery_keys_secret_id cfg \<mapsto> recovery_keys_secret keys]\<rparr>"

lemma unmarshal_sim_resp:
  "resp_valid (sim_resp root keys) \<Longrightarrow>
   unmarshal_init_response (vault_init_body \<lparr>resp_keys = keys, resp_keys_base64 = [], resp_root_token = root\<rparr>)
   = Inr \<lparr>resp_keys = keys, resp_keys_base64 = [], resp_root_token = root\<rparr>"
  using unmarshal_vault_body [of "sim_resp root keys"] by (simp add: sim_resp_def)

lemma sim_first_cycle:
  assumes "resp_valid (sim_resp root keys)"
  shows "poll_cycle sim_env cfg \<lparr>world = fresh_sim root keys, trace = tr\<rparr> =
     (Inr (), \<lparr>world = stored_sim cfg root keys, trace = tr @ init_round cfg root keys\<rparr>)"
  using unmarshal_sim_resp [OF assms]
  by (simp add: run_defs rt_simps fresh_sim_def stored_sim_def init_round_def sim_resp_def
      classify_def root_token_secret_def root_token_payload_def)

lemma steady_stored_sim: "steady (stored_sim cfg root keys)"
  by (simp add: steady_def stored_sim_def fresh_sim_def)

definition lost_round :: "config \<Rightarrow> string \<Rightarrow> json_error \<Rightarrow> event list" where
  "lost_round cfg msg err =
     [SignalPoll False, Head (health_url cfg) (HeadResp 501), Log LNotInitialized,
      Log LInitializing, InitCall (init_url cfg) (init_request_data cfg) (InitResp 200 msg),
      Log (LJsonError err), Log (LNextCheck (check_interval cfg)), Wait (check_interval cfg) False]"

lemma sim_garbled_cycle:
  "unmarshal_init_response msg = Inl err \<Longrightarrow>
   poll_cycle sim_env cfg \<lparr>world = (fresh_sim root keys)\<lparr>sim_init_faults := [Garbled msg]\<rparr>, trace = tr\<rparr> =
     (Inr (), \<lparr>world = (fresh_sim root keys)\<lparr>sim_initialized := True, sim_init_count := 1\<rparr>,
              trace = tr @ lost_round cfg msg err\<rparr>)"
  by (simp add: run_defs rt_simps fresh_sim_def lost_round_def classify_def)

lemma steady_lost: "steady ((fresh_sim root keys)\<lparr>sim_initialized := True, sim_init_count := k\<rparr>)"
  by (simp add: steady_def fresh_sim_def)

definition failed_round :: "config \<Rightarrow> string \<Rightarrow> event list" where
  "failed_round cfg msg =
     [SignalPoll False, Head (health_url cfg) (HeadResp 501), Log LNotInitialized,
      Log LInitializing, InitCall (init_url cfg) (init_request_data cfg) (InitErr msg),
      Log (LError msg), Log (LNextCheck (check_interval cfg)), Wait (check_interval cfg) False]"

lemma sim_connect_fail_cycle:
  "poll_cycle sim_env cfg \<lparr>world = (fresh_sim root keys)\<lparr>sim_init_faults := [ConnectFail msg]\<rparr>, trace = tr\<rparr> =
     (Inr (), \<lparr>world = fresh_sim root keys, trace = tr @ failed_round cfg msg\<rparr>)"
  by (simp add: run_defs rt_simps fresh_sim_def failed_round_def classify_def)

definition partial_round :: "config \<Rightarrow> string \<Rightarrow> string list \<Rightarrow> string \<Rightarrow> event list" where
  "partial_round cfg root keys msg =
     [SignalPoll False, Head (health_url cfg) (HeadResp 501), Log LNotInitialized,
      Log LInitializing, InitCall (init_url cfg) (init_request_data cfg) (InitResp 200 (vault_init_body (sim_resp root keys))),
      Log LStoring, NewSession (Inr ()),
      PutSecret (root_token_secret_id cfg) (root_token_secret (sim_resp root keys)) (Inr ()),
      PutSecret (recovery_keys_secret_id cfg) (recovery_keys_secret keys) (Inl msg),
      Log (LFatal msg), Exit 1]"

subsection \<open>The scenario of the design: one share stored, five recovery shares, threshold three\<close>

definition demo_env :: environ where
  "demo_env =
     [(''ROOT_TOKEN_SECRET_ID'', ''vault-root-token''), (''RECOVERY_KEYS_SECRET_ID'', ''vault-recovery-keys''),
      (''VAULT_STORED_SHARES'', ''1''), (''VAULT_RECOVERY_SHARES'', ''5''),
      (''VAULT_RECOVERY_THRESHOLD'', ''3'')]"

definition demo_cfg :: config where
  "demo_cfg =
     \<lparr>vault_addr = ''https://127.0.0.1:8200'', root_token_secret_id = ''vault-root-token'',
      recovery_keys_secret_id = ''vault-recovery-keys'', vault_stored_shares = 1,
      vault_recovery_shares = 5, vault_recovery_threshold = 3, check_interval = 10000000000\<rparr>"

definition demo_keys :: "string list" where
  "demo_keys = [''rk-one'', ''rk-two'', ''rk-three'', ''rk-four'', ''rk-five'']"

lemma demo_resp_valid: "resp_valid (sim_resp ''s.root'' demo_keys)"
  by (simp add: resp_valid_def sim_resp_def demo_keys_def ascii_utf8_valid is_ascii_def
      del: utf8_valid.simps)

lemma unmarshal_EOF: "unmarshal_init_response ''EOF'' = Inl JSyntaxError"
  by (simp add: unmarshal_init_response_def go_json_value_def skip_ws_def is_ws_def scan_number_def
      num_int_def digits1_def is_digit_def eval_nat_numeral)

lemma load_demo_env: "load_config demo_env = Inr demo_cfg"
  by (simp add: demo_env_def demo_cfg_def go_simps Let_def)

lemma vault_main_loads:
  "load_config env = Inr cfg \<Longrightarrow>
   vault_main n e env w = run_loop n e cfg \<lparr>world = w, trace = [Log LStarting]\<rparr>"
  by (simp add: vault_main_def rt_simps)

subsection \<open>End to end\<close>

text \<open>
  C8: against a fresh server and a working secret store, the first round initializes the
  server and stores the root token and the labelled recovery keys, each with one write; every
  later round sees the server initialized, logs so and never calls init again.
\<close>

theorem end_to_end_bootstrap:
  assumes "load_config env = Inr cfg"
    and "resp_valid (sim_resp root keys)"
  shows "vault_main (Suc n) sim_env env (fresh_sim root keys) =
    (Inr (), \<lparr>world = stored_sim cfg root keys,
              trace = Log LStarting # init_round cfg root keys @ concat (replicate n (idle_round cfg))\<rparr>)"
proof -
  have "vault_main (Suc n) sim_env env (fresh_sim root keys) =
        run_loop n sim_env cfg \<lparr>world = stored_sim cfg root keys,
                                 trace = [Log LStarting] @ init_round cfg root keys\<rparr>"
    using assms by (simp add: vault_main_loads sim_first_cycle [OF assms(2)])
  also have "\<dots> = (Inr (), \<lparr>world = stored_sim cfg root keys,
      trace = [Log LStarting] @ init_round cfg root keys @ concat (replicate n (idle_round cfg))\<rparr>)"
    using sim_steady_run [of "\<lparr>world = stored_sim cfg root keys,
                                trace = [Log LStarting] @ init_round cfg root keys\<rparr>" n cfg]
    by (simp add: steady_stored_sim)
  finally show ?thesis by simp
qed

theorem end_to_end_bootstrap_witness:
  "load_config demo_env = Inr demo_cfg \<and> resp_valid (sim_resp ''s.root'' demo_keys)
   \<and> vault_main 3 sim_env demo_env (fresh_sim ''s.root'' demo_keys) =
     (Inr (), \<lparr>world = stored_sim demo_cfg ''s.root'' demo_keys,
               trace = Log LStarting # init_round demo_cfg ''s.root'' demo_keys
                 @ idle_round demo_cfg @ idle_round demo_cfg\<rparr>)
   \<and> length (filter is_init_call (init_round demo_cfg ''s.root'' demo_keys
                 @ idle_round demo_cfg @ idle_round demo_cfg)) = 1"
  using end_to_end_bootstrap [OF load_demo_env demo_resp_valid, of 2] load_demo_env demo_resp_valid
  by (simp add: numeral_2_eq_2 numeral_3_eq_3 init_round_def idle_round_def)

text \<open>
  C25: an init request that fails before reaching the server is retried in the next round,
  which then bootstraps the server as in a fault-free run.
\<close>

theorem init_retried_after_connect_failure:
  assumes "load_config env = Inr cfg"
    and "resp_valid (sim_resp root keys)"
  shows "vault_main (Suc (Suc n)) sim_env env ((fresh_sim root keys)\<lparr>sim_init_faults := [ConnectFail msg]\<rparr>) =
    (Inr (), \<lparr>world = stored_sim cfg root keys,
              trace = Log LStarting # failed_round cfg msg @ init_round cfg root keys
                        @ concat (replicate n (idle_round cfg))\<rparr>)"
proof -
  have "vault_main (Suc (Suc n)) sim_env env ((fresh_sim root keys)\<lparr>sim_init_faults := [ConnectFail msg]\<rparr>) =
        run_loop n sim_env cfg \<lparr>world = stored_sim cfg root keys,
          trace = [Log LStarting] @ failed_round cfg msg @ init_round cfg root keys\<rparr>"
    using assms by (simp add: vault_main_loads sim_connect_fail_cycle sim_first_cycle [OF assms(2)])
  also have "\<dots> = (Inr (), \<lparr>world = stored_sim cfg root keys,
      trace = [Log LStarting] @ failed_round cfg msg @ init_round cfg root keys
                @ concat (replicate n (idle_round cfg))\<rparr>)"
    using sim_steady_run [of "\<lparr>world = stored_sim cfg root keys,
      trace = [Log LStarting] @ failed_round cfg msg @ init_round cfg root keys\<rparr>" n cfg]
    by (simp add: steady_stored_sim)
  finally show ?thesis by simp
qed

theorem init_retried_after_connect_failure_witness:
  "load_config demo_env = Inr demo_cfg \<and> resp_valid (sim_resp ''s.root'' demo_keys)
   \<and> vault_main 2 sim_env demo_env ((fresh_sim ''s.root'' demo_keys)\<lparr>sim_init_faults := [ConnectFail ''refused'']\<rparr>) =
    (Inr (), \<lparr>world = stored_sim demo_cfg ''s.root'' demo_keys,
              trace = Log LStarting # failed_round demo_cfg ''refused'' @ init_round demo_cfg ''s.root'' demo_keys\<rparr>)"
  using init_retried_after_connect_failure [OF load_demo_env demo_resp_valid, of 0] load_demo_env
    demo_resp_valid
  by (simp add: numeral_2_eq_2)

text \<open>
  C26: when the root token is stored but the write of the recovery keys fails, the first
  round ends the process with status 1; the server is initialized, the store holds the root
  token and no recovery keys: the partial failure of the design is observable.
\<close>

theorem recovery_write_failure_leaves_root_stored:
  assumes "load_config env = Inr cfg"
    and "root_token_secret_id cfg \<noteq> recovery_keys_secret_id cfg"
    and "resp_valid (sim_resp root keys)"
  shows "vault_main (Suc n) sim_env env ((fresh_sim root keys)\<lparr>sim_put_faults := [None, Some msg]\<rparr>) =
      (Inl 1, \<lparr>world = (fresh_sim root keys)\<lparr>sim_initialized := True, sim_init_count := 1,
                  sim_store := [root_token_secret_id cfg \<mapsto> (json_str_object [(''root-token'', root)])]\<rparr>,
               trace = Log LStarting # partial_round cfg root keys msg\<rparr>)
    \<and> sim_store ((fresh_sim root keys)\<lparr>sim_initialized := True, sim_init_count := 1,
                  sim_store := [root_token_secret_id cfg \<mapsto> (json_str_object [(''root-token'', root)])]\<rparr>)
        (recovery_keys_secret_id cfg) = None"
  using assms unmarshal_sim_resp [OF assms(3)]
  by (simp add: vault_main_loads run_defs rt_simps fresh_sim_def partial_round_def classify_def
      sim_resp_def root_token_secret_def root_token_payload_def)

theorem recovery_write_failure_leaves_root_stored_witness:
  "load_config demo_env = Inr demo_cfg
   \<and> root_token_secret_id demo_cfg \<noteq> recovery_keys_secret_id demo_cfg
   \<and> resp_valid (sim_resp ''s.root'' demo_keys)
   \<and> vault_main 4 sim_env demo_env ((fresh_sim ''s.root'' demo_keys)\<lparr>sim_put_faults := [None, Some ''Throttled'']\<rparr>) =
      (Inl 1, \<lparr>world = (fresh_sim ''s.root'' demo_keys)\<lparr>sim_initialized := True, sim_init_count := 1,
                  sim_store := [''vault-root-token'' \<mapsto> (json_str_object [(''root-token'', ''s.root'')])]\<rparr>,
               trace = Log LStarting # partial_round demo_cfg ''s.root'' demo_keys ''Throttled''\<rparr>)"
proof -
  have ne: "root_token_secret_id demo_cfg \<noteq> recovery_keys_secret_id demo_cfg"
    by (simp add: demo_cfg_def)
  have "Suc 3 = (4::nat)" by simp
  then show ?thesis
    using recovery_write_failure_leaves_root_stored [OF load_demo_env ne demo_resp_valid, where n=3 and msg="''Throttled''"]
      load_demo_env ne demo_resp_valid
    by (simp add: demo_cfg_def)
qed


subsection \<open>Findings\<close>

text \<open>
  C9: when the init call reaches the server but its answer is lost to a decoding error, the
  server is initialized, neither secret is stored, the process neither exits nor logs more
  than the decoding error, and it never calls init again: the credentials are gone.
\<close>

theorem garbled_init_response_loses_credentials:
  assumes "load_config env = Inr cfg"
    and "unmarshal_init_response msg = Inl err"
  shows "vault_main (Suc n) sim_env env ((fresh_sim root keys)\<lparr>sim_init_faults := [Garbled msg]\<rparr>) =
    (Inr (), \<lparr>world = (fresh_sim root keys)\<lparr>sim_initialized := True, sim_init_count := 1\<rparr>,
              trace = Log LStarting # lost_round cfg msg err @ concat (replicate n (idle_round cfg))\<rparr>)"
proof -
  have "vault_main (Suc n) sim_env env ((fresh_sim root keys)\<lparr>sim_init_faults := [Garbled msg]\<rparr>) =
        run_loop n sim_env cfg \<lparr>world = (fresh_sim root keys)\<lparr>sim_initialized := True, sim_init_count := 1\<rparr>,
                                 trace = [Log LStarting] @ lost_round cfg msg err\<rparr>"
    using assms by (simp add: vault_main_loads sim_garbled_cycle [OF assms(2)])
  also have "\<dots> = (Inr (), \<lparr>world = (fresh_sim root keys)\<lparr>sim_initialized := True, sim_init_count := 1\<rparr>,
      trace = [Log LStarting] @ lost_round cfg msg err @ concat (replicate n (idle_round cfg))\<rparr>)"
    using sim_steady_run [of "\<lparr>world = (fresh_sim root keys)\<lparr>sim_initialized := True, sim_init_count := 1\<rparr>,
                                trace = [Log LStarting] @ lost_round cfg msg err\<rparr>" n cfg]
    by (simp add: steady_lost)
  finally show ?thesis by simp
qed

theorem garbled_init_response_loses_credentials_witness:
  "load_config demo_env = Inr demo_cfg \<and> unmarshal_init_response ''EOF'' = Inl JSyntaxError
   \<and> vault_main 2 sim_env demo_env ((fresh_sim ''s.root'' demo_keys)\<lparr>sim_init_faults := [Garbled ''EOF'']\<rparr>) =
     (Inr (), \<lparr>world = (fresh_sim ''s.root'' demo_keys)\<lparr>sim_initialized := True, sim_init_count := 1\<rparr>,
               trace = Log LStarting # lost_round demo_cfg ''EOF'' JSyntaxError @ idle_round demo_cfg\<rparr>)
   \<and> sim_store ((fresh_sim ''s.root'' demo_keys)\<lparr>sim_initialized := True, sim_init_count := 1\<rparr>)
       (root_token_secret_id demo_cfg) = None"
  using garbled_init_response_loses_credentials [OF load_demo_env unmarshal_EOF, of 1] load_demo_env
    unmarshal_EOF
  by (simp add: numeral_2_eq_2 fresh_sim_def)

subsection \<open>The branches of initialize at work\<close>

definition demo_call :: "init_reply \<Rightarrow> event" where
  "demo_call r = InitCall (init_url demo_cfg) (init_request_data demo_cfg) r"

definition demo_ok :: init_reply where
  "demo_ok = InitResp 200 (vault_init_body (sim_resp ''s.root'' demo_keys))"

definition signal_env :: "sim go_env" where
  "signal_env = sim_env\<lparr>env_signal_ready := \<lambda>w. (True, w)\<rparr>"

theorem initialize_non200_witness:
  "initialize sim_env demo_cfg \<lparr>world = (fresh_sim ''s.root'' demo_keys)\<lparr>sim_initialized := True\<rparr>, trace = []\<rparr> =
     (Inr (), \<lparr>world = (fresh_sim ''s.root'' demo_keys)\<lparr>sim_initialized := True\<rparr>,
               trace = [demo_call (InitResp 400 (vault_error_body ''Vault is already initialized'')), Log (LNon200 400)]\<rparr>)"
proof -
  have h: "env_init sim_env (init_url demo_cfg) (init_request_data demo_cfg)
      (world \<lparr>world = (fresh_sim ''s.root'' demo_keys)\<lparr>sim_initialized := True\<rparr>, trace = []\<rparr>) =
    (InitResp 400 (vault_error_body ''Vault is already initialized''), (fresh_sim ''s.root'' demo_keys)\<lparr>sim_initialized := True\<rparr>)"
    by (simp add: rt_simps fresh_sim_def)
  show ?thesis using initialize_non200 [OF h] by (simp add: demo_call_def)
qed

theorem initialize_root_fail_witness:
  "\<exists>w. initialize sim_env demo_cfg
          \<lparr>world = (fresh_sim ''s.root'' demo_keys)\<lparr>sim_put_faults := [Some ''AccessDenied'']\<rparr>, trace = []\<rparr> =
     (Inl 1, \<lparr>world = w, trace = [demo_call demo_ok, Log LStoring, NewSession (Inr ()),
        PutSecret ''vault-root-token'' (json_str_object [(''root-token'', ''s.root'')]) (Inl ''AccessDenied''),
        Log (LFatal ''AccessDenied''), Exit 1]\<rparr>)"
proof -
  let ?w0 = "(fresh_sim ''s.root'' demo_keys)\<lparr>sim_put_faults := [Some ''AccessDenied'']\<rparr>"
  let ?w1 = "?w0\<lparr>sim_initialized := True, sim_init_count := 1\<rparr>"
  have h1: "env_init sim_env (init_url demo_cfg) (init_request_data demo_cfg) (world \<lparr>world = ?w0, trace = []\<rparr>)
      = (InitResp 200 (vault_init_body (sim_resp ''s.root'' demo_keys)), ?w1)"
    by (simp add: rt_simps fresh_sim_def sim_resp_def)
  have h2: "env_new_session sim_env ?w1 = (Inr (), ?w1)" by (simp add: rt_simps fresh_sim_def)
  have h3: "env_put_secret sim_env (root_token_secret_id demo_cfg) (root_token_secret (sim_resp ''s.root'' demo_keys)) ?w1
      = (Inl ''AccessDenied'', ?w1\<lparr>sim_put_faults := []\<rparr>)"
    by (simp add: rt_simps fresh_sim_def)
  show ?thesis using initialize_root_fail [OF h1 unmarshal_vault_body [OF demo_resp_valid] h2 h3]
    by (simp add: demo_call_def demo_ok_def demo_cfg_def root_token_secret_def root_token_payload_def sim_resp_def)
qed

theorem initialize_recovery_fail_witness:
  "\<exists>w. initialize sim_env demo_cfg
          \<lparr>world = (fresh_sim ''s.root'' demo_keys)\<lparr>sim_put_faults := [None, Some ''NotFound'']\<rparr>, trace = []\<rparr> =
     (Inl 1, \<lparr>world = w, trace = [demo_call demo_ok, Log LStoring, NewSession (Inr ()),
        PutSecret ''vault-root-token'' (json_str_object [(''root-token'', ''s.root'')]) (Inr ()),
        PutSecret ''vault-recovery-keys'' (recovery_keys_secret demo_keys) (Inl ''NotFound''),
        Log (LFatal ''NotFound''), Exit 1]\<rparr>)
     \<and> sim_store w ''vault-root-token'' = Some (json_str_object [(''root-token'', ''s.root'')])"
proof -
  let ?w0 = "(fresh_sim ''s.root'' demo_keys)\<lparr>sim_put_faults := [None, Some ''NotFound'']\<rparr>"
  let ?w1 = "?w0\<lparr>sim_initialized := True, sim_init_count := 1\<rparr>"
  let ?w2 = "?w1\<lparr>sim_put_faults := [Some ''NotFound''],
                  sim_store := [''vault-root-token'' \<mapsto> (json_str_object [(''root-token'', ''s.root'')])]\<rparr>"
  have h1: "env_init sim_env (init_url demo_cfg) (init_request_data demo_cfg) (world \<lparr>world = ?w0, trace = []\<rparr>)
      = (InitResp 200 (vault_init_body (sim_resp ''s.root'' demo_keys)), ?w1)"
    by (simp add: rt_simps fresh_sim_def sim_resp_def)
  have h2: "env_new_session sim_env ?w1 = (Inr (), ?w1)" by (simp add: rt_simps fresh_sim_def)
  have h3: "env_put_secret sim_env (root_token_secret_id demo_cfg) (root_token_secret (sim_resp ''s.root'' demo_keys)) ?w1
      = (Inr (), ?w2)"
    by (simp add: rt_simps fresh_sim_def demo_cfg_def root_token_secret_def root_token_payload_def sim_resp_def)
  have h4: "env_put_secret sim_env (recovery_keys_secret_id demo_cfg) (recovery_keys_secret (resp_keys (sim_resp ''s.root'' demo_keys))) ?w2
      = (Inl ''NotFound'', ?w2\<lparr>sim_put_faults := []\<rparr>)"
    by (simp add: rt_simps sim_resp_def)
  show ?thesis using initialize_recovery_fail [OF h1 unmarshal_vault_body [OF demo_resp_valid] h2 h3 h4]
    by (simp add: demo_call_def demo_ok_def demo_cfg_def root_token_secret_def root_token_payload_def sim_resp_def)
qed

theorem initialize_success_witness:
  "\<exists>w. initialize sim_env demo_cfg \<lparr>world = fresh_sim ''s.root'' demo_keys, trace = []\<rparr> =
     (Inr (), \<lparr>world = w, trace = [demo_call demo_ok, Log LStoring, NewSession (Inr ()),
        PutSecret ''vault-root-token'' (json_str_object [(''root-token'', ''s.root'')]) (Inr ()),
        PutSecret ''vault-recovery-keys'' (recovery_keys_secret demo_keys) (Inr ()), Log LComplete]\<rparr>)"
proof -
  let ?w0 = "fresh_sim ''s.root'' demo_keys"
  let ?w1 = "?w0\<lparr>sim_initialized := True, sim_init_count := 1\<rparr>"
  let ?w2 = "?w1\<lparr>sim_store := [''vault-root-token'' \<mapsto> (json_str_object [(''root-token'', ''s.root'')])]\<rparr>"
  have h1: "env_init sim_env (init_url demo_cfg) (init_request_data demo_cfg) (world \<lparr>world = ?w0, trace = []\<rparr>)
      = (InitResp 200 (vault_init_body (sim_resp ''s.root'' demo_keys)), ?w1)"
    by (simp add: rt_simps fresh_sim_def sim_resp_def)
  have h2: "env_new_session sim_env ?w1 = (Inr (), ?w1)" by (simp add: rt_simps fresh_sim_def)
  have h3: "env_put_secret sim_env (root_token_secret_id demo_cfg) (root_token_secret (sim_resp ''s.root'' demo_keys)) ?w1
      = (Inr (), ?w2)"
    by (simp add: rt_simps fresh_sim_def demo_cfg_def root_token_secret_def root_token_payload_def sim_resp_def)
  have h4: "env_put_secret sim_env (recovery_keys_secret_id demo_cfg) (recovery_keys_secret (resp_keys (sim_resp ''s.root'' demo_keys))) ?w2
      = (Inr (), ?w2\<lparr>sim_store := (sim_store ?w2)(''vault-recovery-keys'' \<mapsto> recovery_keys_secret demo_keys)\<rparr>)"
    by (simp add: rt_simps sim_resp_def fresh_sim_def demo_cfg_def)
  show ?thesis using initialize_success [OF h1 unmarshal_vault_body [OF demo_resp_valid] h2 h3 h4]
    by (simp add: demo_call_def demo_ok_def demo_cfg_def root_token_secret_def root_token_payload_def sim_resp_def)
qed

theorem vault_main_missing_secret_id_witness:
  "(getenv [(''ROOT_TOKEN_SECRET_ID'', ''vault-root-token'')] ''ROOT_TOKEN_SECRET_ID'' = []
    \<or> getenv [(''ROOT_TOKEN_SECRET_ID'', ''vault-root-token'')] ''RECOVERY_KEYS_SECRET_ID'' = [])
   \<and> vault_main 5 sim_env [(''ROOT_TOKEN_SECRET_ID'', ''vault-root-token'')] (fresh_sim ''s.root'' demo_keys) =
     (Inl 1, \<lparr>world = fresh_sim ''s.root'' demo_keys, trace = [Log LStarting,
        Log (LConfigFatal (ErrMissing ''RECOVERY_KEYS_SECRET_ID'')), Exit 1]\<rparr>)"
  using vault_main_missing_secret_id [of "[(''ROOT_TOKEN_SECRET_ID'', ''vault-root-token'')]" 5 sim_env
      "fresh_sim ''s.root'' demo_keys"]
  by (simp add: getenv_def)

theorem poll_cycle_signal_stops_witness:
  "env_signal_ready signal_env (world \<lparr>world = fresh_sim ''s.root'' demo_keys, trace = []\<rparr>)
     = (True, fresh_sim ''s.root'' demo_keys)
   \<and> poll_cycle signal_env demo_cfg \<lparr>world = fresh_sim ''s.root'' demo_keys, trace = []\<rparr> =
     (Inl 0, \<lparr>world = fresh_sim ''s.root'' demo_keys, trace = [SignalPoll True, Log LShuttingDown, Exit 0]\<rparr>)"
  using poll_cycle_signal_stops [of signal_env "\<lparr>world = fresh_sim ''s.root'' demo_keys, trace = []\<rparr>"
      "fresh_sim ''s.root'' demo_keys" demo_cfg]
  by (simp add: signal_env_def)

theorem poll_cycle_probe_error_witness:
  "env_signal_ready sim_env (world \<lparr>world = (fresh_sim ''s.root'' demo_keys)\<lparr>sim_head_faults := [Some ''refused'']\<rparr>, trace = []\<rparr>)
     = (False, (fresh_sim ''s.root'' demo_keys)\<lparr>sim_head_faults := [Some ''refused'']\<rparr>)
   \<and> env_head sim_env (health_url demo_cfg) ((fresh_sim ''s.root'' demo_keys)\<lparr>sim_head_faults := [Some ''refused'']\<rparr>)
     = (HeadErr ''refused'', fresh_sim ''s.root'' demo_keys)
   \<and> poll_cycle sim_env demo_cfg \<lparr>world = (fresh_sim ''s.root'' demo_keys)\<lparr>sim_head_faults := [Some ''refused'']\<rparr>, trace = []\<rparr> =
     (Inr (), \<lparr>world = fresh_sim ''s.root'' demo_keys,
               trace = [SignalPoll False, Head (health_url demo_cfg) (HeadErr ''refused''),
                        Log (LError ''refused''), Sleep 10000000000]\<rparr>)"
proof -
  have h1: "env_signal_ready sim_env (world \<lparr>world = (fresh_sim ''s.root'' demo_keys)\<lparr>sim_head_faults := [Some ''refused'']\<rparr>, trace = []\<rparr>)
     = (False, (fresh_sim ''s.root'' demo_keys)\<lparr>sim_head_faults := [Some ''refused'']\<rparr>)"
    by (simp add: sim_env_def)
  have h2: "env_head sim_env (health_url demo_cfg) ((fresh_sim ''s.root'' demo_keys)\<lparr>sim_head_faults := [Some ''refused'']\<rparr>)
     = (HeadErr ''refused'', fresh_sim ''s.root'' demo_keys)"
    by (simp add: sim_env_def sim_head_def fresh_sim_def)
  show ?thesis using poll_cycle_probe_error [OF h1 h2] h1 h2
    by (simp add: sim_env_def demo_cfg_def)
qed

theorem poll_cycle_status_witness:
  "env_signal_ready sim_env (world \<lparr>world = (stored_sim demo_cfg ''s.root'' demo_keys)\<lparr>sim_signals := [True]\<rparr>, trace = []\<rparr>)
     = (False, (stored_sim demo_cfg ''s.root'' demo_keys)\<lparr>sim_signals := [True]\<rparr>)
   \<and> env_head sim_env (health_url demo_cfg) ((stored_sim demo_cfg ''s.root'' demo_keys)\<lparr>sim_signals := [True]\<rparr>)
     = (HeadResp 200, (stored_sim demo_cfg ''s.root'' demo_keys)\<lparr>sim_signals := [True]\<rparr>)
   \<and> (200::int) \<noteq> 501
   \<and> env_wait sim_env (check_interval demo_cfg) ((stored_sim demo_cfg ''s.root'' demo_keys)\<lparr>sim_signals := [True]\<rparr>)
     = (True, stored_sim demo_cfg ''s.root'' demo_keys)
   \<and> poll_cycle sim_env demo_cfg \<lparr>world = (stored_sim demo_cfg ''s.root'' demo_keys)\<lparr>sim_signals := [True]\<rparr>, trace = []\<rparr> =
     (Inl 0, \<lparr>world = stored_sim demo_cfg ''s.root'' demo_keys,
              trace = [SignalPoll False, Head (health_url demo_cfg) (HeadResp 200), Log LInitializedUnsealed,
                       Log (LNextCheck 10000000000), Wait 10000000000 True, Log LShuttingDown, Exit 0]\<rparr>)"
proof -
  let ?w = "(stored_sim demo_cfg ''s.root'' demo_keys)\<lparr>sim_signals := [True]\<rparr>"
  have h1: "env_signal_ready sim_env (world \<lparr>world = ?w, trace = []\<rparr>) = (False, ?w)"
    by (simp add: sim_env_def)
  have h2: "env_head sim_env (health_url demo_cfg) ?w = (HeadResp 200, ?w)"
    by (simp add: sim_env_def sim_head_def stored_sim_def fresh_sim_def)
  have h3: "env_wait sim_env (check_interval demo_cfg) ?w = (True, stored_sim demo_cfg ''s.root'' demo_keys)"
    by (simp add: sim_env_def sim_wait_def stored_sim_def fresh_sim_def)
  show ?thesis using poll_cycle_status [OF h1 h2 _ h3] h1 h2 h3
    by (simp add: demo_cfg_def classify_def)
qed

theorem initialize_transport_error_witness:
  "env_init sim_env (init_url demo_cfg) (init_request_data demo_cfg)
      (world \<lparr>world = (fresh_sim ''s.root'' demo_keys)\<lparr>sim_init_faults := [ConnectFail ''refused'']\<rparr>, trace = []\<rparr>)
     = (InitErr ''refused'', fresh_sim ''s.root'' demo_keys)
   \<and> initialize sim_env demo_cfg
       \<lparr>world = (fresh_sim ''s.root'' demo_keys)\<lparr>sim_init_faults := [ConnectFail ''refused'']\<rparr>, trace = []\<rparr> =
     (Inr (), \<lparr>world = fresh_sim ''s.root'' demo_keys,
               trace = [demo_call (InitErr ''refused''), Log (LError ''refused'')]\<rparr>)"
proof -
  have h: "env_init sim_env (init_url demo_cfg) (init_request_data demo_cfg)
      (world \<lparr>world = (fresh_sim ''s.root'' demo_keys)\<lparr>sim_init_faults := [ConnectFail ''refused'']\<rparr>, trace = []\<rparr>)
     = (InitErr ''refused'', fresh_sim ''s.root'' demo_keys)"
    by (simp add: rt_simps fresh_sim_def)
  show ?thesis using initialize_transport_error [OF h] h by (simp add: demo_call_def)
qed

theorem initialize_decode_error_witness:
  "env_init sim_env (init_url demo_cfg) (init_request_data demo_cfg)
      (world \<lparr>world = (fresh_sim ''s.root'' demo_keys)\<lparr>sim_init_faults := [Garbled ''EOF'']\<rparr>, trace = []\<rparr>)
     = (InitResp 200 ''EOF'', (fresh_sim ''s.root'' demo_keys)\<lparr>sim_initialized := True, sim_init_count := 1\<rparr>)
   \<and> initialize sim_env demo_cfg
       \<lparr>world = (fresh_sim ''s.root'' demo_keys)\<lparr>sim_init_faults := [Garbled ''EOF'']\<rparr>, trace = []\<rparr> =
     (Inr (), \<lparr>world = (fresh_sim ''s.root'' demo_keys)\<lparr>sim_initialized := True, sim_init_count := 1\<rparr>,
               trace = [demo_call (InitResp 200 ''EOF''), Log (LJsonError JSyntaxError)]\<rparr>)"
proof -
  have h: "env_init sim_env (init_url demo_cfg) (init_request_data demo_cfg)
      (world \<lparr>world = (fresh_sim ''s.root'' demo_keys)\<lparr>sim_init_faults := [Garbled ''EOF'']\<rparr>, trace = []\<rparr>)
     = (InitResp 200 ''EOF'', (fresh_sim ''s.root'' demo_keys)\<lparr>sim_initialized := True, sim_init_count := 1\<rparr>)"
    by (simp add: rt_simps fresh_sim_def)
  show ?thesis using initialize_decode_error [OF h unmarshal_EOF] h by (simp add: demo_call_def)
qed

theorem initialize_session_panic_witness:
  "\<exists>w. initialize sim_env demo_cfg
          \<lparr>world = (fresh_sim ''s.root'' demo_keys)\<lparr>sim_session_fault := Some ''NoCredentialProviders''\<rparr>, trace = []\<rparr> =
     (Inl 2, \<lparr>world = w, trace = [demo_call demo_ok, Log LStoring,
        NewSession (Inl ''NoCredentialProviders''), Exit 2]\<rparr>)"
proof -
  let ?w0 = "(fresh_sim ''s.root'' demo_keys)\<lparr>sim_session_fault := Some ''NoCredentialProviders''\<rparr>"
  let ?w1 = "?w0\<lparr>sim_initialized := True, sim_init_count := 1\<rparr>"
  have h1: "env_init sim_env (init_url demo_cfg) (init_request_data demo_cfg) (world \<lparr>world = ?w0, trace = []\<rparr>)
      = (InitResp 200 (vault_init_body (sim_resp ''s.root'' demo_keys)), ?w1)"
    by (simp add: rt_simps fresh_sim_def sim_resp_def)
  have h2: "env_new_session sim_env ?w1 = (Inl ''NoCredentialProviders'', ?w1)"
    by (simp add: rt_simps fresh_sim_def)
  show ?thesis using initialize_session_panic [OF h1 unmarshal_vault_body [OF demo_resp_valid] h2]
    by (simp add: demo_call_def demo_ok_def)
qed

theorem load_config_values_witness:
  "getenv demo_env ''ROOT_TOKEN_SECRET_ID'' = ''vault-root-token''
   \<and> load_config ((''VAULT_ADDR'', ''https://vault:8200'') # (''CHECK_INTERVAL'', ''30'') # demo_env) =
    Inr (demo_cfg\<lparr>vault_addr := ''https://vault:8200'', check_interval := 30000000000\<rparr>)"
proof -
  let ?env = "(''VAULT_ADDR'', ''https://vault:8200'') # (''CHECK_INTERVAL'', ''30'') # demo_env"
  have "load_config ?env =
    Inr \<lparr>vault_addr = ''https://vault:8200'', root_token_secret_id = ''vault-root-token'',
         recovery_keys_secret_id = ''vault-recovery-keys'',
         vault_stored_shares = 1, vault_recovery_shares = 5,
         vault_recovery_threshold = 3, check_interval = word_of_nat (30 * 1000000000)\<rparr>"
    by (rule load_config_values [of ?env _ _ _ 1 5 3 30])
       (simp_all add: getenv_def demo_env_def go_itoa_def nat_digits.simps digit_char_def)
  then show ?thesis by (simp add: getenv_def demo_env_def demo_cfg_def)
qed


end
