(* ===== verification/Transport.thy ===== *)
theory Transport
  imports Runtime
begin

text \<open>
  The set-up \<open>main\<close> does before its loop (\<open>src/main.go\<close>, lines 79--92): the HTTP
  client whose TLS configuration sets \<open>InsecureSkipVerify\<close>, and the registration of
  the signal channel with \<open>signal.Notify\<close>.  Both are library behaviour the program
  only configures.  The TLS configuration is kept as the record \<open>http_client_tls\<close>;
  the certificate check of \<open>crypto/tls\<close> itself is not modelled.  For the signals the
  rule of the library is modelled as well: \<open>os/signal\<close> relays to the channel the registered signals the process can catch; \<open>SIGKILL\<close> is
  never delivered to a process, registered or not.
\<close>

record tls_config =
  insecure_skip_verify :: bool

text \<open>\<open>httpClient\<close> of lines 79--85: the only TLS setting is \<open>InsecureSkipVerify: true\<close>.\<close>

definition http_client_tls :: tls_config where
  "http_client_tls = \<lparr>insecure_skip_verify = True\<rparr>"

datatype os_signal = SIGINT | SIGTERM | SIGKILL | SigOther nat

text \<open>\<open>signal.Notify(signalCh, syscall.SIGINT, syscall.SIGTERM, syscall.SIGKILL)\<close>.\<close>

definition notify_signals :: "os_signal list" where
  "notify_signals = [SIGINT, SIGTERM, SIGKILL]"

definition signal_delivered :: "os_signal list \<Rightarrow> os_signal \<Rightarrow> bool" where
  "signal_delivered reg s \<longleftrightarrow> s \<in> set reg \<and> s \<noteq> SIGKILL"

subsection \<open>What the configuration means\<close>

text \<open>
  Of the three registered signals only \<open>SIGINT\<close> and \<open>SIGTERM\<close> can ever reach the
  channel; the registration of \<open>SIGKILL\<close> has no effect.
\<close>

lemma notify_delivers: "signal_delivered notify_signals s \<longleftrightarrow> s = SIGINT \<or> s = SIGTERM"
  by (cases s) (auto simp: signal_delivered_def notify_signals_def)

end
