(* ===== verification/SignalChan.thy ===== *)
theory SignalChan
  imports SimWorld Transport
begin

text \<open>
  The signal channel of \<open>main\<close> (\<open>src/main.go\<close>, lines 87--92, 100--104 and 132--136)
  with the semantics of Go's runtime.  \<open>make(chan os.Signal)\<close> is an unbuffered channel;
  \<open>os/signal\<close> relays each caught signal with a non-blocking send
  (\<open>select { case c <- sig: default: }\<close>), and \<open>runtime/chan.go\<close> lets a non-blocking
  send to an unbuffered channel succeed only when a receiver is parked on it.  The
  \<open>select\<close> with a \<open>default\<close> before each probe is a non-blocking receive, which succeeds
  only when a sender is parked or a value is buffered.  \<open>chan_env\<close> puts the channel
  into the world of the program: the signals that arrive during each operation are
  delivered while \<open>main\<close> is busy, and during the blocking \<open>select\<close> after a round
  \<open>main\<close> is parked on the channel.  The lemmas show that with the unbuffered channel the
  check before the probe never receives a signal, that the wait receives exactly the
  signals arriving during it, and that a signal arriving during the probe is lost.
\<close>

subsection \<open>Go channels\<close>

text \<open>
  \<open>hchan\<close> of \<open>runtime/chan.go\<close>: the capacity \<open>dataqsiz\<close>, the buffered values,
  the values of senders parked in \<open>sendq\<close>, and whether the receiver (\<open>main\<close>, the only
  goroutine that receives) is parked in \<open>recvq\<close>.
\<close>

record 'a hchan =
  dataqsiz :: nat
  chan_buf :: "'a list"
  chan_sendq :: "'a list"
  chan_recvq :: bool

definition make_chan :: "nat \<Rightarrow> 'a hchan" where
  "make_chan n = \<lparr>dataqsiz = n, chan_buf = [], chan_sendq = [], chan_recvq = False\<rparr>"

text \<open>\<open>full\<close> and \<open>empty\<close>, the fast paths of the non-blocking operations.\<close>

definition chan_full :: "'a hchan \<Rightarrow> bool" where
  "chan_full c \<longleftrightarrow> (if dataqsiz c = 0 then \<not> chan_recvq c else length (chan_buf c) = dataqsiz c)"

definition chan_empty :: "'a hchan \<Rightarrow> bool" where
  "chan_empty c \<longleftrightarrow> (if dataqsiz c = 0 then chan_sendq c = [] else chan_buf c = [])"

text \<open>
  \<open>chansend(c, v, block = false)\<close>: the value handed to the parked receiver, if there is
  one (the receiver wakes with it), and the channel afterwards.
\<close>

definition chansend_nb :: "'a hchan \<Rightarrow> 'a \<Rightarrow> 'a option \<times> 'a hchan" where
  "chansend_nb c v =
     (if chan_full c then (None, c)
      else if chan_recvq c then (Some v, c\<lparr>chan_recvq := False\<rparr>)
      else if length (chan_buf c) < dataqsiz c then (None, c\<lparr>chan_buf := chan_buf c @ [v]\<rparr>)
      else (None, c))"

text \<open>
  \<open>chanrecv(c, block = false)\<close>: a parked sender's value (through the buffer when there
  is one), else the oldest buffered value, else nothing.
\<close>

definition chanrecv_nb :: "'a hchan \<Rightarrow> 'a option \<times> 'a hchan" where
  "chanrecv_nb c =
     (if chan_empty c then (None, c)
      else case chan_sendq c of
        v # vs \<Rightarrow>
          (if dataqsiz c = 0 then (Some v, c\<lparr>chan_sendq := vs\<rparr>)
           else (Some (hd (chan_buf c)), c\<lparr>chan_buf := tl (chan_buf c) @ [v], chan_sendq := vs\<rparr>))
      | [] \<Rightarrow>
          (case chan_buf c of
             [] \<Rightarrow> (None, c)
           | v # vs \<Rightarrow> (Some v, c\<lparr>chan_buf := vs\<rparr>)))"

subsection \<open>Signal delivery and the two selects\<close>

text \<open>
  \<open>process\<close> of \<open>os/signal\<close>: a signal the process catches and the channel is registered
  for is sent without blocking; any other signal never reaches the channel.
\<close>

definition signal_process ::
  "os_signal list \<Rightarrow> os_signal \<Rightarrow> os_signal hchan \<Rightarrow> os_signal option \<times> os_signal hchan" where
  "signal_process reg s c = (if signal_delivered reg s then chansend_nb c s else (None, c))"

text \<open>
  The signals arriving in order; the first one handed to the parked receiver wakes it, and
  \<open>main\<close> then exits, so later arrivals are not followed.
\<close>

fun deliver ::
  "os_signal list \<Rightarrow> os_signal list \<Rightarrow> os_signal hchan \<Rightarrow> os_signal option \<times> os_signal hchan" where
  "deliver reg [] c = (None, c)"
| "deliver reg (s # ss) c =
     (case signal_process reg s c of
        (Some v, c') \<Rightarrow> (Some v, c')
      | (None, c') \<Rightarrow> deliver reg ss c')"

text \<open>
  The blocking \<open>select\<close> of lines 132--136 (\<open>selectgo\<close>): a signal that is ready already
  is taken; otherwise \<open>main\<close> parks on the channel, the signals arriving before the timer
  fires are delivered, and if none wakes it the timer does and \<open>main\<close> leaves
  \<open>recvq\<close>.
\<close>

definition select_wait ::
  "os_signal list \<Rightarrow> os_signal list \<Rightarrow> os_signal hchan \<Rightarrow> bool \<times> os_signal hchan" where
  "select_wait reg arr c =
     (case chanrecv_nb c of
        (Some _, c') \<Rightarrow> (True, c')
      | (None, c') \<Rightarrow>
          (case deliver reg arr (c'\<lparr>chan_recvq := True\<rparr>) of
             (Some _, c'') \<Rightarrow> (True, c'')
           | (None, c'') \<Rightarrow> (False, c''\<lparr>chan_recvq := False\<rparr>)))"

subsection \<open>The channel in the world of the program\<close>

text \<open>
  A world with the signal channel: the underlying world, the channel, and the signals that
  arrive during each successive operation (for the wait: before its timer fires).  An
  exhausted script means no more signals.
\<close>

record 'w sig_world =
  sw_base :: 'w
  sw_chan :: "os_signal hchan"
  sw_arrivals :: "os_signal list list"

definition busy :: "'w sig_world \<Rightarrow> 'w sig_world" where
  "busy w =
     (case pop [] (sw_arrivals w) of
        (arr, rest) \<Rightarrow>
          w\<lparr>sw_chan := snd (deliver notify_signals arr (sw_chan w)), sw_arrivals := rest\<rparr>)"

definition lift_op :: "('w \<Rightarrow> 'r \<times> 'w) \<Rightarrow> 'w sig_world \<Rightarrow> 'r \<times> 'w sig_world" where
  "lift_op f w = (case f (sw_base w) of (r, b) \<Rightarrow> (r, busy (w\<lparr>sw_base := b\<rparr>)))"

text \<open>
  The operations of the program against this world: the two selects are the channel's,
  every other operation is the underlying world's, with the signals of its duration
  delivered while \<open>main\<close> is not on the channel.  The timer of the wait is the
  underlying world's; whether the wait ends by a signal is the channel's.
\<close>

definition chan_env :: "'w go_env \<Rightarrow> 'w sig_world go_env" where
  "chan_env e =
     \<lparr>env_signal_ready =
        (\<lambda>w. case chanrecv_nb (sw_chan w) of (v, c) \<Rightarrow> (v \<noteq> None, w\<lparr>sw_chan := c\<rparr>)),
      env_head = (\<lambda>url. lift_op (env_head e url)),
      env_sleep = (\<lambda>d w. busy (w\<lparr>sw_base := env_sleep e d (sw_base w)\<rparr>)),
      env_wait =
        (\<lambda>d w. case pop [] (sw_arrivals w) of
           (arr, rest) \<Rightarrow>
             (case select_wait notify_signals arr (sw_chan w) of
                (b, c) \<Rightarrow>
                  (b, w\<lparr>sw_base := snd (env_wait e d (sw_base w)), sw_chan := c,
                        sw_arrivals := rest\<rparr>))),
      env_init = (\<lambda>url req. lift_op (env_init e url req)),
      env_new_session = lift_op (env_new_session e),
      env_put_secret = (\<lambda>sid obj. lift_op (env_put_secret e sid obj))\<rparr>"

subsection \<open>The channel of main, world invariants, worlds of the witnesses\<close>

text \<open>\<open>signalCh := make(chan os.Signal)\<close> (line 87): a channel without a buffer.\<close>

definition signal_ch :: "os_signal hchan" where
  "signal_ch = make_chan 0"

text \<open>\<open>env_keeps e I\<close>: every operation of \<open>e\<close> keeps the world property \<open>I\<close>.\<close>

definition env_keeps :: "'w go_env \<Rightarrow> ('w \<Rightarrow> bool) \<Rightarrow> bool" where
  "env_keeps e I \<longleftrightarrow>
     (\<forall>w. I w \<longrightarrow> I (snd (env_signal_ready e w)) \<and> (\<forall>url. I (snd (env_head e url w)))
        \<and> (\<forall>d. I (env_sleep e d w)) \<and> (\<forall>d. I (snd (env_wait e d w)))
        \<and> (\<forall>url req. I (snd (env_init e url req w))) \<and> I (snd (env_new_session e w))
        \<and> (\<forall>sid obj. I (snd (env_put_secret e sid obj w))))"

text \<open>Two worlds for the witnesses: a Vault that is up, and one that cannot be reached.\<close>

definition sig_demo :: "sim sig_world" where
  "sig_demo =
     \<lparr>sw_base = (fresh_sim ''r'' [])\<lparr>sim_initialized := True\<rparr>, sw_chan = signal_ch,
      sw_arrivals = [[SIGTERM], []]\<rparr>"

definition unreachable_env :: "unit go_env" where
  "unreachable_env =
     \<lparr>env_signal_ready = (\<lambda>w. (False, w)), env_head = (\<lambda>url w. (HeadErr ''connection refused'', w)),
      env_sleep = (\<lambda>d w. w), env_wait = (\<lambda>d w. (False, w)),
      env_init = (\<lambda>url req w. (InitErr ''connection refused'', w)),
      env_new_session = (\<lambda>w. (Inr (), w)), env_put_secret = (\<lambda>sid obj w. (Inr (), w))\<rparr>"

subsection \<open>The unbuffered channel of main\<close>

abbreviation parked :: "os_signal hchan" where
  "parked \<equiv> signal_ch\<lparr>chan_recvq := True\<rparr>"

lemma chanrecv_nb_signal_ch [simp]: "chanrecv_nb signal_ch = (None, signal_ch)"
  by (simp add: chanrecv_nb_def chan_empty_def make_chan_def signal_ch_def)

lemma chansend_nb_signal_ch [simp]: "chansend_nb signal_ch s = (None, signal_ch)"
  by (simp add: chansend_nb_def chan_full_def make_chan_def signal_ch_def)

lemma chansend_nb_parked [simp]: "chansend_nb parked s = (Some s, signal_ch)"
  by (simp add: chansend_nb_def chan_full_def make_chan_def signal_ch_def)

lemma unpark [simp]: "parked\<lparr>chan_recvq := False\<rparr> = signal_ch"
  by (simp add: make_chan_def signal_ch_def)

text \<open>Nobody is parked on the channel: every signal is dropped.\<close>

lemma deliver_signal_ch [simp]: "deliver reg arr signal_ch = (None, signal_ch)"
  by (induction arr) (simp_all add: signal_process_def)

text \<open>\<open>main\<close> is parked: the first signal the process catches wakes it.\<close>

lemma deliver_parked:
  "deliver reg arr parked =
     (case find (signal_delivered reg) arr of None \<Rightarrow> (None, parked) | Some s \<Rightarrow> (Some s, signal_ch))"
  by (induction arr) (simp_all add: signal_process_def)

lemma select_wait_signal_ch:
  "select_wait reg arr signal_ch = (list_ex (signal_delivered reg) arr, signal_ch)"
proof -
  have "find (signal_delivered reg) arr = None \<longleftrightarrow> \<not> list_ex (signal_delivered reg) arr"
    by (auto simp: find_None_iff list_ex_iff)
  then show ?thesis
    by (auto simp: select_wait_def deliver_parked split: option.splits)
qed

lemma busy_signal_ch [simp]:
  "sw_chan w = signal_ch \<Longrightarrow> busy w = w\<lparr>sw_arrivals := snd (pop [] (sw_arrivals w))\<rparr>"
  by (simp add: busy_def split: prod.splits)

text \<open>
  The channel \<open>signal.Notify\<close>'s documentation asks for, with a buffer of one: a
  \<open>SIGTERM\<close> that arrives while \<open>main\<close> is busy is kept, and the next non-blocking
  receive takes it.
\<close>

lemma buffered_channel_keeps_signal:
  "chanrecv_nb (snd (deliver notify_signals [SIGTERM] (make_chan 1))) = (Some SIGTERM, make_chan 1)"
  by (simp add: signal_process_def signal_delivered_def notify_signals_def chansend_nb_def
      chan_full_def chanrecv_nb_def chan_empty_def make_chan_def signal_ch_def)

subsection \<open>World invariants of the loop\<close>

lemma env_keeps_calls:
  assumes "env_keeps e I" "I (world p)"
  shows "call_signal_ready e p = (b, q) \<Longrightarrow> I (world q)"
    and "call_head e url p = (h, q) \<Longrightarrow> I (world q)"
    and "I (world (call_sleep e d p))"
    and "call_wait e d p = (b, q) \<Longrightarrow> I (world q)"
    and "call_init e url req p = (ir, q) \<Longrightarrow> I (world q)"
    and "call_new_session e p = (ns, q) \<Longrightarrow> I (world q)"
    and "call_put_secret e sid obj p = (ps, q) \<Longrightarrow> I (world q)"
  using assms unfolding env_keeps_def
  by (auto simp: rt_simps split: prod.splits dest!: spec [of _ "world p"]) (metis snd_conv)+

lemma world_logs [simp]:
  "world (log_line m p) = world p" "world (emit ev p) = world p" "world (log_lines ms p) = world p"
  by (simp_all add: rt_simps)



lemma initialize_keeps:
  assumes "env_keeps e I" "I (world p)" "initialize e cfg p = (r, p')"
  shows "I (world p')"
  using assms(3)
  unfolding initialize_def
  by (auto simp: exit_with_def log_fatal_def split: prod.splits init_reply.splits sum.splits if_splits)
     (metis env_keeps_calls(5-7) [OF assms(1)] assms(2) world_logs(1))+

lemma health_action_keeps:
  assumes "env_keeps e I" "I (world p)" "health_action e cfg st p = (r, p')"
  shows "I (world p')"
  using assms initialize_keeps [OF assms(1), of "log_lines (state_logs st) p" cfg]
  by (auto simp: health_action_def Let_def split: if_splits)

lemma poll_cycle_keeps:
  assumes "env_keeps e I" "I (world p)" "poll_cycle e cfg p = (r, p')"
  shows "I (world p')"
proof -
  note k = env_keeps_calls [OF assms(1)]
  obtain b p1 where s: "call_signal_ready e p = (b, p1)" by fastforce
  have i1: "I (world p1)" by (rule k(1) [OF assms(2) s])
  obtain h p2 where hd: "call_head e (health_url cfg) p1 = (h, p2)" by fastforce
  have i2: "I (world p2)" by (rule k(2) [OF i1 hd])
  show ?thesis
  proof (cases b)
    case True
    with assms(3) s i1 show ?thesis by (auto simp: poll_cycle_def stop_def exit_with_def)
  next
    case False
    show ?thesis
    proof (cases h)
      case (HeadErr msg)
      with False assms(3) s hd k(3) [of "log_line (LError msg) p2"] i2 show ?thesis
        by (auto simp: poll_cycle_def probe_def)
    next
      case (HeadResp code)
      obtain r3 p3 where ha: "health_action e cfg (classify code) p2 = (r3, p3)" by fastforce
      have i3: "I (world p3)" by (rule health_action_keeps [OF assms(1) i2 ha])
      obtain b4 p4 where w: "call_wait e (check_interval cfg) (log_line (LNextCheck (check_interval cfg)) p3) = (b4, p4)"
        by fastforce
      have i4: "I (world p4)" using k(4) [OF _ w] i3 by simp
      from False HeadResp assms(3) s hd ha w i3 i4 show ?thesis
        by (auto simp: poll_cycle_def probe_def stop_def exit_with_def
            split: sum.splits if_splits bool.splits)
    qed
  qed
qed

lemma loop_reach_keeps:
  "loop_reach e cfg p0 p \<Longrightarrow> env_keeps e I \<Longrightarrow> I (world p0) \<Longrightarrow> I (world p)"
  by (induction rule: loop_reach.induct) (auto intro: poll_cycle_keeps)


subsection \<open>The program against the unbuffered channel\<close>

lemma chan_env_idle:
  assumes "sw_chan w = signal_ch"
  shows "env_signal_ready (chan_env e) w = (False, w)"
    and "lift_op f w = (fst (f (sw_base w)),
           w\<lparr>sw_base := snd (f (sw_base w)), sw_arrivals := snd (pop [] (sw_arrivals w))\<rparr>)"
    and "env_sleep (chan_env e) d w =
           w\<lparr>sw_base := env_sleep e d (sw_base w), sw_arrivals := snd (pop [] (sw_arrivals w))\<rparr>"
    and "env_wait (chan_env e) d w =
           (list_ex (signal_delivered notify_signals) (fst (pop [] (sw_arrivals w))),
            w\<lparr>sw_base := snd (env_wait e d (sw_base w)), sw_arrivals := snd (pop [] (sw_arrivals w))\<rparr>)"
  using assms
  by (auto simp: chan_env_def lift_op_def select_wait_signal_ch split: prod.splits)

lemma chan_env_lifted [simp]:
  "env_head (chan_env e) url = lift_op (env_head e url)"
  "env_init (chan_env e) url req = lift_op (env_init e url req)"
  "env_new_session (chan_env e) = lift_op (env_new_session e)"
  "env_put_secret (chan_env e) sid obj = lift_op (env_put_secret e sid obj)"
  by (simp_all add: chan_env_def)

lemma notify_delivered_fun: "signal_delivered notify_signals = (\<lambda>s. s = SIGINT \<or> s = SIGTERM)"
  by (rule ext) (simp add: notify_delivers)

lemma chan_env_keeps: "env_keeps (chan_env e) (\<lambda>w. sw_chan w = signal_ch)"
  by (auto simp: env_keeps_def chan_env_def lift_op_def select_wait_signal_ch split: prod.splits)

text \<open>
  C13: the signal check before each probe (lines 100--104) never receives a signal: in every
  state the loop reaches from a world with the fresh unbuffered channel, the non-blocking
  receive takes the \<open>default\<close> branch.
\<close>

theorem signal_check_never_fires:
  assumes "sw_chan (world p0) = signal_ch" and "loop_reach (chan_env e) cfg p0 p"
  shows "call_signal_ready (chan_env e) p = (False, emit (SignalPoll False) p)"
proof -
  have "sw_chan (world p) = signal_ch"
    using loop_reach_keeps [OF assms(2) chan_env_keeps] assms(1) by simp
  then show ?thesis by (simp add: call_signal_ready_def chan_env_idle(1))
qed


text \<open>
  C15: after a probe answering a status other than \<open>501\<close>, the round of lines 120--136
  stops the process exactly when a \<open>SIGINT\<close> or a \<open>SIGTERM\<close> arrives during its
  wait: it then logs the shutdown and exits with status \<open>0\<close>, and otherwise it ends with
  the process running; no other signal, \<open>SIGKILL\<close> included, ends the wait.
\<close>

theorem signal_during_wait_stops:
  assumes "sw_chan (world p) = signal_ch"
    and "env_head e (health_url cfg) (sw_base (world p)) = (HeadResp code, b)"
    and "code \<noteq> 501"
    and "sw_arrivals (world p) = sigs # ws # rest"
  shows "poll_cycle (chan_env e) cfg p =
           (let sig = list_ex (\<lambda>s. s = SIGINT \<or> s = SIGTERM) ws;
                p' = p\<lparr>world := (world p)\<lparr>sw_base := snd (env_wait e (check_interval cfg) b),
                                            sw_arrivals := rest\<rparr>,
                       trace := trace p @ [SignalPoll False, Head (health_url cfg) (HeadResp code)]
                         @ map Log (state_logs (classify code))
                         @ [Log (LNextCheck (check_interval cfg)), Wait (check_interval cfg) sig]\<rparr>
            in if sig then (Inl 0, p'\<lparr>trace := trace p' @ [Log LShuttingDown, Exit 0]\<rparr>)
               else (Inr (), p'))"
  using assms
  by (cases "list_ex (\<lambda>s. s = SIGINT \<or> s = SIGTERM) ws")
     (simp_all add: poll_cycle_def probe_def health_action_def rt_simps chan_env_idle
       notify_delivered_fun classify_501 [symmetric] del: classify_501)

lemma probe_error_round:
  assumes "sw_chan (world p) = signal_ch"
    and "fst (env_head e (health_url cfg) (sw_base (world p))) = HeadErr msg"
  shows "\<exists>p'. poll_cycle (chan_env e) cfg p = (Inr (), p') \<and> sw_chan (world p') = signal_ch"
  using assms
  by (auto simp: poll_cycle_def probe_def rt_simps chan_env_idle
      split: prod.splits head_result.splits)

text \<open>
  C21: while no probe reaches Vault, no signal stops the process: whatever signals arrive and
  whenever they arrive, every number of rounds ends with the process running.
\<close>

theorem unreachable_vault_unstoppable:
  assumes "sw_chan (world p) = signal_ch"
    and "\<forall>w. \<exists>msg. fst (env_head e (health_url cfg) w) = HeadErr msg"
  shows "fst (run_loop n (chan_env e) cfg p) = Inr ()"
  using assms(1)
proof (induction n arbitrary: p)
  case (Suc n)
  from assms(2) obtain msg where "fst (env_head e (health_url cfg) (sw_base (world p))) = HeadErr msg"
    by blast
  from probe_error_round [OF Suc.prems this] obtain p' where
    "poll_cycle (chan_env e) cfg p = (Inr (), p')" "sw_chan (world p') = signal_ch" by blast
  with Suc.IH show ?case by simp
qed simp

subsection \<open>Witnesses\<close>

lemma sig_demo_head:
  "env_head sim_env (health_url demo_cfg) (sw_base sig_demo) = (HeadResp 200, sw_base sig_demo)"
  by (simp add: sig_demo_def sim_defs fresh_sim_def)

theorem signal_check_never_fires_witness:
  "call_signal_ready (chan_env sim_env) \<lparr>world = sig_demo, trace = []\<rparr>
     = (False, \<lparr>world = sig_demo, trace = [SignalPoll False]\<rparr>)"
  using signal_check_never_fires [OF _ loop_reach.start, of "\<lparr>world = sig_demo, trace = []\<rparr>"]
  by (simp add: sig_demo_def emit_def)


theorem signal_during_wait_stops_witness:
  "poll_cycle (chan_env sim_env) demo_cfg \<lparr>world = sig_demo\<lparr>sw_arrivals := [[], [SIGTERM]]\<rparr>, trace = []\<rparr>
     = (Inl 0, \<lparr>world = sig_demo\<lparr>sw_arrivals := []\<rparr>,
                trace = [SignalPoll False, Head (health_url demo_cfg) (HeadResp 200),
                         Log LInitializedUnsealed, Log (LNextCheck (check_interval demo_cfg)),
                         Wait (check_interval demo_cfg) True, Log LShuttingDown, Exit 0]\<rparr>)"
  using signal_during_wait_stops [of "\<lparr>world = sig_demo\<lparr>sw_arrivals := [[], [SIGTERM]]\<rparr>, trace = []\<rparr>"
      sim_env demo_cfg 200 "sw_base sig_demo" "[]" "[SIGTERM]" "[]"] sig_demo_head
  by (simp add: sig_demo_def sim_defs classify_def fresh_sim_def)

theorem unreachable_vault_unstoppable_witness:
  "fst (run_loop 3 (chan_env unreachable_env) demo_cfg
     \<lparr>world = \<lparr>sw_base = (), sw_chan = signal_ch, sw_arrivals = [[SIGTERM], [SIGINT], [SIGTERM]]\<rparr>,
      trace = []\<rparr>) = Inr ()"
  using unreachable_vault_unstoppable [of "\<lparr>world = \<lparr>sw_base = (), sw_chan = signal_ch,
      sw_arrivals = [[SIGTERM], [SIGINT], [SIGTERM]]\<rparr>, trace = []\<rparr>" unreachable_env demo_cfg 3]
  by (simp add: unreachable_env_def)

end
