(* ===== verification/DurationFmt.thy ===== *)
theory DurationFmt
  imports GoDuration Config
begin

text \<open>
  Go's \<open>time.Duration.String\<close>, which formats the check interval in the line
  \<open>log.Printf("Next check in %s", checkInterval)\<close> (\<open>src/main.go\<close>, line 130).  It is
  library code, modelled from \<open>Duration.format\<close>, \<open>fmtFrac\<close> and \<open>fmtInt\<close>: the
  buffer Go fills from its end is built here from the right, each helper returning the
  bytes it wrote.  The printed body is split into whole groups and a last group whose
  unit ends in \<open>s\<close> (\<open>format_unsigned_groups\<close>); from that split follow that
  \<open>time.ParseDuration\<close> reads every string \<open>String\<close> writes back as the duration it
  was written from (\<open>duration_format_parse\<close>), and that the same string with the
  \<open>s\<close> \<open>durFromEnv\<close> appends (\<open>Config\<close>) is an unknown unit, so the interval
  the program prints cannot be given back to it as \<open>CHECK_INTERVAL\<close>.
\<close>

text \<open>
  \<open>fmtFrac(buf, v, prec)\<close>: the \<open>prec\<close> low decimal digits of \<open>v\<close> as a fraction, trailing
  zeros and then the point omitted; \<open>acc\<close> holds the bytes already written to the right.
  The result is the bytes written and \<open>v / 10^prec\<close>.
\<close>

fun fmt_frac :: "nat \<Rightarrow> nat \<Rightarrow> bool \<Rightarrow> string \<Rightarrow> string \<times> nat" where
  "fmt_frac 0 v pr acc = ((if pr then CHR ''.'' # acc else acc), v)"
| "fmt_frac (Suc i) v pr acc =
     (let digit = v mod 10; pr' = pr \<or> digit \<noteq> 0 in
      fmt_frac i (v div 10) pr' (if pr' then digit_char digit # acc else acc))"

text \<open>\<open>fmtInt(buf, v)\<close>: the decimal digits of \<open>v\<close>, and \<open>"0"\<close> for zero.\<close>

function fmt_int_loop :: "nat \<Rightarrow> string \<Rightarrow> string" where
  "fmt_int_loop v acc = (if v = 0 then acc else fmt_int_loop (v div 10) (digit_char (v mod 10) # acc))"
  by pat_completeness auto
termination by (relation "measure fst") auto

declare fmt_int_loop.simps [simp del]

definition fmt_int :: "nat \<Rightarrow> string" where
  "fmt_int v = (if v = 0 then ''0'' else fmt_int_loop v [])"

text \<open>The unit names of \<open>format\<close>, the micro sign written as its UTF-8 bytes.\<close>

definition micro_s :: string where
  "micro_s = [CHR 0xC2, CHR 0xB5, CHR ''s'']"

text \<open>
  The body of \<open>Duration.format\<close> for \<open>u\<close>, the magnitude as \<open>uint64\<close>: below one
  second the largest of \<open>ns\<close>, \<open>\<mu>s\<close>, \<open>ms\<close> that fits, with a fraction of 0, 3 or
  6 digits; otherwise seconds with a fraction of 9 digits, preceded by minutes and hours
  when there are any.
\<close>

definition format_unsigned :: "nat \<Rightarrow> string" where
  "format_unsigned u =
     (if u < 1000000000 then
        (if u = 0 then ''0s''
         else (let (unit, prec) =
                     (if u < 1000 then (''ns'', 0)
                      else if u < 1000000 then (micro_s, 3)
                      else (''ms'', 6));
                   (fr, v) = fmt_frac prec u False []
               in fmt_int v @ fr @ unit))
      else (let (fr, v) = fmt_frac 9 u False [];
                secs = fmt_int (v mod 60) @ fr @ ''s'';
                m = v div 60
            in if 0 < m
               then (let h = m div 60;
                         mins = fmt_int (m mod 60) @ ''m'' @ secs
                     in if 0 < h then fmt_int h @ ''h'' @ mins else mins)
               else secs))"

text \<open>
  \<open>Duration.format\<close>: \<open>u = uint64(d)\<close>, negated (modulo \<open>2^64\<close>) when \<open>d < 0\<close>, and
  the sign written in front of the body.
\<close>

definition duration_format :: "duration \<Rightarrow> string" where
  "duration_format d =
     (let neg = sint d < 0;
          u = unat (if neg then - d else d)
      in if neg then CHR ''-'' # format_unsigned u else format_unsigned u)"

text \<open>The line of \<open>log.Printf("Next check in %s", checkInterval)\<close>.\<close>

definition next_check_line :: "duration \<Rightarrow> string" where
  "next_check_line d = ''Next check in '' @ duration_format d"

subsection \<open>Reference forms of the helpers\<close>

text \<open>
  \<open>low_digits i v\<close>: the \<open>i\<close> low decimal digits of \<open>v\<close>, leading zeros included;
  \<open>strip_zeros\<close> removes trailing \<open>'0'\<close> bytes.
\<close>

fun low_digits :: "nat \<Rightarrow> nat \<Rightarrow> string" where
  "low_digits 0 v = []"
| "low_digits (Suc i) v = low_digits i (v div 10) @ [digit_char (v mod 10)]"

definition strip_zeros :: "string \<Rightarrow> string" where
  "strip_zeros t = rev (dropWhile (\<lambda>c. c = CHR ''0'') (rev t))"

text \<open>
  A fraction \<open>fr\<close> as \<open>fmtFrac\<close> writes it for a unit, worth \<open>x\<close> of that unit's base:
  nothing, or a point and digits whose value scaled to the unit is \<open>x\<close>.
\<close>

definition frac_of :: "string \<Rightarrow> nat \<Rightarrow> nat \<Rightarrow> bool" where
  "frac_of fr unit x \<longleftrightarrow>
     (fr = [] \<and> x = 0) \<or>
     (\<exists>ds. fr = CHR ''.'' # ds \<and> ds \<noteq> [] \<and> list_all is_digit ds \<and>
        digits_value ds \<le> (2 ^ 63 - 1) div 10 \<and> digits_value ds * unit div 10 ^ length ds = x)"

lemma fmt_int_loop_digits:
  "fmt_int_loop v acc = (if v = 0 then acc else nat_digits v @ acc)"
proof (induction v acc rule: fmt_int_loop.induct)
  case (1 v acc)
  show ?case
  proof (cases "v = 0")
    case False
    then have "fmt_int_loop v acc = fmt_int_loop (v div 10) (digit_char (v mod 10) # acc)"
      by (subst fmt_int_loop.simps) simp
    moreover have "nat_digits v =
        (if v < 10 then [digit_char v] else nat_digits (v div 10) @ [digit_char (v mod 10)])"
      by (rule nat_digits.simps)
    ultimately show ?thesis using "1" [OF False] False by auto
  qed (simp add: fmt_int_loop.simps)
qed

lemma fmt_int_nat_digits: "fmt_int v = nat_digits v"
  by (simp add: fmt_int_def fmt_int_loop_digits nat_digits.simps digit_char_def)

lemma digit_char_zero_iff: "d < 10 \<Longrightarrow> digit_char d = CHR ''0'' \<longleftrightarrow> d = 0"
  by (drule digit_char_cases) (auto simp: digit_char_def)

lemma strip_zeros_snoc:
  "strip_zeros (xs @ [c]) = (if c = CHR ''0'' then strip_zeros xs else xs @ [c])"
  by (simp add: strip_zeros_def)

lemma fmt_frac_ref:
  "fmt_frac i v pr acc =
     (let t = (if pr then low_digits i v else strip_zeros (low_digits i v))
      in (if pr \<or> t \<noteq> [] then CHR ''.'' # t @ acc else acc), v div 10 ^ i)"
proof (induction i arbitrary: v pr acc)
  case 0
  then show ?case by (simp add: strip_zeros_def)
next
  case (Suc i)
  define d where "d = v mod 10"
  have dc: "digit_char d = CHR ''0'' \<longleftrightarrow> d = 0" unfolding d_def by (simp add: digit_char_zero_iff)
  have step: "fmt_frac (Suc i) v pr acc =
      fmt_frac i (v div 10) (pr \<or> d \<noteq> 0) (if pr \<or> d \<noteq> 0 then digit_char d # acc else acc)"
    by (simp add: d_def Let_def)
  have low: "low_digits (Suc i) v = low_digits i (v div 10) @ [digit_char d]" by (simp add: d_def)
  have dv: "v div 10 div 10 ^ i = v div 10 ^ Suc i" by (simp add: div_mult2_eq)
  consider "pr" | "\<not> pr" "d \<noteq> 0" | "\<not> pr" "d = 0" by blast
  then show ?case
  proof cases
    case 1
    then show ?thesis unfolding step Suc [of "v div 10"] low dv by simp
  next
    case 2
    then show ?thesis unfolding step Suc [of "v div 10"] low dv by (simp add: strip_zeros_snoc dc)
  next
    case 3
    have "digit_char 0 = CHR ''0''" by (simp add: digit_char_def)
    with 3 show ?thesis unfolding step Suc [of "v div 10"] low dv by (simp add: strip_zeros_snoc)
  qed
qed

lemma low_digits_length [simp]: "length (low_digits i v) = i"
  by (induction i arbitrary: v) simp_all

lemma low_digits_all_digits: "list_all is_digit (low_digits i v)"
  by (induction i arbitrary: v) simp_all

lemma low_digits_value: "digits_value (low_digits i v) = v mod 10 ^ i"
proof (induction i arbitrary: v)
  case (Suc i)
  then show ?case by (simp add: mod_mult2_eq)
qed simp

lemma digits_value_zeros:
  "digits_value (xs @ replicate k (CHR ''0'')) = digits_value xs * 10 ^ k"
proof (induction k)
  case (Suc k)
  have "xs @ replicate (Suc k) (CHR ''0'') = (xs @ replicate k (CHR ''0'')) @ [CHR ''0'']"
    by (simp add: replicate_append_same)
  moreover have "digits_value ((xs @ replicate k (CHR ''0'')) @ [CHR ''0''])
      = digits_value (xs @ replicate k (CHR ''0'')) * 10 + digit_val (CHR ''0'')"
    by (rule digits_value_snoc)
  ultimately show ?case using Suc by (simp add: digit_val_def)
qed simp

lemma strip_zeros_split:
  "t = strip_zeros t @ replicate (length t - length (strip_zeros t)) (CHR ''0'')"
proof -
  let ?z = "takeWhile (\<lambda>c. c = CHR ''0'') (rev t)"
  let ?r = "dropWhile (\<lambda>c. c = CHR ''0'') (rev t)"
  have "\<forall>x\<in>set ?z. x = CHR ''0''" by (auto dest: set_takeWhileD)
  then have z: "?z = replicate (length ?z) (CHR ''0'')" by (simp add: replicate_length_same)
  have "rev t = ?z @ ?r" by simp
  then have t0: "t = rev (?z @ ?r)" by (simp only: rev_swap)
  have "rev (?z @ ?r) = strip_zeros t @ rev ?z" by (simp only: strip_zeros_def rev_append)
  with t0 have t: "t = strip_zeros t @ rev ?z" by (simp only:)
  then have "length t - length (strip_zeros t) = length ?z"
    by (metis add_diff_cancel_left' length_append length_rev)
  with t z show ?thesis by (metis rev_replicate)
qed

lemma strip_zeros_digits: "list_all is_digit t \<Longrightarrow> list_all is_digit (strip_zeros t)"
  by (auto simp: strip_zeros_def list_all_iff dest: set_dropWhileD)

lemma strip_zeros_value:
  "digits_value t = digits_value (strip_zeros t) * 10 ^ (length t - length (strip_zeros t))"
  by (subst (1) strip_zeros_split) (rule digits_value_zeros)

lemma leading_fraction_digits:
  "list_all is_digit t \<Longrightarrow> foldl (\<lambda>n c. n * 10 + digit_val c) x t \<le> (2 ^ 63 - 1) div 10 \<Longrightarrow>
   digit_free_head r \<Longrightarrow>
   leading_fraction x sc False (t @ r) = (foldl (\<lambda>n c. n * 10 + digit_val c) x t, sc * 10 ^ length t, r)"
proof (induction t arbitrary: x sc)
  case Nil
  then show ?case by (cases r) (simp_all add: digit_free_head_def)
next
  case (Cons c t)
  let ?x1 = "x * 10 + digit_val c"
  have "?x1 \<le> ?x1 * 10 ^ length t" by simp
  also have "\<dots> \<le> foldl (\<lambda>n c. n * 10 + digit_val c) ?x1 t" by (rule foldl_digits_ge)
  finally have x1: "?x1 \<le> (2 ^ 63 - 1) div 10" using Cons.prems(2) by simp
  then have "\<not> (2 ^ 63 - 1) div 10 < x" "\<not> 2 ^ 63 < ?x1" by simp_all
  with Cons show ?case by (simp add: Let_def mult.assoc)
qed

lemma dur_frac_point:
  assumes "ds \<noteq> []" "list_all is_digit ds" "digits_value ds \<le> (2 ^ 63 - 1) div 10"
    and "digit_free_head r"
  shows "dur_frac (CHR ''.'' # ds @ r) = (digits_value ds, 10 ^ length ds, r, True)"
  using leading_fraction_digits [of ds 0 r 1] assms
  by (simp add: dur_frac_def digits_value_def)

lemma dur_frac_no_point: "r = [] \<or> hd r \<noteq> CHR ''.'' \<Longrightarrow> dur_frac r = (0, 1, r, False)"
  by (cases r) (simp_all add: dur_frac_def)

lemma unit_takeWhile:
  assumes "list_all is_unit_char us" and "rest = [] \<or> is_digit (hd rest)"
  shows "takeWhile is_unit_char (us @ rest) = us"
proof -
  have "takeWhile is_unit_char rest = []"
    using assms(2) by (cases rest) (auto simp: is_unit_char_def)
  then show ?thesis using assms(1) by (simp add: takeWhile_append2 list_all_iff)
qed

lemma dur_loop_group_front:
  assumes us: "us \<noteq> []" "list_all is_unit_char us"
    and fr: "frac_of fr unit x" and n: "n \<le> 2 ^ 63"
  obtains c cs f sc where "nat_digits n = c # cs" "is_digit c"
    "leading_int 0 (c # cs @ fr @ us @ rest) = Some (n, fr @ us @ rest)"
    "dur_frac (fr @ us @ rest) = (f, sc, us @ rest, fr \<noteq> [])"
    "(if 0 < f then f * unit div sc else 0) = x"
proof -
  have us_hd: "digit_free_head us" "hd us \<noteq> CHR ''.''" using us by (simp_all add: unit_head_not_digit)
  have ush: "digit_free_head (us @ rest)"
    using us(1) us_hd(1) by (cases us) (simp_all add: digit_free_head_def)
  obtain c cs where ds: "nat_digits n = c # cs" by (cases "nat_digits n") simp_all
  have c: "is_digit c" using nat_digits_all_digits [of n] ds by simp
  obtain f sc where df: "dur_frac (fr @ us @ rest) = (f, sc, us @ rest, fr \<noteq> [])"
    and fx: "(if 0 < f then f * unit div sc else 0) = x"
    and dfh: "digit_free_head (fr @ us @ rest)"
  proof (cases "fr = []")
    case True
    with fr have "x = 0" by (simp add: frac_of_def)
    moreover have "dur_frac (us @ rest) = (0, 1, us @ rest, False)"
      using us(1) us_hd(2) by (intro dur_frac_no_point) (cases us, simp_all)
    ultimately show ?thesis using that True ush by simp
  next
    case False
    with fr obtain dd where dd: "fr = CHR ''.'' # dd" "dd \<noteq> []" "list_all is_digit dd"
      "digits_value dd \<le> (2 ^ 63 - 1) div 10" "digits_value dd * unit div 10 ^ length dd = x"
      by (auto simp: frac_of_def)
    have "dur_frac (fr @ us @ rest) = (digits_value dd, 10 ^ length dd, us @ rest, True)"
      using dur_frac_point [OF dd(2,3,4)] dd(1) ush by simp
    moreover have "digit_free_head (fr @ us @ rest)"
      using dd(1) by (simp add: digit_free_head_def is_digit_def)
    ultimately show ?thesis using that False dd(5) by fastforce
  qed
  have "leading_int 0 (nat_digits n @ fr @ us @ rest) = Some (n, fr @ us @ rest)"
    using leading_int_digits [of "nat_digits n" 0 "fr @ us @ rest"] dfh n
    by (simp add: digits_value_def [symmetric])
  with ds c df fx that show ?thesis by simp
qed

lemma dur_loop_group:
  assumes unit: "(us, unit) \<in> set duration_units"
    and fr: "frac_of fr unit x"
    and bound: "acc + n * unit + x \<le> 2 ^ 63"
    and rest: "rest = [] \<or> is_digit (hd rest)"
  shows "dur_loop acc (nat_digits n @ fr @ us @ rest) = dur_loop (acc + n * unit + x) rest"
proof -
  from unit have us: "us \<noteq> []" "list_all is_unit_char us" "map_of duration_units us = Some unit"
    and pos: "0 < unit"
    by (simp_all add: duration_unit_shape)
  have "n \<le> n * unit" using pos by simp
  with bound have n: "n \<le> 2 ^ 63" by linarith
  obtain c cs f sc where ds: "nat_digits n = c # cs" and c: "is_digit c"
    and li: "leading_int 0 (c # cs @ fr @ us @ rest) = Some (n, fr @ us @ rest)"
    and df: "dur_frac (fr @ us @ rest) = (f, sc, us @ rest, fr \<noteq> [])"
    and fx: "(if 0 < f then f * unit div sc else 0) = x"
    by (rule dur_loop_group_front [OF us(1,2) fr n])
  have tw: "takeWhile is_unit_char (us @ rest) = us" by (rule unit_takeWhile [OF us(2) rest])
  have nu: "\<not> 2 ^ 63 div unit < n"
    using bound pos by (simp add: not_less less_eq_div_iff_mult_less_eq)
  have v': "n * unit + (if 0 < f then f * unit div sc else 0) = n * unit + x" using fx by simp
  have nolen: "length (fr @ us @ rest) \<noteq> length (c # cs @ fr @ us @ rest)" by simp
  have mod: "(acc + (n * unit + x)) mod 2 ^ 64 = acc + n * unit + x" using bound by simp
  show ?thesis
    unfolding ds append_Cons
    using c li df us(1,3) nu v' nolen mod bound
    by (simp add: tw Let_def add.assoc del: leading_int.simps)
qed

text \<open>
  A last group whose unit is followed by one more \<open>s\<close>: the unit read is the longer
  word, which \<open>time.ParseDuration\<close> does not know.
\<close>

lemma dur_loop_unknown_s:
  assumes unit: "(us, unit) \<in> set duration_units" and m: "us \<noteq> ''m''"
    and fr: "frac_of fr unit x" and n: "n \<le> 2 ^ 63"
  shows "dur_loop acc (nat_digits n @ fr @ us @ ''s'') = Inl (DurUnknownUnit (us @ ''s''))"
proof -
  note uss = unit_s_suffix [OF unit m]
  obtain c cs f sc where ds: "nat_digits n = c # cs" and c: "is_digit c"
    and li: "leading_int 0 (c # cs @ fr @ (us @ ''s'') @ []) = Some (n, fr @ (us @ ''s'') @ [])"
    and df: "dur_frac (fr @ (us @ ''s'') @ []) = (f, sc, (us @ ''s'') @ [], fr \<noteq> [])"
    by (rule dur_loop_group_front [OF conjunct1 [OF uss] conjunct1 [OF conjunct2 [OF uss]] fr n])
  have tw: "takeWhile is_unit_char (us @ ''s'') = us @ ''s''"
    using uss by (simp add: list_all_iff)
  have nolen: "length (fr @ us @ ''s'') \<noteq> length (c # cs @ fr @ us @ ''s'')" by simp
  show ?thesis
    unfolding ds append_Cons
    using c li df uss nolen by (simp add: tw del: leading_int.simps)
qed

lemma mult_pow_div: "k \<le> p \<Longrightarrow> a * 10 ^ p div 10 ^ k = a * (10::nat) ^ (p - k)"
proof -
  assume "k \<le> p"
  then have "(10::nat) ^ p = 10 ^ (p - k) * 10 ^ k" by (simp add: power_add [symmetric])
  then have "a * 10 ^ p = (a * 10 ^ (p - k)) * (10::nat) ^ k" by (simp add: mult.assoc)
  then show ?thesis by (metis nonzero_mult_div_cancel_right power_not_zero zero_neq_numeral)
qed

lemma fmt_frac_frac_of:
  assumes "prec \<le> 9" and "fmt_frac prec u False [] = (fr, v)"
  shows "frac_of fr (10 ^ prec) (u mod 10 ^ prec) \<and> v = u div 10 ^ prec"
proof -
  let ?l = "low_digits prec u"
  let ?t = "strip_zeros ?l"
  have fr: "fr = (if ?t \<noteq> [] then CHR ''.'' # ?t else [])" and v: "v = u div 10 ^ prec"
    using assms(2) by (auto simp: fmt_frac_ref Let_def)
  have val: "digits_value ?l = digits_value ?t * 10 ^ (prec - length ?t)"
    using strip_zeros_value [of ?l] by simp
  have len: "length ?t \<le> prec"
    using arg_cong [OF strip_zeros_split [of ?l], of length] by simp
  have lv: "digits_value ?l = u mod 10 ^ prec" by (rule low_digits_value)
  have "(10::nat) ^ prec \<le> 10 ^ 9" using assms(1) by (rule power_increasing) simp
  moreover have "u mod 10 ^ prec < 10 ^ prec" by simp
  moreover have "digits_value ?t \<le> digits_value ?t * 10 ^ (prec - length ?t)" by simp
  moreover have "(10::nat) ^ 9 \<le> (2 ^ 63 - 1) div 10" by simp
  ultimately have small: "digits_value ?t \<le> (2 ^ 63 - 1) div 10"
    using val lv by linarith
  show ?thesis
  proof (cases "?t = []")
    case True
    then have "u mod 10 ^ prec = 0" using val lv by simp
    with True fr v show ?thesis by (simp add: frac_of_def)
  next
    case False
    have "digits_value ?t * 10 ^ prec div 10 ^ length ?t = digits_value ?t * 10 ^ (prec - length ?t)"
      using len by (rule mult_pow_div)
    then have "digits_value ?t * 10 ^ prec div 10 ^ length ?t = u mod 10 ^ prec"
      using val lv by simp
    with False fr v small show ?thesis
      by (auto simp: frac_of_def strip_zeros_digits low_digits_all_digits)
  qed
qed

lemma format_units:
  "(''ns'', 1) \<in> set duration_units" "(micro_s, 10 ^ 3) \<in> set duration_units"
  "(''ms'', 10 ^ 6) \<in> set duration_units" "(''s'', 10 ^ 9) \<in> set duration_units"
  "(''m'', 60 * 10 ^ 9) \<in> set duration_units" "(''h'', 3600 * 10 ^ 9) \<in> set duration_units"
  by (simp_all add: duration_units_def micro_s_def)

lemma nat_digits_hd_digit: "is_digit (hd (nat_digits n))"
  using nat_digits_all_digits [of n] by (cases "nat_digits n") simp_all

lemma frac_of_Nil: "frac_of [] unit 0"
  by (simp add: frac_of_def)

lemma dur_loop_last_group:
  assumes "(us, unit) \<in> set duration_units" "frac_of fr unit x" "acc + n * unit + x \<le> 2 ^ 63"
  shows "dur_loop acc (nat_digits n @ fr @ us) = Inr (acc + n * unit + x)"
  using dur_loop_group [OF assms, of "[]"] by simp

lemma format_unsigned_seconds:
  assumes "\<not> u < 1000000000" and "fmt_frac 9 u False [] = (fr, v)"
  shows "format_unsigned u =
    (if 0 < v div 60
     then (if 0 < v div 60 div 60 then nat_digits (v div 60 div 60) @ ''h'' else []) @ nat_digits (v div 60 mod 60) @ ''m''
     else []) @ nat_digits (v mod 60) @ fr @ ''s''"
  using assms
  by (cases "0 < v div 60"; cases "0 < v div 60 div 60")
    (simp_all add: format_unsigned_def fmt_int_nat_digits Let_def)

text \<open>
  The body printed for \<open>u\<close> is a prefix of whole groups that bring the running total to
  \<open>acc\<close>, then a last group whose unit ends in \<open>s\<close> and which adds the rest of \<open>u\<close>.
\<close>

lemma format_unsigned_groups:
  assumes u: "u \<le> 2 ^ 63"
  obtains pre n fr us unit x acc where "format_unsigned u = pre @ nat_digits n @ fr @ us"
    "(us, unit) \<in> set duration_units" "last us = CHR ''s''" "frac_of fr unit x"
    "acc + n * unit + x = u"
    "\<And>rest. rest = [] \<or> is_digit (hd rest) \<Longrightarrow> dur_loop 0 (pre @ rest) = dur_loop acc rest"
proof (cases "u < 1000000000")
  case lt: True
  show ?thesis
  proof (cases "u = 0")
    case True
    have "format_unsigned u = [] @ nat_digits 0 @ [] @ ''s''"
      using True by (simp add: format_unsigned_def nat_digits.simps digit_char_def)
    then show ?thesis
      by (rule that [of "[]" 0 "[]" "''s''" "10 ^ 9" 0 0, OF _ format_units(4) _ frac_of_Nil])
        (simp_all add: True)
  next
    case nz: False
    define us where "us = (if u < 1000 then ''ns'' else if u < 1000000 then micro_s else ''ms'')"
    define prec where "prec = (if u < 1000 then 0 else if u < 1000000 then 3 else 6::nat)"
    obtain fr v where ff: "fmt_frac prec u False [] = (fr, v)" by fastforce
    have p9: "prec \<le> 9" by (simp add: prec_def)
    from fmt_frac_frac_of [OF p9 ff]
    have fr: "frac_of fr (10 ^ prec) (u mod 10 ^ prec)" and v: "v = u div 10 ^ prec" by simp_all
    have un: "(us, 10 ^ prec) \<in> set duration_units" "last us = CHR ''s''"
      using format_units(1-3) by (simp_all add: us_def prec_def micro_s_def)
    have fu: "format_unsigned u = [] @ nat_digits v @ fr @ us"
      using lt nz ff by (simp add: format_unsigned_def fmt_int_nat_digits us_def prec_def split: if_splits)
    have "0 + v * 10 ^ prec + u mod 10 ^ prec = u" using v div_mult_mod_eq [of u "10 ^ prec"] by simp
    with fu un fr show ?thesis
      by (intro that [of "[]" v fr us "10 ^ prec" "u mod 10 ^ prec" 0]) simp_all
  qed
next
  case False
  obtain fr v where ff: "fmt_frac 9 u False [] = (fr, v)" by fastforce
  from fmt_frac_frac_of [OF _ ff]
  have fr: "frac_of fr (10 ^ 9) (u mod 10 ^ 9)" and v: "v = u div 10 ^ 9" by simp_all
  define m where "m = v div 60"
  define h where "h = m div 60"
  define pre where "pre = (if 0 < m then (if 0 < h then nat_digits h @ ''h'' else []) @ nat_digits (m mod 60) @ ''m'' else [])"
  define acc where "acc = h * (3600 * 10 ^ 9) + (m mod 60) * (60 * 10 ^ 9)"
  have uv: "acc + (v mod 60) * 10 ^ 9 + u mod 10 ^ 9 = u"
  proof -
    have "u = v * 10 ^ 9 + u mod 10 ^ 9" unfolding v by simp
    moreover have "v = m * 60 + v mod 60" unfolding m_def by simp
    moreover have "m = h * 60 + m mod 60" unfolding h_def by simp
    ultimately have "u = ((h * 60 + m mod 60) * 60 + v mod 60) * 10 ^ 9 + u mod 10 ^ 9" by metis
    then show ?thesis by (simp add: acc_def algebra_simps)
  qed
  have fu: "format_unsigned u = pre @ nat_digits (v mod 60) @ fr @ ''s''"
    unfolding format_unsigned_seconds [OF False ff] pre_def m_def h_def ..
  have pm: "dur_loop a (nat_digits (m mod 60) @ ''m'' @ rest) = dur_loop (a + (m mod 60) * (60 * 10 ^ 9)) rest"
    if "a + (m mod 60) * (60 * 10 ^ 9) \<le> 2 ^ 63" "rest = [] \<or> is_digit (hd rest)" for a rest
    using dur_loop_group [OF format_units(5) frac_of_Nil, of a "m mod 60" rest] that by simp
  have pre: "dur_loop 0 (pre @ rest) = dur_loop acc rest" if r: "rest = [] \<or> is_digit (hd rest)" for rest
  proof (cases "0 < m")
    case False
    then show ?thesis by (simp add: pre_def acc_def h_def)
  next
    case m: True
    have b: "acc \<le> 2 ^ 63" using uv u by linarith
    show ?thesis
    proof (cases "0 < h")
      case False
      with pm [of 0 rest] b r m show ?thesis by (simp add: pre_def acc_def)
    next
      case True
      have "dur_loop 0 (nat_digits h @ [] @ ''h'' @ nat_digits (m mod 60) @ ''m'' @ rest)
          = dur_loop (0 + h * (3600 * 10 ^ 9) + 0) (nat_digits (m mod 60) @ ''m'' @ rest)"
        using b by (intro dur_loop_group [OF format_units(6) frac_of_Nil])
          (simp_all add: nat_digits_hd_digit acc_def)
      with pm [of "h * (3600 * 10 ^ 9)" rest] b r m True show ?thesis
        by (simp add: pre_def acc_def)
    qed
  qed
  show ?thesis
    by (rule that [OF fu format_units(4) _ fr uv pre]) simp_all
qed

lemma format_unsigned_parse: "u \<le> 2 ^ 63 \<Longrightarrow> dur_loop 0 (format_unsigned u) = Inr u"
proof -
  assume u: "u \<le> 2 ^ 63"
  obtain pre n fr us unit x acc where fu: "format_unsigned u = pre @ nat_digits n @ fr @ us"
    and un: "(us, unit) \<in> set duration_units" and "last us = CHR ''s''"
    and fr: "frac_of fr unit x" and ux: "acc + n * unit + x = u"
    and pre: "\<And>rest. rest = [] \<or> is_digit (hd rest) \<Longrightarrow> dur_loop 0 (pre @ rest) = dur_loop acc rest"
    using format_unsigned_groups [OF u] by metis
  have "dur_loop 0 (pre @ nat_digits n @ fr @ us) = dur_loop acc (nat_digits n @ fr @ us)"
    using pre nat_digits_hd_digit [of n] by (simp add: hd_append2)
  with dur_loop_last_group [OF un fr] ux u fu show ?thesis by simp
qed

lemma format_unsigned_unknown_s:
  "u \<le> 2 ^ 63 \<Longrightarrow> \<exists>w. dur_loop 0 (format_unsigned u @ ''s'') = Inl (DurUnknownUnit w)"
proof -
  assume u: "u \<le> 2 ^ 63"
  obtain pre n fr us unit x acc where fu: "format_unsigned u = pre @ nat_digits n @ fr @ us"
    and un: "(us, unit) \<in> set duration_units" and s: "last us = CHR ''s''" and fr: "frac_of fr unit x"
    and ux: "acc + n * unit + x = u"
    and pre: "\<And>rest. rest = [] \<or> is_digit (hd rest) \<Longrightarrow> dur_loop 0 (pre @ rest) = dur_loop acc rest"
    using format_unsigned_groups [OF u] by metis
  have m: "us \<noteq> ''m''" using s by auto
  have "0 < unit" using un by (simp add: duration_unit_shape)
  then have "n \<le> n * unit" by simp
  then have n: "n \<le> 2 ^ 63" using ux u by linarith
  have "dur_loop 0 (pre @ nat_digits n @ fr @ us @ ''s'') = dur_loop acc (nat_digits n @ fr @ us @ ''s'')"
    using pre nat_digits_hd_digit [of n] by (simp add: hd_append2)
  with dur_loop_unknown_s [OF un m fr n] fu show ?thesis by auto
qed

lemma format_unsigned_shape: "\<exists>c cs. format_unsigned u = c # cs \<and> is_digit c \<and> cs \<noteq> []"
proof -
  have "\<exists>n r. format_unsigned u = nat_digits n @ r \<and> r \<noteq> []"
  proof (cases "u < 1000000000")
    case lt: True
    show ?thesis
    proof (cases "u = 0")
      case True
      then show ?thesis
        by (intro exI [of _ 0] exI [of _ "''s''"]) (simp add: format_unsigned_def nat_digits.simps digit_char_def)
    next
      case False
      obtain fr v where ff: "fmt_frac (if u < 1000 then 0 else if u < 1000000 then 3 else 6) u False [] = (fr, v)"
        by fastforce
      have "format_unsigned u = nat_digits v @ fr @
          (if u < 1000 then ''ns'' else if u < 1000000 then micro_s else ''ms'')"
        using lt False ff by (simp add: format_unsigned_def fmt_int_nat_digits split: if_splits)
      then show ?thesis by (auto simp: micro_s_def)
    qed
  next
    case False
    obtain fr v where ff: "fmt_frac 9 u False [] = (fr, v)" by fastforce
    define secs where "secs = nat_digits (v mod 60) @ fr @ ''s''"
    define m where "m = v div 60"
    define mins where "mins = nat_digits (m mod 60) @ ''m'' @ secs"
    have fu: "format_unsigned u =
        (if 0 < m then (if 0 < m div 60 then nat_digits (m div 60) @ ''h'' @ mins else mins) else secs)"
      using False ff by (simp add: format_unsigned_def fmt_int_nat_digits Let_def secs_def mins_def m_def)
    show ?thesis unfolding fu secs_def mins_def by auto
  qed
  then obtain n r where fu: "format_unsigned u = nat_digits n @ r" "r \<noteq> []" by blast
  obtain c cs where "nat_digits n = c # cs" by (cases "nat_digits n") simp_all
  with fu nat_digits_hd_digit [of n] show ?thesis by auto
qed

lemma sint_inj: "sint (a :: 'a::len word) = sint b \<Longrightarrow> a = b"
  by (metis word_of_int_sint)

lemma duration_magnitude:
  fixes d :: duration
  shows "sint d < 0 \<Longrightarrow> unat (- d) \<le> 2 ^ 63 \<and> 0 < unat (- d) \<and> - word_of_nat (unat (- d)) = d"
    and "\<not> sint d < 0 \<Longrightarrow> unat d < 2 ^ 63 \<and> word_of_nat (unat d) = d"
proof -
  assume neg: "sint d < 0"
  define n where "n = nat (- sint d)"
  have "- (2 ^ 63) \<le> sint d" using sint_ge [of d] by simp
  then have n: "n \<le> 2 ^ 63" "0 < n" using neg unfolding n_def by (simp_all add: nat_le_iff)
  have "sint (- word_of_nat n :: duration) = sint d"
    using sint_neg_of_nat [OF n(1)] neg unfolding n_def by simp
  then have dn: "- word_of_nat n = d" by (rule sint_inj)
  then have md: "word_of_nat n = - d" by (metis minus_minus)
  have "unat (word_of_nat n :: duration) = n" using n(1) by (simp add: unat_of_nat)
  then have "unat (- d) = n" by (simp only: md)
  with n dn show "unat (- d) \<le> 2 ^ 63 \<and> 0 < unat (- d) \<and> - word_of_nat (unat (- d)) = d" by simp
next
  assume nn: "\<not> sint d < 0"
  define n where "n = nat (sint d)"
  have "sint d < 2 ^ 63" using sint_lt [of d] by simp
  then have n: "n \<le> 2 ^ 63 - 1" using nn unfolding n_def by (simp add: nat_le_iff)
  have "sint (word_of_nat n :: duration) = sint d"
    using sint_of_nat_le [OF n] nn unfolding n_def by simp
  then have dn: "word_of_nat n = d" by (rule sint_inj)
  have "unat (word_of_nat n :: duration) = n" using n by (simp add: unat_of_nat)
  then have "unat d = n" by (simp only: dn)
  with n dn show "unat d < 2 ^ 63 \<and> word_of_nat (unat d) = d" by simp
qed

theorem duration_format_parse: "go_parse_duration (duration_format d) = Inr d"
proof -
  obtain c cs where fs: "format_unsigned (unat (if sint d < 0 then - d else d)) = c # cs"
    and c: "is_digit c" and cs: "cs \<noteq> []"
    using format_unsigned_shape by blast
  have ne0: "c # cs \<noteq> ''0''" using cs by (cases cs) simp_all
  show ?thesis
  proof (cases "sint d < 0")
    case True
    note mag = duration_magnitude(1) [OF True]
    have "dur_loop 0 (c # cs) = Inr (unat (- d))"
      using format_unsigned_parse [of "unat (- d)"] mag fs True by simp
    with fs True mag ne0 cs show ?thesis
      by (simp add: go_parse_duration_def duration_format_def split_sign_def del: dur_loop.simps)
  next
    case False
    note mag = duration_magnitude(2) [OF False]
    have "dur_loop 0 (c # cs) = Inr (unat d)"
      using format_unsigned_parse [of "unat d"] mag fs False by simp
    with fs False mag ne0 c cs show ?thesis
      by (simp add: go_parse_duration_def duration_format_def split_sign_digit_head
          del: dur_loop.simps)
  qed
qed

lemma format_unsigned_last: "u \<le> 2 ^ 63 \<Longrightarrow> last (format_unsigned u) = CHR ''s''"
proof -
  assume u: "u \<le> 2 ^ 63"
  obtain pre n fr us unit x acc where fu: "format_unsigned u = pre @ nat_digits n @ fr @ us"
    and un: "(us, unit) \<in> set duration_units" and s: "last us = CHR ''s''"
    using format_unsigned_groups [OF u] by metis
  have "us \<noteq> []" using un by (simp add: duration_unit_shape)
  with fu s show ?thesis by simp
qed

lemma duration_format_body:
  fixes d :: duration
  obtains c cs where "format_unsigned (unat (if sint d < 0 then - d else d)) = c # cs"
    "is_digit c" "cs \<noteq> []" "unat (if sint d < 0 then - d else d) \<le> 2 ^ 63"
proof -
  obtain c cs where "format_unsigned (unat (if sint d < 0 then - d else d)) = c # cs"
    "is_digit c" "cs \<noteq> []"
    using format_unsigned_shape by blast
  moreover have "unat (if sint d < 0 then - d else d) \<le> 2 ^ 63"
    using duration_magnitude [of d] by (cases "sint d < 0") simp_all
  ultimately show ?thesis by (rule that)
qed

lemma duration_format_last: "duration_format d \<noteq> [] \<and> last (duration_format d) = CHR ''s''"
proof -
  obtain c cs where fs: "format_unsigned (unat (if sint d < 0 then - d else d)) = c # cs"
    and u: "unat (if sint d < 0 then - d else d) \<le> 2 ^ 63"
    using duration_format_body by blast
  have "last (c # cs) = CHR ''s''" using format_unsigned_last [OF u] fs by simp
  with fs show ?thesis
    by (cases "sint d < 0") (simp_all add: duration_format_def Let_def last_ConsR del: last.simps)
qed

lemma duration_format_unknown_s:
  "\<exists>w. go_parse_duration (duration_format d @ ''s'') = Inl (DurUnknownUnit w)"
proof -
  obtain c cs where fs: "format_unsigned (unat (if sint d < 0 then - d else d)) = c # cs"
    and c: "is_digit c" and cs: "cs \<noteq> []" and u: "unat (if sint d < 0 then - d else d) \<le> 2 ^ 63"
    using duration_format_body by blast
  obtain w where dl: "dur_loop 0 (c # cs @ ''s'') = Inl (DurUnknownUnit w)"
    using format_unsigned_unknown_s [OF u] fs by auto
  have ne0: "c # cs @ ''s'' \<noteq> ''0''" by simp
  show ?thesis
  proof (cases "sint d < 0")
    case True
    with fs dl ne0 show ?thesis
      by (simp add: go_parse_duration_def duration_format_def split_sign_def del: dur_loop.simps)
  next
    case False
    with fs dl ne0 c show ?thesis
      by (simp add: go_parse_duration_def duration_format_def split_sign_digit_head
          del: dur_loop.simps)
  qed
qed

text \<open>
  C17: the check interval as the loop prints it on line 130 (\<open>Next check in %s\<close>, the
  \<open>LNextCheck\<close> entry of each round), written back into \<open>CHECK_INTERVAL\<close>, is refused
  by \<open>durFromEnv\<close>: every printed duration ends in \<open>s\<close>, the guard of line 263 appends
  another \<open>s\<close>, and \<open>time.ParseDuration\<close> rejects the unit so formed, for every
  interval.
\<close>

theorem printed_interval_rejected:
  assumes "next_check_line d = ''Next check in '' @ v" and "getenv env name = v"
  shows "\<exists>w. dur_from_env env name def = Inl (ErrParseDur name (DurUnknownUnit w))"
proof -
  have v: "v = duration_format d" using assms(1) by (simp add: next_check_line_def)
  obtain w where "go_parse_duration (v @ ''s'') = Inl (DurUnknownUnit w)"
    using duration_format_unknown_s [of d] v by blast
  with dur_from_env_appends_s [OF assms(2)] duration_format_last [of d] v show ?thesis by auto
qed

subsection \<open>Witness: the default interval of ten seconds\<close>

lemma fmt_frac_10s: "fmt_frac 9 10000000000 False [] = ([], 10)"
proof -
  have "(9::nat) = Suc (Suc (Suc (Suc (Suc (Suc (Suc (Suc (Suc 0))))))))" by simp
  then show ?thesis by (simp only:) (simp add: Let_def)
qed

lemma duration_format_10s: "duration_format (10000000000 :: duration) = ''10s''"
proof -
  have "format_unsigned 10000000000 = ''10s''"
    using format_unsigned_seconds [OF _ fmt_frac_10s] by (simp add: nat_digits.simps digit_char_def)
  then show ?thesis by (simp add: duration_format_def)
qed

theorem printed_interval_rejected_witness:
  "next_check_line 10000000000 = ''Next check in '' @ ''10s''
   \<and> getenv [(''CHECK_INTERVAL'', ''10s'')] ''CHECK_INTERVAL'' = ''10s''
   \<and> (\<exists>w. dur_from_env [(''CHECK_INTERVAL'', ''10s'')] ''CHECK_INTERVAL'' 10000000000
          = Inl (ErrParseDur ''CHECK_INTERVAL'' (DurUnknownUnit w)))"
  using printed_interval_rejected [of 10000000000 "''10s''" "[(''CHECK_INTERVAL'', ''10s'')]"
      "''CHECK_INTERVAL''" 10000000000]
  by (simp add: next_check_line_def getenv_def duration_format_10s)

end
