(* ===== verification/Spec2Isabelle.thy ===== *)
theory Spec2Isabelle
  imports SignalChan DurationFmt
begin

text \<open>
  \<^bold>\<open>vault-init\<close> (\<open>src/main.go\<close>) is a small Go service that runs beside a HashiCorp
  Vault server.  At start-up \<open>main\<close> reads its configuration from the environment; then
  it loops forever: it probes \<open>HEAD {VAULT_ADDR}/v1/sys/health\<close>, logs the state the
  status code stands for, and when the server answers \<open>501\<close> (not initialized) it calls
  \<open>initialize\<close>, which sends \<open>PUT /v1/sys/init\<close> and stores the root token and the
  recovery keys of the answer in AWS Secrets Manager; between rounds it waits
  \<open>CHECK_INTERVAL\<close>, and a \<open>SIGINT\<close>/\<open>SIGTERM\<close> received on its signal channel stops
  it with status 0.

  \<^bold>\<open>Theories.\<close>
  \<^item> \<open>Prelude\<close>: the model's types (\<open>go_int\<close> and \<open>duration\<close> are \<open>64 word\<close>, a JSON
    object is its member list, the process environment a list of \<open>KEY=value\<close> entries),
    decimal digits, the collections \<open>go_simps\<close> and \<open>rt_simps\<close>.
  \<^item> \<open>GoStrconv\<close>, \<open>GoDuration\<close>: the Go library functions the program calls on its
    input, \<open>strconv.Itoa\<close>, \<open>Atoi\<close> (fast path and \<open>ParseInt\<close>/\<open>ParseUint\<close>),
    \<open>ParseBool\<close> and \<open>time.ParseDuration\<close>, modelled from the library's algorithm with
    its \<open>uint64\<close> overflow checks.  \<open>go_atoi_refines\<close> shows \<open>Atoi\<close> equal to the
    abstract reading \<open>decimal_int\<close> of a signed numeral within \<open>int64\<close>;
    \<open>go_atoi_itoa\<close> is the print/parse round trip; \<open>go_parse_duration_numeral_unit\<close>
    and \<open>go_parse_duration_numeral_unknown\<close> evaluate a number followed by a unit.
  \<^item> \<open>DurationFmt\<close>: \<open>time.Duration.String\<close> (\<open>duration_format\<close>, from
    \<open>format\<close>, \<open>fmtFrac\<close>, \<open>fmtInt\<close>), which formats the interval in the line
    \<open>Next check in %s\<close> (\<open>next_check_line\<close>, line 130); \<open>fmt_frac_ref\<close> and
    \<open>fmt_int_nat_digits\<close> give the two helpers in closed form, and
    \<open>format_unsigned_groups\<close> splits the printed body into its unit groups, from which
    \<open>duration_format_parse\<close> (the \<open>String\<close>/\<open>ParseDuration\<close> round trip) and the
    rejection of the printed interval by \<open>durFromEnv\<close> follow.
  \<^item> \<open>Config\<close>: \<open>load_config\<close> is \<open>main\<close> lines 56--77 with \<open>intFromEnv\<close>,
    \<open>durFromEnv\<close> (its guard exactly as line 263 writes it) and \<open>boolFromEnv\<close>;
    every \<open>log.Fatal\<close> is a \<open>config_error\<close>.
  \<^item> \<open>JsonEnc\<close>: \<open>json.Marshal\<close> to the byte: \<open>encodeState.string\<close> with its HTML
    escaping, \<open>\\u00XX\<close> for control bytes, \<open>\\u2028\<close>/\<open>\\u2029\<close>, \<open>\\ufffd\<close> for
    bytes that start no valid UTF-8 sequence (\<open>utf8_len\<close> is the \<open>acceptRanges\<close>
    table of \<open>unicode/utf8\<close>), integers by \<open>strconv\<close>, objects in member order.
  \<^item> \<open>JsonDec\<close>: Go's reader: \<open>unquoteBytes\<close> (\<open>go_unq\<close>: escapes, UTF-16
    surrogate pairs, invalid UTF-8 coerced to U+FFFD), the scanner's grammar of numbers,
    literals, arrays and objects (\<open>jval\<close>, \<open>jarr\<close>, \<open>jobj\<close>) and \<open>checkValid\<close>'s
    rule that only white space may follow the value (\<open>go_json_value\<close>).
  \<^item> \<open>Runtime\<close>: the interface to the world.  The external operations (signal
    receives, \<open>httpClient.Head\<close>, \<open>time.Sleep\<close>, the init request with the bytes
    \<open>ioutil.ReadAll\<close> returns, \<open>NewSession\<close>, \<open>PutSecretValue\<close>) are the fields of
    \<open>go_env\<close>, functions of an abstract world \<open>'w\<close>.  The program state \<open>'w proc\<close>
    pairs the world with the trace of events: log lines (\<open>log_msg\<close>, one constructor per
    format string), calls with their answers and the exit.  A step returns \<open>Inl code\<close>
    when the process exits, \<open>Inr\<close> when it goes on.
  \<^item> \<open>Unmarshal\<close>: \<open>json.Unmarshal\<close> into \<open>InitResponse\<close> (line 180): the field of a
    key by exact tag, else by \<open>equalFoldRight\<close>; \<open>null\<close>, unknown members and values
    of the wrong kind as Go's \<open>decodeState\<close> treats them (\<open>unmarshal_init_response\<close>).
  \<^item> \<open>Health\<close>: \<open>probe\<close> and the status switch (\<open>classify\<close>, \<open>state_logs\<close>).
  \<^item> \<open>Initializer\<close>: \<open>initialize\<close> (lines 140--231), each early return and
    \<open>log.Fatal\<close> a branch, the body of the answer decoded by \<open>unmarshal_init_response\<close>;
    \<open>recovery_payload\<close> is the \<open>recoveryKeys\<close> map with the key order of
    \<open>json.Marshal\<close>, built by the \<open>range\<close> loop of lines 211--215 as a \<open>fold\<close> of
    map updates.
  \<^item> \<open>PollLoop\<close>: one round of the \<open>for\<close> loop (\<open>poll_cycle\<close>), the loop run for
    \<open>n\<close> rounds (\<open>run_loop\<close>), \<open>main\<close> (\<open>vault_main\<close>), the reachable states of the
    loop (\<open>loop_reach\<close>), the init-call monitor \<open>mon_run\<close> and the exit predicate
    \<open>exit_trace\<close>.
  \<^item> \<open>Transport\<close>: the set-up of lines 79--92, the TLS configuration of
    \<open>httpClient\<close> (\<open>http_client_tls\<close>), and the \<open>signal.Notify\<close> registration
    (\<open>notify_signals\<close>) with the signals \<open>os/signal\<close> can relay (\<open>signal_delivered\<close>).
  \<^item> \<open>SimWorld\<close>: one concrete world, a Vault server that answers with the JSON body
    Vault writes (\<open>vault_init_body\<close>) and a secret store, with injectable faults, in which
    whole runs are evaluated.
  \<^item> \<open>SignalChan\<close>: the signal channel with Go's semantics: the channel of
    \<open>runtime/chan.go\<close> (\<open>hchan\<close>, the non-blocking \<open>chansend_nb\<close> and
    \<open>chanrecv_nb\<close>), the non-blocking send of \<open>os/signal\<close> (\<open>signal_process\<close>),
    the unbuffered channel of line 87 (\<open>signal_ch\<close>) and the blocking \<open>select\<close> of
    lines 132--136 (\<open>select_wait\<close>).  \<open>chan_env e\<close> runs the program against any
    world \<open>e\<close> extended by the channel and a script of the signals that arrive during
    each operation; \<open>env_keeps\<close> and \<open>loop_reach_keeps\<close> carry an invariant of the
    world through every reachable state of the loop.

  \<^bold>\<open>Results.\<close>  Over every \<open>go_env\<close>: an init call happens exactly after a probe
  answering \<open>501\<close> and its two log lines (C1); every run ends, if at all, with one exit
  of status 0, 1 or 2, and status 0 only after a received signal (C10, proved by rule
  induction over \<open>loop_reach\<close>); the status table (C2); the labels of the recovery keys
  (C3); every branch of \<open>initialize\<close> with its exact trace (C4--C7, C22--C24); the
  configuration readers (C11, C12, C14); start-up failure, the probe-error round and the
  status rounds (C16, C18, C19); the interval the loop prints on the \<open>Next check in\<close>
  line, given back as \<open>CHECK_INTERVAL\<close>, is refused for every 64-bit duration (C17).
  Against the channel of Go's runtime (\<open>SignalChan\<close>): the check before each probe
  never receives a signal in any reachable state of the loop (C13, by rule induction over
  \<open>loop_reach\<close>); after a probe, the round stops with status 0 exactly when
  \<open>SIGINT\<close> or \<open>SIGTERM\<close> arrives during its wait (C15); signals that arrive
  during the probe are lost (C20); and while no probe reaches Vault no signal ever stops
  the process (C21).  In \<open>SimWorld\<close>: the end-to-end bootstrap (C8), the retry after a
  failed init request (C25), the observable partial failure when only the root token is
  stored (C26) and the lost credentials of a garbled answer (C9).  The JSON of the
  program: the map loop equals a reference list sorted by label (C27); the recovery-key
  secret reads back through Go's reader as one member per key, distinct, in string order,
  \<open>recovery-key-(i+1)\<close> holding \<open>keys[i]\<close> (C28); the root-token secret and the init
  request read back as what they hold (C29, C30), and the request is byte for byte the
  expected one (\<open>init_request_data_bytes\<close>); the answer Vault writes decodes to exactly
  its credentials, whatever unknown members come with it (C33).  The configuration: the
  sign of the interval (C31) and every configuration the loop starts with well formed
  (C32).

  \<^bold>\<open>Bounds and fuel.\<close>  The loop of \<open>main\<close> never ends on its own, so \<open>run_loop n\<close>
  observes the first \<open>n\<close> rounds; every theorem holds for every \<open>n\<close>, and the
  \<open>SimWorld\<close> theorems give the exact state after any number of rounds.
  \<open>time.ParseDuration\<close> terminates by the length of its input (\<open>dur_loop\<close> is a
  \<open>function\<close> with a measure, and its \<open>partial_function\<close> copy \<open>dur_loop_go\<close> is
  shown always to return).  Go's JSON reader is modelled with fuel, one unit per call of
  \<open>jval\<close>/\<open>jarr\<close>/\<open>jobj\<close>; \<open>go_json_value\<close> gives \<open>2 * length s + 2\<close>, which
  \<open>jres_fuel\<close> shows is never exhausted, and \<open>jval_enough_fuel\<close> that any larger
  fuel gives the same answer, so the fuel bound decides nothing.  Integers are kept at 64
  bits; the one wrap-around of the library, \<open>d += v\<close> in \<open>ParseDuration\<close>, is taken
  modulo \<open>2^64\<close>.

  \<^bold>\<open>Findings.\<close>  (1) The guard \<open>r >= '0' || r <= '9'\<close> of \<open>durFromEnv\<close> always holds,
  so \<open>"500ms"\<close> or \<open>"10s"\<close> is fatal at start-up and \<open>"1m"\<close> means one millisecond
  (C11, C12); in particular the interval the program itself prints is refused (C17).
  (2) If the init answer cannot be read or decoded, the server is initialized but the
  credentials are never stored and nothing fails (C9).  (3) The signal channel is
  unbuffered, and \<open>os/signal\<close> drops a signal when no receiver is parked on it: the
  \<open>select\<close> before each probe can never receive one (C13), a signal that arrives while
  \<open>main\<close> probes, initializes or sleeps is lost (C20), and while Vault is unreachable
  the process cannot be stopped at all (C21); the spec checks for a stop signal before
  each probe.  With a buffer of one, as \<open>signal.Notify\<close> asks, the signal would be kept
  (\<open>buffered_channel_keeps_signal\<close>).  (4) \<open>json.Marshal\<close> sorts the labels as strings
  (\<open>recovery-key-10\<close> before \<open>recovery-key-2\<close>; C27, C28).  (5) \<open>boolFromEnv\<close> is
  never called.  (6) A negative \<open>CHECK_INTERVAL\<close> is accepted (C31 gives the sign it
  keeps).  (7) A \<open>200\<close> answer without a root token (\<open>{}\<close> or \<open>null\<close>) is no error:
  an empty root token and an empty key object are stored and initialization is reported
  complete (C34).  (8) Member names are matched to the tags up to case and Unicode
  folding, so \<open>ROOT_TOKEN\<close> or a Kelvin sign for the \<open>k\<close> fills the root token (C35).
  (9) The client sets \<open>InsecureSkipVerify\<close> (\<open>http_client_tls\<close>), so whoever answers
  for \<open>VAULT_ADDR\<close> is sent the init request and has its answer stored as the root token.
  (10) \<open>SIGKILL\<close> is registered but can never be received (\<open>notify_delivers\<close>; a
  \<open>SIGKILL\<close> during the wait does not end it, C15).

  \<^bold>\<open>Not modelled.\<close>  The HTTP transport and the TLS handshake themselves (their effect
  is the answer of the operations of \<open>go_env\<close>; only the client's configuration is
  modelled), the parsing of the request URLs by \<open>net/url\<close>
  (its errors reach the program as the error answers of \<open>Head\<close> and of the init call,
  and its rules depend on the Go version, which the repository does not fix), the time at
  which a signal arrives (\<open>SignalChan\<close> takes a script of the signals arriving during
  each operation; \<open>SimWorld\<close> answers the two \<open>select\<close>s with booleans, which is what
  the channel gives), the AWS SDK beyond success or
  error of its two calls (its retries and its request encoding are the SDK's), the timer of
  \<open>time.After\<close> (the script says which signals arrive before it fires), the prefix
  \<open>log\<close> writes before each line and the text of Go's error messages (a decoding
  error is logged by its kind; of the formatted values only the interval of the
  \<open>Next check in\<close> line is written out), the nesting limit of Go's decoder, and the stale
  elements a slice field can show when one key occurs three times in a body with
  \<open>null\<close> elements (the model empties them).
\<close>

text \<open>
  C1: in every run of vault-init, whatever the environment answers, the init call is made
  exactly after a health probe that answered \<open>501\<close> and the two log lines of that
  branch, and every such probe is followed by the init call: the trace is accepted by the
  monitor \<open>mon_run\<close> and ends in its idle state.
\<close>

theorem vault_main_init_iff_501:
  "mon_run MIdle (trace (snd (vault_main n e env w))) = Some MIdle"
proof -
  obtain r p where vm: "vault_main n e env w = (r, p)" by fastforce
  have start: "mon_run MIdle [Log LStarting] = Some MIdle" by simp
  show ?thesis
  proof (cases "load_config env")
    case (Inl err)
    with vm show ?thesis by (auto simp: vault_main_def rt_simps)
  next
    case (Inr cfg)
    with vm have "run_loop n e cfg (log_line LStarting \<lparr>world = w, trace = []\<rparr>) = (r, p)"
      by (simp add: vault_main_def)
    from run_loop_mon [OF this] start vm show ?thesis by (simp add: rt_simps)
  qed
qed

text \<open>
  C10: every run of vault-init ends in one of the ways the code allows: while it runs the
  trace holds no exit; when it ends, the exit is the last event and the only one, its status
  is \<open>0\<close>, \<open>1\<close> or \<open>2\<close>, and status \<open>0\<close> follows a received signal and the
  \<open>Shutting down\<close> line.
\<close>

theorem vault_main_exit_trace:
  "exit_trace (fst (vault_main n e env w)) (trace (snd (vault_main n e env w)))"
proof (cases "load_config env")
  case (Inl err)
  then show ?thesis by (simp add: vault_main_def rt_simps exit_trace_def)
next
  case (Inr cfg)
  obtain r p where rl: "run_loop n e cfg \<lparr>world = w, trace = [Log LStarting]\<rparr> = (r, p)" by fastforce
  from run_loop_exit_trace [OF rl] obtain es where t: "trace p = [Log LStarting] @ es" and x: "exit_trace r es"
    by auto
  have st: "exit_trace (Inr ()) [Log LStarting]" by (simp add: exit_trace_def)
  have "exit_trace r (trace p)"
  proof (cases r)
    case (Inl c)
    with exit_trace_append_Inl [OF st, of c es] x t show ?thesis by simp
  next
    case (Inr u)
    with x t show ?thesis by (simp add: exit_trace_def)
  qed
  with Inr rl show ?thesis by (simp add: vault_main_def rt_simps)
qed

theorem vault_main_exit_trace_witness:
  "vault_main 3 signal_env demo_env (fresh_sim ''s.root'' demo_keys) =
     (Inl 0, \<lparr>world = fresh_sim ''s.root'' demo_keys,
              trace = [Log LStarting, SignalPoll True, Log LShuttingDown, Exit 0]\<rparr>)
   \<and> exit_trace (Inl 0) [Log LStarting, SignalPoll True, Log LShuttingDown, Exit 0]"
  using vault_main_exit_trace [of 3 signal_env demo_env "fresh_sim ''s.root'' demo_keys"]
  by (simp add: vault_main_loads [OF load_demo_env] signal_env_def poll_cycle_def rt_simps
      numeral_3_eq_3)


text \<open>
  C34: a \<open>200\<close> answer whose body is \<open>{}\<close> or \<open>null\<close> is accepted by
  \<open>json.Unmarshal\<close> without error and leaves \<open>initResponse\<close> at its zero value;
  \<open>initialize\<close> then stores an empty root token and an empty recovery-key object and
  logs \<open>Initialization complete.\<close>.
\<close>

theorem empty_init_answer_stored:
  assumes "env_init e (init_url cfg) (init_request_data cfg) (world p) = (InitResp 200 body, w1)"
    and "body = ''{}'' \<or> body = ''null''"
    and "env_new_session e w1 = (Inr (), w2)"
    and "env_put_secret e (root_token_secret_id cfg) (json_str_object [(''root-token'', [])]) w2 = (Inr (), w3)"
    and "env_put_secret e (recovery_keys_secret_id cfg) (json_str_object []) w3 = (Inr (), w4)"
  shows "initialize e cfg p =
    (Inr (), p\<lparr>world := w4, trace := trace p @ [InitCall (init_url cfg) (init_request_data cfg) (InitResp 200 body),
       Log LStoring, NewSession (Inr ()),
       PutSecret (root_token_secret_id cfg) (json_str_object [(''root-token'', [])]) (Inr ()),
       PutSecret (recovery_keys_secret_id cfg) (json_str_object []) (Inr ()), Log LComplete]\<rparr>)"
proof -
  have "unmarshal_init_response body = Inr zero_response"
    using assms(2) unmarshal_empty_answers by auto
  then show ?thesis
    using assms(1,3-5)
    by (simp add: initialize_def rt_simps root_token_secret_def root_token_payload_def
        recovery_keys_secret_def recovery_payload_def recovery_keys_map_def zero_response_def)
qed

theorem empty_init_answer_stored_witness:
  "\<exists>w1 w2 w3 w4.
     env_init sim_env (init_url demo_cfg) (init_request_data demo_cfg)
       (world \<lparr>world = (fresh_sim ''s.root'' demo_keys)\<lparr>sim_init_faults := [Garbled ''{}'']\<rparr>, trace = []\<rparr>)
       = (InitResp 200 ''{}'', w1)
   \<and> (''{}'' = ''{}'' \<or> ''{}'' = ''null'')
   \<and> env_new_session sim_env w1 = (Inr (), w2)
   \<and> env_put_secret sim_env (root_token_secret_id demo_cfg) (json_str_object [(''root-token'', [])]) w2 = (Inr (), w3)
   \<and> env_put_secret sim_env (recovery_keys_secret_id demo_cfg) (json_str_object []) w3 = (Inr (), w4)
   \<and> initialize sim_env demo_cfg \<lparr>world = (fresh_sim ''s.root'' demo_keys)\<lparr>sim_init_faults := [Garbled ''{}'']\<rparr>, trace = []\<rparr> =
       (Inr (), \<lparr>world = w4, trace = [demo_call (InitResp 200 ''{}''), Log LStoring, NewSession (Inr ()),
          PutSecret ''vault-root-token'' (json_str_object [(''root-token'', [])]) (Inr ()),
          PutSecret ''vault-recovery-keys'' (json_str_object []) (Inr ()), Log LComplete]\<rparr>)"
proof -
  let ?p = "\<lparr>world = (fresh_sim ''s.root'' demo_keys)\<lparr>sim_init_faults := [Garbled ''{}'']\<rparr>, trace = []\<rparr>"
  let ?w1 = "(fresh_sim ''s.root'' demo_keys)\<lparr>sim_initialized := True, sim_init_count := 1\<rparr>"
  let ?w2 = "?w1\<lparr>sim_store := [''vault-root-token'' \<mapsto> json_str_object [(''root-token'', [])]]\<rparr>"
  let ?w3 = "?w2\<lparr>sim_store := (sim_store ?w2)(''vault-recovery-keys'' \<mapsto> json_str_object [])\<rparr>"
  have h1: "env_init sim_env (init_url demo_cfg) (init_request_data demo_cfg) (world ?p) = (InitResp 200 ''{}'', ?w1)"
    by (simp add: rt_simps fresh_sim_def)
  have h2: "env_new_session sim_env ?w1 = (Inr (), ?w1)" by (simp add: rt_simps fresh_sim_def)
  have h3: "env_put_secret sim_env (root_token_secret_id demo_cfg) (json_str_object [(''root-token'', [])]) ?w1
      = (Inr (), ?w2)"
    by (simp add: rt_simps fresh_sim_def demo_cfg_def)
  have h4: "env_put_secret sim_env (recovery_keys_secret_id demo_cfg) (json_str_object []) ?w2 = (Inr (), ?w3)"
    by (simp add: rt_simps fresh_sim_def demo_cfg_def)
  have "initialize sim_env demo_cfg ?p =
      (Inr (), \<lparr>world = ?w3, trace = [demo_call (InitResp 200 ''{}''), Log LStoring, NewSession (Inr ()),
          PutSecret ''vault-root-token'' (json_str_object [(''root-token'', [])]) (Inr ()),
          PutSecret ''vault-recovery-keys'' (json_str_object []) (Inr ()), Log LComplete]\<rparr>)"
    using empty_init_answer_stored [OF h1 disjI1 [OF refl] h2 h3 h4]
    by (simp add: demo_call_def demo_cfg_def)
  with h1 h2 h3 h4 show ?thesis by blast
qed

end
